(* ===== verification/Go_Prelude.thy ===== *)
theory Go_Prelude
  imports Main "HOL-Library.Word"
begin

text \<open>
  What every component of the model shares: Go's machine integers, run-time panics as values
  of a sum type, zero-initialised byte arrays, and the little-endian codec of the package
  \<open>encoding/binary\<close>, with the lemmas that carry the component proofs.
\<close>

unbundle bit_operations_syntax

section \<open>Machine integers and panics\<close>

type_synonym u8 = "8 word"
type_synonym u16 = "16 word"
type_synonym u32 = "32 word"

text \<open>
  A Go run-time panic ends the whole process: nothing in the program recovers. A function that
  can panic returns \<open>Inl\<close> of the cause, or \<open>Inr\<close> of its result.
\<close>

datatype go_panic =
    NilDereference
  | IndexOutOfRange
  | SliceBoundsOutOfRange
  | NilFunctionCall
  | PanicCall string

type_synonym 'a go = "go_panic + 'a"

definition go_bind :: "'a go \<Rightarrow> ('a \<Rightarrow> 'b go) \<Rightarrow> 'b go" where
  "go_bind m f = (case m of Inl e \<Rightarrow> Inl e | Inr x \<Rightarrow> f x)"

named_theorems go_simps \<open>evaluation rules of the Go run-time model\<close>

lemma go_bind_simps [simp, go_simps]:
  "go_bind (Inl e) f = Inl e"
  "go_bind (Inr x) f = f x"
  by (simp_all add: go_bind_def)

lemma go_bind_eq_Inr [simp]: "go_bind m f = Inr y \<longleftrightarrow> (\<exists>x. m = Inr x \<and> f x = Inr y)"
  by (cases m) simp_all

lemma go_bind_eq_Inl: "go_bind m f = Inl e \<longleftrightarrow> m = Inl e \<or> (\<exists>x. m = Inr x \<and> f x = Inl e)"
  by (cases m) simp_all

section \<open>Zero-initialised byte arrays\<close>

text \<open>
  A fixed-size Go array starts zero-filled. The model keeps the bytes that were written and
  reads zero behind them: \<open>arr xs i\<close> is the Go expression \<open>a[i]\<close> for an index inside the
  array's size, and \<open>gslice xs i j\<close> lists the bytes of \<open>a[i:j]\<close>.
\<close>

definition arr :: "u8 list \<Rightarrow> nat \<Rightarrow> u8" where
  "arr xs i = (if i < length xs then xs ! i else 0)"

definition gslice :: "u8 list \<Rightarrow> nat \<Rightarrow> nat \<Rightarrow> u8 list" where
  "gslice xs i j = map (arr xs) [i..<j]"

lemma arr_Nil [simp]: "arr [] i = 0"
  by (simp add: arr_def)

lemma arr_Cons_0 [simp]: "arr (x # xs) 0 = x"
  by (simp add: arr_def)

lemma arr_Cons_Suc [simp]: "arr (x # xs) (Suc i) = arr xs i"
  by (simp add: arr_def)

lemma arr_Cons_numeral [simp]: "arr (x # xs) (numeral k) = arr xs (pred_numeral k)"
  by (simp add: arr_def numeral_eq_Suc)

lemma arr_append: "arr (xs @ ys) i = (if i < length xs then arr xs i else arr ys (i - length xs))"
  by (auto simp: arr_def nth_append)

lemma arr_append_left [simp]: "i < length xs \<Longrightarrow> arr (xs @ ys) i = arr xs i"
  by (simp add: arr_append)

lemma arr_append_right [simp]: "arr (xs @ ys) (length xs + i) = arr ys i"
  by (simp add: arr_append)

lemma length_gslice [simp]: "length (gslice xs i j) = j - i"
  by (simp add: gslice_def)

lemma nth_gslice [simp]: "k < j - i \<Longrightarrow> gslice xs i j ! k = arr xs (i + k)"
  by (simp add: gslice_def)

lemma arr_gslice: "k < j - i \<Longrightarrow> arr (gslice xs i j) k = arr xs (i + k)"
  by (subst arr_def) simp

lemma gslice_empty [simp]: "j \<le> i \<Longrightarrow> gslice xs i j = []"
  by (simp add: gslice_def)

lemma gslice_whole: "gslice xs 0 (length xs) = xs"
  by (rule nth_equalityI) (simp_all add: arr_def)

lemma gslice_prefix: "n \<le> length xs \<Longrightarrow> gslice xs 0 n = take n xs"
  by (rule nth_equalityI) (simp_all add: arr_def)

lemma gslice_take_drop: "j \<le> length xs \<Longrightarrow> gslice xs i j = take (j - i) (drop i xs)"
  by (rule nth_equalityI) (auto simp: arr_def)

lemma gslice_append_right [simp]:
  "gslice (xs @ ys) (length xs + i) (length xs + j) = gslice ys i j"
  by (rule nth_equalityI) (simp_all add: add.assoc)

section \<open>The little-endian codec\<close>

definition putUint16 :: "u16 \<Rightarrow> u8 list" where
  "putUint16 x = [ucast x, ucast (drop_bit 8 x)]"

definition putUint32 :: "u32 \<Rightarrow> u8 list" where
  "putUint32 x = [ucast x, ucast (drop_bit 8 x), ucast (drop_bit 16 x), ucast (drop_bit 24 x)]"

text \<open>\<open>getUint16 d i\<close> is \<open>binary.LittleEndian.Uint16(d[i:i+2])\<close>, and likewise for 32 bits.\<close>

definition getUint16 :: "u8 list \<Rightarrow> nat \<Rightarrow> u16" where
  "getUint16 d i = ucast (arr d i) OR push_bit 8 (ucast (arr d (i + 1)))"

definition getUint32 :: "u8 list \<Rightarrow> nat \<Rightarrow> u32" where
  "getUint32 d i =
     ucast (arr d i) OR push_bit 8 (ucast (arr d (i + 1)))
     OR push_bit 16 (ucast (arr d (i + 2))) OR push_bit 24 (ucast (arr d (i + 3)))"

lemma length_putUint16 [simp]: "length (putUint16 x) = 2"
  by (simp add: putUint16_def)

lemma length_putUint32 [simp]: "length (putUint32 x) = 4"
  by (simp add: putUint32_def)

lemma putUint16_max: "putUint16 0xffff = [0xff, 0xff]"
  by code_simp

lemma join_bytes16:
  "ucast (ucast x :: u8) OR push_bit 8 (ucast (ucast (drop_bit 8 x) :: u8)) = (x :: u16)"
  by (rule bit_word_eqI) (auto simp: bit_simps)

lemma join_bytes32:
  "ucast (ucast x :: u8) OR push_bit 8 (ucast (ucast (drop_bit 8 x) :: u8))
   OR push_bit 16 (ucast (ucast (drop_bit 16 x) :: u8))
   OR push_bit 24 (ucast (ucast (drop_bit 24 x) :: u8)) = (x :: u32)"
proof (rule bit_word_eqI)
  fix n assume "n < LENGTH(32)"
  then consider "n < 8" | "8 \<le> n" "n < 16" | "16 \<le> n" "n < 24" | "24 \<le> n" "n < 32"
    by fastforce
  then show "bit (ucast (ucast x :: u8) OR push_bit 8 (ucast (ucast (drop_bit 8 x) :: u8))
      OR push_bit 16 (ucast (ucast (drop_bit 16 x) :: u8))
      OR push_bit 24 (ucast (ucast (drop_bit 24 x) :: u8)) :: u32) n = bit x n"
    by cases (auto simp: bit_simps)
qed

lemma getUint16_put: "getUint16 (xs @ putUint16 x @ ys) (length xs) = x"
  using join_bytes16 [of x]
  by (simp add: getUint16_def putUint16_def arr_append)

lemma getUint32_put: "getUint32 (xs @ putUint32 x @ ys) (length xs) = x"
  using join_bytes32 [of x]
  by (simp add: getUint32_def putUint32_def arr_append numeral_eq_Suc)

lemma bit_times2 [simp]:
  "bit (w * 2) n \<longleftrightarrow> 0 < n \<and> n < LENGTH('a) \<and> bit w (n - 1)" for w :: "'a::len word"
  using bit_push_bit_iff [of 1 w n] by (auto simp: push_bit_eq_mult)

lemma unat_u8_less: "unat (x :: u8) < 256"
proof -
  have "unat x < 2 ^ LENGTH(8)" by (rule unsigned_less)
  then show ?thesis by simp
qed

lemma small_word_high_bits:
  fixes w :: "'a::len word"
  assumes "w < 2 ^ m" "m \<le> n" "n < LENGTH('a)"
  shows "\<not> bit w n"
proof -
  have "w = take_bit m w"
    using assms by (metis less_mask_eq take_bit_eq_mask and.commute le_less_trans)
  then show ?thesis
    using assms(2) by (metis bit_take_bit_iff leD)
qed

section \<open>Lists updated in place\<close>

lemma list_update_filter_count:
  assumes "i < length xs"
  shows "length (filter P (xs[i := y])) + (if P (xs ! i) then 1 else 0)
         = length (filter P xs) + (if P y then 1 else 0)"
proof -
  have xs: "xs = take i xs @ xs ! i # drop (Suc i) xs"
    using assms by (simp add: id_take_nth_drop)
  have upd: "xs[i := y] = take i xs @ y # drop (Suc i) xs"
    using assms by (simp add: upd_conv_take_nth_drop)
  show ?thesis
    by (subst (2) xs, subst upd) simp
qed

end
