(* ===== verification/Ipmi_Protodefs.thy ===== *)
theory Ipmi_Protodefs
  imports Go_Prelude
begin

text \<open>
  The protocol constants of \<open>ipmi_protodefs.go\<close> that the running program uses: the network
  functions, the commands of the four dispatched network functions, the completion codes it
  returns, the authentication types and the privilege levels. They are untyped Go constants
  used at type \<open>uint8\<close>. The collection \<open>protodefs\<close> evaluates them.
\<close>

named_theorems protodefs \<open>values of the protocol constants\<close>

section \<open>Network functions\<close>

definition CHASSIS_NETFN :: u8 where [protodefs]: "CHASSIS_NETFN = 0x00"
definition BRIDGE_NETFN :: u8 where [protodefs]: "BRIDGE_NETFN = 0x02"
definition SENSOR_EVENT_NETFN :: u8 where [protodefs]: "SENSOR_EVENT_NETFN = 0x04"
definition APP_NETFN :: u8 where [protodefs]: "APP_NETFN = 0x06"
definition FIRMWARE_NETFN :: u8 where [protodefs]: "FIRMWARE_NETFN = 0x08"
definition STORAGE_NETFN :: u8 where [protodefs]: "STORAGE_NETFN = 0x0a"
definition TRANSPORT_NETFN :: u8 where [protodefs]: "TRANSPORT_NETFN = 0x0c"
definition GROUP_EXTENSION_NETFN :: u8 where [protodefs]: "GROUP_EXTENSION_NETFN = 0x2c"
definition OEM_GROUP_NETFN :: u8 where [protodefs]: "OEM_GROUP_NETFN = 0x2e"

section \<open>Chassis commands\<close>

definition GET_CHASSIS_CAPABILITIES_CMD :: u8 where [protodefs]: "GET_CHASSIS_CAPABILITIES_CMD = 0x00"
definition CHASSIS_CONTROL_CMD :: u8 where [protodefs]: "CHASSIS_CONTROL_CMD = 0x02"
definition CHASSIS_RESET_CMD :: u8 where [protodefs]: "CHASSIS_RESET_CMD = 0x03"
definition CHASSIS_IDENTIFY_CMD :: u8 where [protodefs]: "CHASSIS_IDENTIFY_CMD = 0x04"
definition SET_CHASSIS_CAPABILITIES_CMD :: u8 where [protodefs]: "SET_CHASSIS_CAPABILITIES_CMD = 0x05"
definition SET_POWER_RESTORE_POLICY_CMD :: u8 where [protodefs]: "SET_POWER_RESTORE_POLICY_CMD = 0x06"
definition GET_SYSTEM_RESTART_CAUSE_CMD :: u8 where [protodefs]: "GET_SYSTEM_RESTART_CAUSE_CMD = 0x07"
definition SET_SYSTEM_BOOT_OPTIONS_CMD :: u8 where [protodefs]: "SET_SYSTEM_BOOT_OPTIONS_CMD = 0x08"
definition GET_SYSTEM_BOOT_OPTIONS_CMD :: u8 where [protodefs]: "GET_SYSTEM_BOOT_OPTIONS_CMD = 0x09"

section \<open>Sensor/Event commands\<close>

definition SET_EVENT_RECEIVER_CMD :: u8 where [protodefs]: "SET_EVENT_RECEIVER_CMD = 0x00"
definition GET_EVENT_RECEIVER_CMD :: u8 where [protodefs]: "GET_EVENT_RECEIVER_CMD = 0x01"
definition PLATFORM_EVENT_CMD :: u8 where [protodefs]: "PLATFORM_EVENT_CMD = 0x02"
definition GET_PEF_CAPABILITIES_CMD :: u8 where [protodefs]: "GET_PEF_CAPABILITIES_CMD = 0x10"
definition ARM_PEF_POSTPONE_TIMER_CMD :: u8 where [protodefs]: "ARM_PEF_POSTPONE_TIMER_CMD = 0x11"
definition SET_PEF_CONFIG_PARMS_CMD :: u8 where [protodefs]: "SET_PEF_CONFIG_PARMS_CMD = 0x12"
definition GET_PEF_CONFIG_PARMS_CMD :: u8 where [protodefs]: "GET_PEF_CONFIG_PARMS_CMD = 0x13"
definition SET_LAST_PROCESSED_EVENT_ID_CMD :: u8 where [protodefs]: "SET_LAST_PROCESSED_EVENT_ID_CMD = 0x14"
definition GET_LAST_PROCESSED_EVENT_ID_CMD :: u8 where [protodefs]: "GET_LAST_PROCESSED_EVENT_ID_CMD = 0x15"
definition ALERT_IMMEDIATE_CMD :: u8 where [protodefs]: "ALERT_IMMEDIATE_CMD = 0x16"
definition PET_ACKNOWLEDGE_CMD :: u8 where [protodefs]: "PET_ACKNOWLEDGE_CMD = 0x17"
definition GET_DEVICE_SDR_INFO_CMD :: u8 where [protodefs]: "GET_DEVICE_SDR_INFO_CMD = 0x20"
definition GET_DEVICE_SDR_CMD :: u8 where [protodefs]: "GET_DEVICE_SDR_CMD = 0x21"
definition RESERVE_DEVICE_SDR_REPOSITORY_CMD :: u8 where [protodefs]: "RESERVE_DEVICE_SDR_REPOSITORY_CMD = 0x22"
definition GET_SENSOR_READING_FACTORS_CMD :: u8 where [protodefs]: "GET_SENSOR_READING_FACTORS_CMD = 0x23"
definition SET_SENSOR_HYSTERESIS_CMD :: u8 where [protodefs]: "SET_SENSOR_HYSTERESIS_CMD = 0x24"
definition GET_SENSOR_HYSTERESIS_CMD :: u8 where [protodefs]: "GET_SENSOR_HYSTERESIS_CMD = 0x25"
definition SET_SENSOR_THRESHOLD_CMD :: u8 where [protodefs]: "SET_SENSOR_THRESHOLD_CMD = 0x26"
definition GET_SENSOR_THRESHOLD_CMD :: u8 where [protodefs]: "GET_SENSOR_THRESHOLD_CMD = 0x27"
definition SET_SENSOR_EVENT_ENABLE_CMD :: u8 where [protodefs]: "SET_SENSOR_EVENT_ENABLE_CMD = 0x28"
definition GET_SENSOR_EVENT_ENABLE_CMD :: u8 where [protodefs]: "GET_SENSOR_EVENT_ENABLE_CMD = 0x29"
definition REARM_SENSOR_EVENTS_CMD :: u8 where [protodefs]: "REARM_SENSOR_EVENTS_CMD = 0x2a"
definition GET_SENSOR_EVENT_STATUS_CMD :: u8 where [protodefs]: "GET_SENSOR_EVENT_STATUS_CMD = 0x2b"
definition GET_SENSOR_READING_CMD :: u8 where [protodefs]: "GET_SENSOR_READING_CMD = 0x2d"
definition SET_SENSOR_TYPE_CMD :: u8 where [protodefs]: "SET_SENSOR_TYPE_CMD = 0x2e"
definition GET_SENSOR_TYPE_CMD :: u8 where [protodefs]: "GET_SENSOR_TYPE_CMD = 0x2f"

section \<open>App commands\<close>

definition GET_DEVICE_ID_CMD :: u8 where [protodefs]: "GET_DEVICE_ID_CMD = 0x01"
definition COLD_RESET_CMD :: u8 where [protodefs]: "COLD_RESET_CMD = 0x02"
definition WARM_RESET_CMD :: u8 where [protodefs]: "WARM_RESET_CMD = 0x03"
definition GET_SELF_TEST_RESULTS_CMD :: u8 where [protodefs]: "GET_SELF_TEST_RESULTS_CMD = 0x04"
definition MANUFACTURING_TEST_ON_CMD :: u8 where [protodefs]: "MANUFACTURING_TEST_ON_CMD = 0x05"
definition SET_ACPI_POWER_STATE_CMD :: u8 where [protodefs]: "SET_ACPI_POWER_STATE_CMD = 0x06"
definition GET_ACPI_POWER_STATE_CMD :: u8 where [protodefs]: "GET_ACPI_POWER_STATE_CMD = 0x07"
definition GET_DEVICE_GUID_CMD :: u8 where [protodefs]: "GET_DEVICE_GUID_CMD = 0x08"
definition RESET_WATCHDOG_TIMER_CMD :: u8 where [protodefs]: "RESET_WATCHDOG_TIMER_CMD = 0x22"
definition SET_WATCHDOG_TIMER_CMD :: u8 where [protodefs]: "SET_WATCHDOG_TIMER_CMD = 0x24"
definition GET_WATCHDOG_TIMER_CMD :: u8 where [protodefs]: "GET_WATCHDOG_TIMER_CMD = 0x25"
definition SET_BMC_GLOBAL_ENABLES_CMD :: u8 where [protodefs]: "SET_BMC_GLOBAL_ENABLES_CMD = 0x2e"
definition GET_BMC_GLOBAL_ENABLES_CMD :: u8 where [protodefs]: "GET_BMC_GLOBAL_ENABLES_CMD = 0x2f"
definition CLEAR_MSG_FLAGS_CMD :: u8 where [protodefs]: "CLEAR_MSG_FLAGS_CMD = 0x30"
definition GET_MSG_FLAGS_CMD :: u8 where [protodefs]: "GET_MSG_FLAGS_CMD = 0x31"
definition ENABLE_MESSAGE_CHANNEL_RCV_CMD :: u8 where [protodefs]: "ENABLE_MESSAGE_CHANNEL_RCV_CMD = 0x32"
definition GET_MSG_CMD :: u8 where [protodefs]: "GET_MSG_CMD = 0x33"
definition SEND_MSG_CMD :: u8 where [protodefs]: "SEND_MSG_CMD = 0x34"
definition READ_EVENT_MSG_BUFFER_CMD :: u8 where [protodefs]: "READ_EVENT_MSG_BUFFER_CMD = 0x35"
definition GET_BT_INTERFACE_CAPABILITIES_CMD :: u8 where [protodefs]: "GET_BT_INTERFACE_CAPABILITIES_CMD = 0x36"
definition GET_SYSTEM_GUID_CMD :: u8 where [protodefs]: "GET_SYSTEM_GUID_CMD = 0x37"
definition GET_CHANNEL_AUTH_CAPABILITIES_CMD :: u8 where [protodefs]: "GET_CHANNEL_AUTH_CAPABILITIES_CMD = 0x38"
definition GET_SESSION_CHALLENGE_CMD :: u8 where [protodefs]: "GET_SESSION_CHALLENGE_CMD = 0x39"
definition ACTIVATE_SESSION_CMD :: u8 where [protodefs]: "ACTIVATE_SESSION_CMD = 0x3a"
definition SET_SESSION_PRIVILEGE_CMD :: u8 where [protodefs]: "SET_SESSION_PRIVILEGE_CMD = 0x3b"
definition CLOSE_SESSION_CMD :: u8 where [protodefs]: "CLOSE_SESSION_CMD = 0x3c"
definition GET_SESSION_INFO_CMD :: u8 where [protodefs]: "GET_SESSION_INFO_CMD = 0x3d"
definition GET_AUTHCODE_CMD :: u8 where [protodefs]: "GET_AUTHCODE_CMD = 0x3f"
definition SET_CHANNEL_ACCESS_CMD :: u8 where [protodefs]: "SET_CHANNEL_ACCESS_CMD = 0x40"
definition GET_CHANNEL_ACCESS_CMD :: u8 where [protodefs]: "GET_CHANNEL_ACCESS_CMD = 0x41"
definition GET_CHANNEL_INFO_CMD :: u8 where [protodefs]: "GET_CHANNEL_INFO_CMD = 0x42"
definition SET_USER_ACCESS_CMD :: u8 where [protodefs]: "SET_USER_ACCESS_CMD = 0x43"
definition GET_USER_ACCESS_CMD :: u8 where [protodefs]: "GET_USER_ACCESS_CMD = 0x44"
definition SET_USER_NAME_CMD :: u8 where [protodefs]: "SET_USER_NAME_CMD = 0x45"
definition GET_USER_NAME_CMD :: u8 where [protodefs]: "GET_USER_NAME_CMD = 0x46"
definition SET_USER_PASSWORD_CMD :: u8 where [protodefs]: "SET_USER_PASSWORD_CMD = 0x47"
definition ACTIVATE_PAYLOAD_CMD :: u8 where [protodefs]: "ACTIVATE_PAYLOAD_CMD = 0x48"
definition DEACTIVATE_PAYLOAD_CMD :: u8 where [protodefs]: "DEACTIVATE_PAYLOAD_CMD = 0x49"
definition GET_PAYLOAD_ACTIVATION_STATUS_CMD :: u8 where [protodefs]: "GET_PAYLOAD_ACTIVATION_STATUS_CMD = 0x4a"
definition GET_PAYLOAD_INSTANCE_INFO_CMD :: u8 where [protodefs]: "GET_PAYLOAD_INSTANCE_INFO_CMD = 0x4b"
definition SET_USER_PAYLOAD_ACCESS_CMD :: u8 where [protodefs]: "SET_USER_PAYLOAD_ACCESS_CMD = 0x4c"
definition GET_USER_PAYLOAD_ACCESS_CMD :: u8 where [protodefs]: "GET_USER_PAYLOAD_ACCESS_CMD = 0x4d"
definition GET_CHANNEL_PAYLOAD_SUPPORT_CMD :: u8 where [protodefs]: "GET_CHANNEL_PAYLOAD_SUPPORT_CMD = 0x4e"
definition GET_CHANNEL_PAYLOAD_VERSION_CMD :: u8 where [protodefs]: "GET_CHANNEL_PAYLOAD_VERSION_CMD = 0x4f"
definition GET_CHANNEL_OEM_PAYLOAD_INFO_CMD :: u8 where [protodefs]: "GET_CHANNEL_OEM_PAYLOAD_INFO_CMD = 0x50"
definition MASTER_READ_WRITE_CMD :: u8 where [protodefs]: "MASTER_READ_WRITE_CMD = 0x52"
definition GET_CHANNEL_CIPHER_SUITES_CMD :: u8 where [protodefs]: "GET_CHANNEL_CIPHER_SUITES_CMD = 0x54"
definition SUSPEND_RESUME_PAYLOAD_ENCRYPTION_CMD :: u8 where [protodefs]: "SUSPEND_RESUME_PAYLOAD_ENCRYPTION_CMD = 0x55"
definition SET_CHANNEL_SECURITY_KEY_CMD :: u8 where [protodefs]: "SET_CHANNEL_SECURITY_KEY_CMD = 0x56"
definition GET_SYSTEM_INTERFACE_CAPABILITIES_CMD :: u8 where [protodefs]: "GET_SYSTEM_INTERFACE_CAPABILITIES_CMD = 0x57"

section \<open>Storage commands\<close>

definition GET_FRU_INVENTORY_AREA_INFO_CMD :: u8 where [protodefs]: "GET_FRU_INVENTORY_AREA_INFO_CMD = 0x10"
definition READ_FRU_DATA_CMD :: u8 where [protodefs]: "READ_FRU_DATA_CMD = 0x11"
definition WRITE_FRU_DATA_CMD :: u8 where [protodefs]: "WRITE_FRU_DATA_CMD = 0x12"
definition GET_SDR_REPOSITORY_INFO_CMD :: u8 where [protodefs]: "GET_SDR_REPOSITORY_INFO_CMD = 0x20"
definition GET_SDR_REPOSITORY_ALLOC_INFO_CMD :: u8 where [protodefs]: "GET_SDR_REPOSITORY_ALLOC_INFO_CMD = 0x21"
definition RESERVE_SDR_REPOSITORY_CMD :: u8 where [protodefs]: "RESERVE_SDR_REPOSITORY_CMD = 0x22"
definition GET_SDR_CMD :: u8 where [protodefs]: "GET_SDR_CMD = 0x23"
definition ADD_SDR_CMD :: u8 where [protodefs]: "ADD_SDR_CMD = 0x24"
definition PARTIAL_ADD_SDR_CMD :: u8 where [protodefs]: "PARTIAL_ADD_SDR_CMD = 0x25"
definition DELETE_SDR_CMD :: u8 where [protodefs]: "DELETE_SDR_CMD = 0x26"
definition CLEAR_SDR_REPOSITORY_CMD :: u8 where [protodefs]: "CLEAR_SDR_REPOSITORY_CMD = 0x27"
definition GET_SDR_REPOSITORY_TIME_CMD :: u8 where [protodefs]: "GET_SDR_REPOSITORY_TIME_CMD = 0x28"
definition SET_SDR_REPOSITORY_TIME_CMD :: u8 where [protodefs]: "SET_SDR_REPOSITORY_TIME_CMD = 0x29"
definition ENTER_SDR_REPOSITORY_UPDATE_CMD :: u8 where [protodefs]: "ENTER_SDR_REPOSITORY_UPDATE_CMD = 0x2a"
definition EXIT_SDR_REPOSITORY_UPDATE_CMD :: u8 where [protodefs]: "EXIT_SDR_REPOSITORY_UPDATE_CMD = 0x2b"
definition RUN_INITIALIZATION_AGENT_CMD :: u8 where [protodefs]: "RUN_INITIALIZATION_AGENT_CMD = 0x2c"
definition GET_SEL_INFO_CMD :: u8 where [protodefs]: "GET_SEL_INFO_CMD = 0x40"
definition GET_SEL_ALLOCATION_INFO_CMD :: u8 where [protodefs]: "GET_SEL_ALLOCATION_INFO_CMD = 0x41"
definition RESERVE_SEL_CMD :: u8 where [protodefs]: "RESERVE_SEL_CMD = 0x42"
definition GET_SEL_ENTRY_CMD :: u8 where [protodefs]: "GET_SEL_ENTRY_CMD = 0x43"
definition ADD_SEL_ENTRY_CMD :: u8 where [protodefs]: "ADD_SEL_ENTRY_CMD = 0x44"
definition PARTIAL_ADD_SEL_ENTRY_CMD :: u8 where [protodefs]: "PARTIAL_ADD_SEL_ENTRY_CMD = 0x45"
definition DELETE_SEL_ENTRY_CMD :: u8 where [protodefs]: "DELETE_SEL_ENTRY_CMD = 0x46"
definition CLEAR_SEL_CMD :: u8 where [protodefs]: "CLEAR_SEL_CMD = 0x47"
definition GET_SEL_TIME_CMD :: u8 where [protodefs]: "GET_SEL_TIME_CMD = 0x48"
definition SET_SEL_TIME_CMD :: u8 where [protodefs]: "SET_SEL_TIME_CMD = 0x49"
definition GET_AUXILIARY_LOG_STATUS_CMD :: u8 where [protodefs]: "GET_AUXILIARY_LOG_STATUS_CMD = 0x5a"
definition SET_AUXILIARY_LOG_STATUS_CMD :: u8 where [protodefs]: "SET_AUXILIARY_LOG_STATUS_CMD = 0x5b"

section \<open>Completion codes\<close>

definition IPMI_OUT_OF_SPACE_CC :: u8 where [protodefs]: "IPMI_OUT_OF_SPACE_CC = 0xc4"
definition IPMI_INVALID_RESERVATION_CC :: u8 where [protodefs]: "IPMI_INVALID_RESERVATION_CC = 0xc5"
definition IPMI_REQUEST_DATA_LENGTH_INVALID_CC :: u8 where [protodefs]: "IPMI_REQUEST_DATA_LENGTH_INVALID_CC = 0xc7"
definition IPMI_PARAMETER_OUT_OF_RANGE_CC :: u8 where [protodefs]: "IPMI_PARAMETER_OUT_OF_RANGE_CC = 0xc9"
definition IPMI_CANNOT_RETURN_REQ_LENGTH_CC :: u8 where [protodefs]: "IPMI_CANNOT_RETURN_REQ_LENGTH_CC = 0xca"
definition IPMI_NOT_PRESENT_CC :: u8 where [protodefs]: "IPMI_NOT_PRESENT_CC = 0xcb"
definition IPMI_INVALID_DATA_FIELD_CC :: u8 where [protodefs]: "IPMI_INVALID_DATA_FIELD_CC = 0xcc"
definition IPMI_INSUFFICIENT_PRIVILEGE_CC :: u8 where [protodefs]: "IPMI_INSUFFICIENT_PRIVILEGE_CC = 0xd4"
definition IPMI_UNKNOWN_ERR_CC :: u8 where [protodefs]: "IPMI_UNKNOWN_ERR_CC = 0xff"

section \<open>Authentication types\<close>

definition IPMI_AUTHTYPE_NONE :: u8 where [protodefs]: "IPMI_AUTHTYPE_NONE = 0"
definition IPMI_AUTHTYPE_MD2 :: u8 where [protodefs]: "IPMI_AUTHTYPE_MD2 = 1"
definition IPMI_AUTHTYPE_MD5 :: u8 where [protodefs]: "IPMI_AUTHTYPE_MD5 = 2"
definition IPMI_AUTHTYPE_STRAIGHT :: u8 where [protodefs]: "IPMI_AUTHTYPE_STRAIGHT = 4"
definition IPMI_AUTHTYPE_OEM :: u8 where [protodefs]: "IPMI_AUTHTYPE_OEM = 5"
definition IPMI_AUTHTYPE_RMCP_PLUS :: u8 where [protodefs]: "IPMI_AUTHTYPE_RMCP_PLUS = 6"

section \<open>Privilege levels\<close>

definition IPMI_PRIVILEGE_CALLBACK :: u8 where [protodefs]: "IPMI_PRIVILEGE_CALLBACK = 1"
definition IPMI_PRIVILEGE_USER :: u8 where [protodefs]: "IPMI_PRIVILEGE_USER = 2"
definition IPMI_PRIVILEGE_OPERATOR :: u8 where [protodefs]: "IPMI_PRIVILEGE_OPERATOR = 3"
definition IPMI_PRIVILEGE_ADMIN :: u8 where [protodefs]: "IPMI_PRIVILEGE_ADMIN = 4"
definition IPMI_PRIVILEGE_OEM :: u8 where [protodefs]: "IPMI_PRIVILEGE_OEM = 5"

end
