(* ===== verification/Ipmi_State.thy ===== *)
theory Ipmi_State
  imports Ipmi_Protodefs
begin

text \<open>
  The data of the program: the structs of \<open>ipmi_internal_proto.go\<close>, \<open>bmc.go\<close>,
  \<open>ipmi_internal_sensor.go\<close> and \<open>ipmi_client.go\<close> as records (each field keeps its Go name
  behind a prefix that names the struct), their zero values, and the global variables
  \<open>lanserv\<close>, \<open>mc\<close>, \<open>chassisCardNum\<close> and \<open>clientCtx\<close> as one record \<open>world\<close>.

  Three conventions. A \<open>net.UDPAddr\<close> is an abstract number. A fixed byte array holds the
  bytes written so far and reads zero behind them (\<open>arr\<close>). A linked list of SDRs is the list
  of its nodes in \<open>next\<close> order, whose last element is what \<open>tailSdr\<close> points to; the theory
  \<open>Sdr_Chain\<close> proves that the pointer code implements this list. Fields that no code reads or
  writes (\<open>lanParms\<close>, \<open>lanAddr\<close>, \<open>lanAddrSet\<close>, \<open>port\<close>, \<open>srcAddr\<close>, \<open>srcLen\<close>, \<open>oemData\<close>,
  \<open>rmcpp\<close>, \<open>iana\<close>) and the socket handles are left out.
\<close>

section \<open>LAN server: users and sessions\<close>

definition MAX_USERS :: nat where [protodefs]: "MAX_USERS = 64"
definition MAX_SESSIONS :: nat where [protodefs]: "MAX_SESSIONS = 16"
definition SESSION_BITS_REQ :: nat where [protodefs]: "SESSION_BITS_REQ = 6"
definition SESSION_MASK :: u32 where [protodefs]: "SESSION_MASK = 0x3f"
definition USER_BITS_REQ :: nat where [protodefs]: "USER_BITS_REQ = 6"
definition USER_MASK :: u32 where [protodefs]: "USER_MASK = 0x3f"

record userT =
  u_valid :: bool
  u_linkAuth :: u8
  u_cbOnly :: u8
  u_username :: "u8 list"
  u_pw :: "u8 list"
  u_privilege :: u8
  u_maxPriv :: u8
  u_maxSessions :: u8
  u_currSessions :: u8
  u_allowedAuths :: u16
  u_idx :: u8

definition zero_user :: userT where
  "zero_user = \<lparr>u_valid = False, u_linkAuth = 0, u_cbOnly = 0, u_username = [], u_pw = [],
     u_privilege = 0, u_maxPriv = 0, u_maxSessions = 0, u_currSessions = 0, u_allowedAuths = 0,
     u_idx = 0\<rparr>"

record sessionT =
  s_active :: bool
  s_inStartup :: bool
  s_rmcpplus :: bool
  s_handle :: u32
  s_recvSeq :: u32
  s_xmitSeq :: u32
  s_sid :: u32
  s_userid :: u8
  s_timeLeft :: u32
  s_authtype :: u8
  s_unauthRecvSeq :: u32
  s_unauthXmitSeq :: u32
  s_remSid :: u32
  s_auth :: u8
  s_conf :: u8
  s_integ :: "64 word"
  s_priv :: u8
  s_maxPriv :: u8

definition zero_session :: sessionT where
  "zero_session = \<lparr>s_active = False, s_inStartup = False, s_rmcpplus = False, s_handle = 0,
     s_recvSeq = 0, s_xmitSeq = 0, s_sid = 0, s_userid = 0, s_timeLeft = 0, s_authtype = 0,
     s_unauthRecvSeq = 0, s_unauthXmitSeq = 0, s_remSid = 0, s_auth = 0, s_conf = 0,
     s_integ = 0, s_priv = 0, s_maxPriv = 0\<rparr>"

record lanservT =
  l_chanNum :: u8
  l_chanPrivLimit :: u8
  l_chanPrivAllowedAuths :: "u8 list"
  l_activeSessions :: u8
  l_nextChallSeq :: u32
  l_sidSeq :: u32
  l_defaultSessionTimeout :: u32
  l_users :: "userT list"
  l_sessions :: "sessionT list"

definition zero_lanserv :: lanservT where
  "zero_lanserv = \<lparr>l_chanNum = 0, l_chanPrivLimit = 0,
     l_chanPrivAllowedAuths = replicate 5 0, l_activeSessions = 0, l_nextChallSeq = 0,
     l_sidSeq = 0, l_defaultSessionTimeout = 0,
     l_users = replicate (MAX_USERS + 1) zero_user,
     l_sessions = replicate (MAX_SESSIONS + 1) zero_session\<rparr>"

section \<open>Messages\<close>

record rmcp_hdrT =
  h_version :: u8
  h_reserved :: u8
  h_rmcpSeq :: u8
  h_class :: u8

record rmcp_sessionT =
  rs_authType :: u8
  rs_seq :: u32
  rs_sid :: u32
  rs_authCode :: "u8 list"
  rs_payloadLgth :: u8

record rmcp_messageT =
  rm_rsAddr :: u8
  rm_netfn :: u8
  rm_rsLun :: u8
  rm_rqAddr :: u8
  rm_rqSeq :: u8
  rm_rqLun :: u8
  rm_cmd :: u8

text \<open>
  \<open>dataStart\<close> only moves from 0 in constant steps that add up to at most 36 and \<open>dataLen\<close> is
  at most 4000, so both (Go \<open>uint\<close>) are natural numbers.
\<close>

record msgT =
  m_channel :: u8
  m_sid :: u32
  m_authtype :: u8
  m_hdr :: rmcp_hdrT
  m_session :: rmcp_sessionT
  m_message :: rmcp_messageT
  m_remoteAddr :: nat
  m_data :: "u8 list"
  m_dataStart :: nat
  m_dataLen :: nat

definition zero_hdr :: rmcp_hdrT where
  "zero_hdr = \<lparr>h_version = 0, h_reserved = 0, h_rmcpSeq = 0, h_class = 0\<rparr>"

definition zero_rmcp_session :: rmcp_sessionT where
  "zero_rmcp_session =
     \<lparr>rs_authType = 0, rs_seq = 0, rs_sid = 0, rs_authCode = replicate 16 0, rs_payloadLgth = 0\<rparr>"

definition zero_rmcp_message :: rmcp_messageT where
  "zero_rmcp_message = \<lparr>rm_rsAddr = 0, rm_netfn = 0, rm_rsLun = 0, rm_rqAddr = 0, rm_rqSeq = 0,
     rm_rqLun = 0, rm_cmd = 0\<rparr>"

record rspMsgDataT =
  p_netfn :: u8
  p_cmd :: u8
  p_dataLen :: u16
  p_data :: "u8 list"

section \<open>Management controller: SDR repository, event log, sensors\<close>

definition MAX_MSG_DATA :: nat where [protodefs]: "MAX_MSG_DATA = 4000"
definition MAX_MSG_RETURN_DATA :: nat where [protodefs]: "MAX_MSG_RETURN_DATA = 1000"
definition MAX_SDR_LENGTH :: u16 where [protodefs]: "MAX_SDR_LENGTH = 261"
definition MAX_NUM_SDRS :: u16 where [protodefs]: "MAX_NUM_SDRS = 1024"
definition MAX_RETRIES :: nat where [protodefs]: "MAX_RETRIES = 3"
definition IPMI_SDR_RESERVE_SDR_SUPPORTED :: u8 where
  [protodefs]: "IPMI_SDR_RESERVE_SDR_SUPPORTED = 2"
definition IPMI_DEVID_SDR_REPOSITORY_DEV :: u8 where
  [protodefs]: "IPMI_DEVID_SDR_REPOSITORY_DEV = 2"
definition IPMI_DEVID_SENSOR_DEV :: u8 where
  [protodefs]: "IPMI_DEVID_SENSOR_DEV = 1"

record sdrT =
  d_recordId :: u16
  d_lun :: u8
  d_sensNum :: u8
  d_length :: u8
  d_enabled :: bool
  d_eventsEnabled :: bool
  d_scanningEnabled :: bool
  d_eventStatus :: u16
  d_value :: u8
  d_data :: "u8 list"

definition zero_sdr :: sdrT where
  "zero_sdr = \<lparr>d_recordId = 0, d_lun = 0, d_sensNum = 0, d_length = 0, d_enabled = False,
     d_eventsEnabled = False, d_scanningEnabled = False, d_eventStatus = 0, d_value = 0,
     d_data = replicate 64 0\<rparr>"

record sdrsT =
  r_reservation :: u16
  r_sdrCount :: u16
  r_maxSdrCount :: u16
  r_sensorCount :: u16
  r_lastAddTime :: u32
  r_lastEraseTime :: u32
  r_timeOffset :: "64 word"
  r_flags :: u8
  r_nextFreeEntryId :: u16
  r_sdrsLength :: u32
  r_sdrs :: "sdrT list"

definition zero_sdrs :: sdrsT where
  "zero_sdrs = \<lparr>r_reservation = 0, r_sdrCount = 0, r_maxSdrCount = 0, r_sensorCount = 0,
     r_lastAddTime = 0, r_lastEraseTime = 0, r_timeOffset = 0, r_flags = 0,
     r_nextFreeEntryId = 0, r_sdrsLength = 0, r_sdrs = []\<rparr>"

record selEntryT =
  e_recordId :: u16
  e_data :: "u8 list"

definition zero_selEntry :: selEntryT where
  "zero_selEntry = \<lparr>e_recordId = 0, e_data = replicate 16 0\<rparr>"

record selT =
  sl_entries :: "selEntryT list"
  sl_count :: u16
  sl_maxCount :: u16
  sl_lastAddTime :: u32
  sl_lastEraseTime :: u32
  sl_flags :: u8
  sl_reservation :: u16
  sl_nextEntry :: u16
  sl_lastEntry :: u16

definition zero_sel :: selT where
  "zero_sel = \<lparr>sl_entries = [], sl_count = 0, sl_maxCount = 0, sl_lastAddTime = 0,
     sl_lastEraseTime = 0, sl_flags = 0, sl_reservation = 0, sl_nextEntry = 0, sl_lastEntry = 0\<rparr>"

record sensorT =
  n_num :: u8
  n_lun :: u8
  n_scanningEnabled :: bool
  n_eventsEnabled :: bool
  n_enabled :: bool
  n_mc :: u8
  n_sensorType :: u8
  n_eventReadingCode :: u8
  n_value :: u8
  n_hysteresisSupport :: u8
  n_positiveHysteresis :: u8
  n_negativeHysteresis :: u8
  n_thresholdSupport :: u8
  n_thresholdSupported :: u16
  n_thresholds :: "u8 list"
  n_eventSupport :: u8
  n_eventSupported :: "u16 list"
  n_eventEnabled :: "u16 list"
  n_eventStatus :: u16

definition zero_sensor :: sensorT where
  "zero_sensor = \<lparr>n_num = 0, n_lun = 0, n_scanningEnabled = False, n_eventsEnabled = False,
     n_enabled = False, n_mc = 0, n_sensorType = 0, n_eventReadingCode = 0, n_value = 0,
     n_hysteresisSupport = 0, n_positiveHysteresis = 0, n_negativeHysteresis = 0,
     n_thresholdSupport = 0, n_thresholdSupported = 0, n_thresholds = replicate 6 0,
     n_eventSupport = 0, n_eventSupported = [0, 0], n_eventEnabled = [0, 0],
     n_eventStatus = 0\<rparr>"

text \<open>
  The table \<open>sensors [4][255]*sensorT\<close> maps a lun below 4 and a number below 255 to a sensor
  or nil. Every use in the program is a test, a read or a write of one cell.
\<close>

record mcT =
  mc_bmcIpmb :: u8
  mc_deviceId :: u8
  mc_hasDeviceSdrs :: bool
  mc_deviceRevision :: u8
  mc_majorFwRev :: u8
  mc_minorFwRev :: u8
  mc_deviceSupport :: u8
  mc_mfgId :: "u8 list"
  mc_productId :: "u8 list"
  mc_sel :: selT
  mc_mainSdrs :: sdrsT
  mc_sensors :: "nat \<Rightarrow> nat \<Rightarrow> sensorT option"

definition zero_mc :: mcT where
  "zero_mc = \<lparr>mc_bmcIpmb = 0, mc_deviceId = 0, mc_hasDeviceSdrs = False,
     mc_deviceRevision = 0, mc_majorFwRev = 0, mc_minorFwRev = 0, mc_deviceSupport = 0,
     mc_mfgId = [0, 0, 0], mc_productId = [0, 0], mc_sel = zero_sel, mc_mainSdrs = zero_sdrs,
     mc_sensors = (\<lambda>lun num. None)\<rparr>"

section \<open>Client context and the whole state\<close>

record clientContextT =
  c_rqSeq :: u8
  c_challengeStr :: "u8 list"
  c_tempSessionId :: u32
  c_sessionSeq :: u32
  c_sessionId :: u32
  c_maxPrivLevel :: u8
  c_privLevel :: u8

definition init_clientCtx :: clientContextT where
  "init_clientCtx = \<lparr>c_rqSeq = 1, c_challengeStr = replicate 16 0, c_tempSessionId = 0,
     c_sessionSeq = 0, c_sessionId = 0, c_maxPrivLevel = 0, c_privLevel = 0\<rparr>"

text \<open>
  \<open>w_sent\<close> is the sequence of datagrams written so far on the server's socket, each with its
  destination. What a line card writes as a client goes over its own connection to the management
  module (\<open>mc.mmConn\<close>) and is not in it: there the network is a parameter of the operations.
\<close>

record world =
  w_lan :: lanservT
  w_mc :: mcT
  w_card :: u8
  w_ctx :: clientContextT
  w_sent :: "(nat \<times> u8 list) list"

section \<open>Initialisation of the LAN server\<close>

definition user1 :: userT where
  "user1 = zero_user\<lparr>u_idx := 1, u_username := replicate 16 0,
     u_pw := [0x74, 0x65, 0x73, 0x74] @ replicate 12 0,
     u_maxPriv := IPMI_PRIVILEGE_USER,
     u_allowedAuths := push_bit (unat IPMI_AUTHTYPE_NONE) 1 OR push_bit (unat IPMI_AUTHTYPE_STRAIGHT) 1,
     u_valid := True\<rparr>"

definition user2 :: userT where
  "user2 = zero_user\<lparr>u_idx := 2,
     u_username := [0x69, 0x70, 0x6d, 0x69, 0x75, 0x73, 0x72] @ replicate 9 0,
     u_pw := [0x74, 0x65, 0x73, 0x74] @ replicate 12 0,
     u_maxPriv := IPMI_PRIVILEGE_ADMIN,
     u_allowedAuths := push_bit (unat IPMI_AUTHTYPE_NONE) 1,
     u_valid := True\<rparr>"

fun set_handles :: "nat \<Rightarrow> nat \<Rightarrow> sessionT list \<Rightarrow> sessionT list" where
  "set_handles 0 i ss = ss"
| "set_handles (Suc k) i ss =
     set_handles k (Suc i) (ss[i := (ss ! i)\<lparr>s_handle := of_nat i\<rparr>])"

definition ipmiLanInit :: "lanservT \<Rightarrow> lanservT" where
  "ipmiLanInit l = l\<lparr>
     l_users := (l_users l)[1 := user1, 2 := user2],
     l_chanNum := 1,
     l_defaultSessionTimeout := 30,
     l_sidSeq := 0,
     l_nextChallSeq := 0,
     l_chanPrivLimit := IPMI_PRIVILEGE_ADMIN,
     l_chanPrivAllowedAuths := (l_chanPrivAllowedAuths l)
       [unat IPMI_PRIVILEGE_CALLBACK - 1 := push_bit (unat IPMI_AUTHTYPE_MD5) 1,
        unat IPMI_PRIVILEGE_USER - 1 := push_bit (unat IPMI_AUTHTYPE_NONE) 1,
        unat IPMI_PRIVILEGE_OPERATOR - 1 := push_bit (unat IPMI_AUTHTYPE_NONE) 1,
        unat IPMI_PRIVILEGE_ADMIN - 1 := push_bit (unat IPMI_AUTHTYPE_STRAIGHT) 1,
        unat IPMI_PRIVILEGE_OEM - 1 := push_bit (unat IPMI_AUTHTYPE_OEM) 1],
     l_sessions := set_handles MAX_SESSIONS 1 (l_sessions l)\<rparr>"

text \<open>The package initialiser runs \<open>ipmiLanInit\<close> on the zero value of \<open>lanserv\<close>.\<close>

definition init_lanserv :: lanservT where
  "init_lanserv = ipmiLanInit zero_lanserv"

lemma users_init:
  "l_users init_lanserv = [zero_user, user1, user2] @ replicate 62 zero_user"
  by (simp add: init_lanserv_def ipmiLanInit_def zero_lanserv_def protodefs numeral_eq_Suc)

lemma sessions_init:
  "l_sessions init_lanserv
   = zero_session # map (\<lambda>i. zero_session\<lparr>s_handle := of_nat i\<rparr>) [1..<17]"
  by (simp add: init_lanserv_def ipmiLanInit_def zero_lanserv_def protodefs numeral_eq_Suc upt_rec)

lemma init_lanserv_fields [simp]:
  "l_chanNum init_lanserv = 1"
  "l_chanPrivLimit init_lanserv = 4"
  "l_activeSessions init_lanserv = 0"
  "l_sidSeq init_lanserv = 0"
  "l_nextChallSeq init_lanserv = 0"
  "l_defaultSessionTimeout init_lanserv = 30"
  by (simp_all add: init_lanserv_def ipmiLanInit_def zero_lanserv_def protodefs)

lemma user1_fields [simp]:
  "u_idx user1 = 1" "u_maxPriv user1 = 2" "u_privilege user1 = 0" "u_valid user1"
  "u_allowedAuths user1 = 0x11" "u_username user1 = replicate 16 0"
  by (simp_all add: user1_def zero_user_def protodefs)

lemma user2_fields [simp]:
  "u_idx user2 = 2" "u_maxPriv user2 = 4" "u_privilege user2 = 0" "u_valid user2"
  "u_allowedAuths user2 = 1"
  "u_username user2 = [0x69, 0x70, 0x6d, 0x69, 0x75, 0x73, 0x72] @ replicate 9 0"
  by (simp_all add: user2_def zero_user_def protodefs)

end
