(* ===== verification/Session_Table.thy ===== *)
theory Session_Table
  imports Ipmi_State
begin

text \<open>
  The session table of \<open>lanserv\<close>: looking up users and sessions (\<open>findUser\<close>, \<open>sidToSession\<close>,
  \<open>findFreeSession\<close>), writing one slot, and the table's well-formedness. A Go \<open>*sessionT\<close> is
  nil (\<open>None\<close>), a pointer into the table (\<open>Slot i\<close>: writing through it changes the table) or a
  pointer to a local variable of the handler (\<open>Local s\<close>: nothing else sees it).
  The locale \<open>session_registry\<close> is the contract the session handlers rely on: a finite map from
  session ids to sessions behind \<open>lookup\<close>.
\<close>

datatype session_ref = Slot nat | Local sessionT

section \<open>Lookups\<close>

text \<open>The loop over the users stops at the first match; it yields the index of the user.\<close>

definition findUser :: "u8 list \<Rightarrow> bool \<Rightarrow> u8 \<Rightarrow> lanservT \<Rightarrow> nat option" where
  "findUser username nameOnlyLookup priv l =
     List.find (\<lambda>i. username = u_username (l_users l ! i) \<and>
                    (nameOnlyLookup \<or> u_privilege (l_users l ! i) = priv))
       [1..<MAX_USERS + 1]"

definition sidToSession :: "u32 \<Rightarrow> lanservT \<Rightarrow> nat option" where
  "sidToSession sid l =
     (if sid AND 1 = 1 then None
      else let idx = drop_bit 1 sid AND SESSION_MASK in
        if idx > of_nat MAX_SESSIONS then None
        else let session = l_sessions l ! unat idx in
          if \<not> s_active session then None
          else if s_sid session \<noteq> sid then None
          else Some (unat idx))"

definition findFreeSession :: "lanservT \<Rightarrow> nat option" where
  "findFreeSession l = List.find (\<lambda>i. \<not> s_active (l_sessions l ! i)) [1..<MAX_SESSIONS + 1]"

definition put_session :: "nat \<Rightarrow> sessionT \<Rightarrow> lanservT \<Rightarrow> lanservT" where
  "put_session i s l = l\<lparr>l_sessions := (l_sessions l)[i := s]\<rparr>"

lemma put_session_fields [simp]:
  "l_chanNum (put_session i s l) = l_chanNum l"
  "l_chanPrivLimit (put_session i s l) = l_chanPrivLimit l"
  "l_activeSessions (put_session i s l) = l_activeSessions l"
  "l_nextChallSeq (put_session i s l) = l_nextChallSeq l"
  "l_sidSeq (put_session i s l) = l_sidSeq l"
  "l_defaultSessionTimeout (put_session i s l) = l_defaultSessionTimeout l"
  "l_users (put_session i s l) = l_users l"
  "l_sessions (put_session i s l) = (l_sessions l)[i := s]"
  by (simp_all add: put_session_def)

text \<open>The session id that \<open>activateSession\<close> builds from a sequence number and a slot's handle.\<close>

definition mk_sid :: "u32 \<Rightarrow> u32 \<Rightarrow> u32" where
  "mk_sid sidSeq handle = push_bit (SESSION_BITS_REQ + 1) sidSeq OR push_bit 1 handle"

text \<open>The temporary session id of a challenge, from the challenge counter and the user's index.\<close>

definition mk_temp_sid :: "u32 \<Rightarrow> u8 \<Rightarrow> u32" where
  "mk_temp_sid challSeq idx = push_bit (USER_BITS_REQ + 1) challSeq OR push_bit 1 (ucast idx) OR 1"

section \<open>Bit layout of session ids\<close>

definition sid_index :: "u32 \<Rightarrow> u32" where
  "sid_index sid = drop_bit 1 sid AND SESSION_MASK"

lemma mask6: "(0x3f :: 'a::len word) = mask 6"
  by (simp add: mask_eq_exp_minus_1)

lemma mk_sid_even: "mk_sid q h AND 1 = 0"
  by (rule bit_word_eqI) (auto simp: mk_sid_def protodefs bit_simps)

lemma sid_index_mk_sid:
  assumes "h < 64"
  shows "sid_index (mk_sid q h) = h"
proof (rule bit_word_eqI)
  fix n assume n: "n < LENGTH(32)"
  show "bit (sid_index (mk_sid q h)) n = bit h n"
  proof (cases "n < 6")
    case True
    then show ?thesis
      using n by (auto simp: sid_index_def mk_sid_def protodefs mask6 bit_simps)
  next
    case False
    then have "\<not> bit h n"
      using small_word_high_bits [of h 6 n] assms n by simp
    with False show ?thesis
      by (simp add: sid_index_def protodefs mask6 bit_simps)
  qed
qed

lemma temp_sid_odd: "mk_temp_sid q u AND 1 = 1"
  by (rule bit_word_eqI) (auto simp: mk_temp_sid_def protodefs bit_simps)

lemma temp_sid_user:
  assumes "u < 64"
  shows "drop_bit 1 (mk_temp_sid q u) AND USER_MASK = ucast u"
proof (rule bit_word_eqI)
  fix n assume n: "n < LENGTH(32)"
  show "bit (drop_bit 1 (mk_temp_sid q u) AND USER_MASK) n = bit (ucast u :: u32) n"
  proof (cases "n < 6")
    case True
    then show ?thesis
      using n by (auto simp: mk_temp_sid_def protodefs mask6 bit_simps)
  next
    case False
    then have "\<not> bit (ucast u :: u32) n"
      using small_word_high_bits [of u 6 n] assms
      by (cases "n < 8") (auto simp: bit_simps dest: bit_imp_le_length)
    with False show ?thesis
      by (simp add: protodefs mask6 bit_simps)
  qed
qed

section \<open>The registry contract\<close>

text \<open>
  What the session handlers rely on: in a well-formed table a session id is found exactly at the
  one valid slot that holds it, and writing a slot changes that slot only. From these laws
  follow the map-like facts about opening, updating and closing a session.
\<close>

locale session_registry =
  fixes wf :: "'l \<Rightarrow> bool"
    and valid :: "nat \<Rightarrow> bool"
    and fits :: "nat \<Rightarrow> sessionT \<Rightarrow> bool"
    and get :: "'l \<Rightarrow> nat \<Rightarrow> sessionT"
    and put :: "nat \<Rightarrow> sessionT \<Rightarrow> 'l \<Rightarrow> 'l"
    and slot_of :: "u32 \<Rightarrow> 'l \<Rightarrow> nat option"
  assumes slot_of_iff:
      "wf l \<Longrightarrow> slot_of sid l = Some i \<longleftrightarrow> valid i \<and> s_active (get l i) \<and> s_sid (get l i) = sid"
    and get_put: "wf l \<Longrightarrow> valid i \<Longrightarrow> get (put i s l) j = (if j = i then s else get l j)"
    and wf_put: "wf l \<Longrightarrow> valid i \<Longrightarrow> fits i s \<Longrightarrow> wf (put i s l)"
begin

lemma sid_unique:
  assumes "wf l" "valid i" "valid j" "s_active (get l i)" "s_active (get l j)"
    "s_sid (get l i) = s_sid (get l j)"
  shows "i = j"
  using slot_of_iff [OF assms(1), of "s_sid (get l j)" i] slot_of_iff [OF assms(1), of "s_sid (get l j)" j]
    assms by simp

lemma slot_of_put_same:
  assumes "wf l" "valid i" "fits i s" "s_active s"
  shows "slot_of (s_sid s) (put i s l) = Some i"
  using assms by (simp add: slot_of_iff wf_put get_put)

lemma slot_of_put_other:
  assumes "wf l" "valid i" "fits i s" "s_active s \<Longrightarrow> sid \<noteq> s_sid s"
    "s_active (get l i) \<Longrightarrow> sid \<noteq> s_sid (get l i)"
  shows "slot_of sid (put i s l) = slot_of sid l"
proof -
  have "slot_of sid (put i s l) = Some j \<longleftrightarrow> slot_of sid l = Some j" for j
    using assms by (auto simp: slot_of_iff wf_put get_put)
  then show ?thesis by (metis not_None_eq)
qed

lemma slot_of_closed:
  assumes "wf l" "slot_of sid l = Some i" "fits i s" "\<not> s_active s"
  shows "slot_of sid (put i s l) = None"
proof (rule ccontr)
  assume "slot_of sid (put i s l) \<noteq> None"
  then obtain j where j: "slot_of sid (put i s l) = Some j" by blast
  have i: "valid i" "s_active (get l i)" "s_sid (get l i) = sid"
    using assms(1,2) by (simp_all add: slot_of_iff)
  from j have "j \<noteq> i" "valid j" "s_active (get l j)" "s_sid (get l j) = sid"
    using assms i by (auto simp: slot_of_iff wf_put get_put split: if_splits)
  with i show False
    using sid_unique [OF assms(1), of i j] by simp
qed

end

section \<open>Well-formedness of the table\<close>

definition session_fits :: "nat \<Rightarrow> sessionT \<Rightarrow> bool" where
  "session_fits i s \<longleftrightarrow> s_handle s = of_nat i \<and>
     (s_active s \<longrightarrow> s_sid s AND 1 = 0 \<and> sid_index (s_sid s) = of_nat i)"

definition valid_slot :: "nat \<Rightarrow> bool" where
  "valid_slot i \<longleftrightarrow> 1 \<le> i \<and> i \<le> MAX_SESSIONS"

definition table_wf :: "lanservT \<Rightarrow> bool" where
  "table_wf l \<longleftrightarrow> length (l_sessions l) = MAX_SESSIONS + 1 \<and> \<not> s_active (l_sessions l ! 0) \<and>
     (\<forall>i \<in> {1..MAX_SESSIONS}. session_fits i (l_sessions l ! i))"

lemma table_wfD:
  assumes "table_wf l"
  shows "length (l_sessions l) = 17" "\<not> s_active (l_sessions l ! 0)"
    "valid_slot i \<Longrightarrow> session_fits i (l_sessions l ! i)"
  using assms by (auto simp: table_wf_def valid_slot_def protodefs)

lemma of_nat_slot_eq: "i \<le> 16 \<Longrightarrow> j \<le> 16 \<Longrightarrow> of_nat i = (of_nat j :: u32) \<longleftrightarrow> i = j"
  by (simp add: word_of_nat_eq_iff take_bit_nat_eq_self)

lemma sidToSession_SomeD:
  assumes "sidToSession sid l = Some i"
  shows "i = unat (sid_index sid)" "i \<le> 16" "s_active (l_sessions l ! i)"
    "s_sid (l_sessions l ! i) = sid"
  using assms
  by (auto simp: sidToSession_def sid_index_def Let_def protodefs not_less word_le_nat_alt
      split: if_splits)

lemma sidToSession_iff:
  assumes "table_wf l"
  shows "sidToSession sid l = Some i \<longleftrightarrow>
    valid_slot i \<and> s_active (l_sessions l ! i) \<and> s_sid (l_sessions l ! i) = sid"
proof
  assume *: "sidToSession sid l = Some i"
  note D = sidToSession_SomeD [OF *]
  have "i \<noteq> 0"
    using D(3) table_wfD(2) [OF assms] by (cases i) auto
  with D show "valid_slot i \<and> s_active (l_sessions l ! i) \<and> s_sid (l_sessions l ! i) = sid"
    by (simp add: valid_slot_def protodefs)
next
  assume *: "valid_slot i \<and> s_active (l_sessions l ! i) \<and> s_sid (l_sessions l ! i) = sid"
  then have "session_fits i (l_sessions l ! i)"
    using table_wfD(3) [OF assms] by blast
  with * have even: "sid AND 1 = 0" and idx: "drop_bit 1 sid AND SESSION_MASK = of_nat i"
    by (auto simp: session_fits_def sid_index_def)
  have i: "unat (of_nat i :: u32) = i" "i \<le> 16"
    using * by (simp_all add: valid_slot_def protodefs unat_of_nat)
  show "sidToSession sid l = Some i"
    using * even i
    by (simp add: sidToSession_def Let_def idx [unfolded One_nat_def] MAX_SESSIONS_def word_less_nat_alt)
qed

interpretation sreg: session_registry table_wf valid_slot session_fits
  "\<lambda>l i. l_sessions l ! i" put_session sidToSession
proof unfold_locales
  fix l sid i assume "table_wf l"
  then show "sidToSession sid l = Some i \<longleftrightarrow>
      valid_slot i \<and> s_active (l_sessions l ! i) \<and> s_sid (l_sessions l ! i) = sid"
    by (rule sidToSession_iff)
next
  fix l i s j assume "table_wf l" "valid_slot i"
  then show "l_sessions (put_session i s l) ! j = (if j = i then s else l_sessions l ! j)"
    using table_wfD(1) [of l] by (auto simp: valid_slot_def protodefs)
next
  fix l i s assume wf: "table_wf l" "valid_slot i" "session_fits i s"
  then have "length (l_sessions l) = 17" by (simp add: table_wfD)
  with wf show "table_wf (put_session i s l)"
    by (auto simp: table_wf_def valid_slot_def protodefs nth_list_update)
qed

lemma findFreeSession_SomeD:
  assumes "findFreeSession l = Some i"
  shows "valid_slot i" "\<not> s_active (l_sessions l ! i)"
    "\<And>j. valid_slot j \<Longrightarrow> j < i \<Longrightarrow> s_active (l_sessions l ! j)"
proof -
  from assms obtain k where k: "k < 16" "i = Suc k" "\<not> s_active (l_sessions l ! i)"
    "\<forall>j<k. s_active (l_sessions l ! Suc j)"
    by (auto simp: findFreeSession_def find_Some_iff protodefs nth_upt simp del: upt_Suc)
  then show "valid_slot i" "\<not> s_active (l_sessions l ! i)"
    by (simp_all add: valid_slot_def protodefs)
  fix j assume "valid_slot j" "j < i"
  with k show "s_active (l_sessions l ! j)"
    by (cases j) (auto simp: valid_slot_def)
qed

lemma findFreeSession_None_iff:
  "findFreeSession l = None \<longleftrightarrow> (\<forall>i. valid_slot i \<longrightarrow> s_active (l_sessions l ! i))"
  by (auto simp: findFreeSession_def find_None_iff valid_slot_def protodefs simp del: upt_Suc)

section \<open>The invariant of the LAN server\<close>

text \<open>
  Each active session belongs to one of the two configured users, is not RMCP+, was granted at
  most that user's maximal privilege, and runs at USER level or between USER and its granted
  maximum. \<open>activeSessions\<close> counts the active slots.
\<close>

definition session_ok :: "lanservT \<Rightarrow> sessionT \<Rightarrow> bool" where
  "session_ok l s \<longleftrightarrow> \<not> s_rmcpplus s \<and> s_userid s \<in> {1, 2} \<and>
     s_maxPriv s \<le> u_maxPriv (l_users l ! unat (s_userid s)) \<and>
     (s_priv s = IPMI_PRIVILEGE_USER \<or> IPMI_PRIVILEGE_USER \<le> s_priv s \<and> s_priv s \<le> s_maxPriv s)"

definition active_count :: "lanservT \<Rightarrow> nat" where
  "active_count l = length (filter s_active (l_sessions l))"

definition lan_inv :: "lanservT \<Rightarrow> bool" where
  "lan_inv l \<longleftrightarrow> table_wf l \<and> unat (l_activeSessions l) = active_count l \<and>
     l_users l = l_users init_lanserv \<and> l_chanNum l = 1 \<and> l_chanPrivLimit l = IPMI_PRIVILEGE_ADMIN \<and>
     l_defaultSessionTimeout l = 30 \<and>
     (\<forall>i \<in> {1..MAX_SESSIONS}. s_active (l_sessions l ! i) \<longrightarrow> session_ok l (l_sessions l ! i))"

lemma lan_invD:
  assumes "lan_inv l"
  shows "table_wf l" "unat (l_activeSessions l) = active_count l"
    "l_users l = l_users init_lanserv" "l_chanNum l = 1" "l_chanPrivLimit l = IPMI_PRIVILEGE_ADMIN"
    "l_defaultSessionTimeout l = 30"
    "valid_slot i \<Longrightarrow> s_active (l_sessions l ! i) \<Longrightarrow> session_ok l (l_sessions l ! i)"
  using assms by (auto simp: lan_inv_def valid_slot_def)

lemma lan_inv_init: "lan_inv init_lanserv"
proof -
  have inactive: "\<not> s_active (l_sessions init_lanserv ! i)" if "i < 17" for i
    using that by (cases i) (simp_all add: sessions_init zero_session_def nth_upt del: upt_Suc)
  have handle: "s_handle (l_sessions init_lanserv ! i) = of_nat i" if "1 \<le> i" "i < 17" for i
    using that by (cases i) (simp_all add: sessions_init zero_session_def nth_upt del: upt_Suc)
  have "length (l_sessions init_lanserv) = 17"
    by (simp add: sessions_init del: upt_Suc)
  then have "filter s_active (l_sessions init_lanserv) = []"
    using inactive by (auto simp: filter_empty_conv in_set_conv_nth)
  with inactive handle show ?thesis
    using \<open>length (l_sessions init_lanserv) = 17\<close>
    by (auto simp: lan_inv_def table_wf_def session_fits_def active_count_def protodefs)
qed

lemma active_count_put:
  assumes "i < length (l_sessions l)"
  shows "active_count (put_session i s l) + (if s_active (l_sessions l ! i) then 1 else 0)
         = active_count l + (if s_active s then 1 else 0)"
  using list_update_filter_count [OF assms, of s_active s] by (simp add: active_count_def)

lemma active_count_le:
  assumes "table_wf l"
  shows "active_count l \<le> 16"
proof -
  from table_wfD(1,2) [OF assms] obtain t where t: "l_sessions l = l_sessions l ! 0 # t" "length t = 16"
    by (cases "l_sessions l") auto
  then have "active_count l = length (filter s_active t)"
    using table_wfD(2) [OF assms] unfolding active_count_def by (metis filter.simps(2))
  with t show ?thesis by (metis length_filter_le)
qed

lemma free_slot_exists:
  assumes "lan_inv l" "unat (l_activeSessions l) < 16"
  shows "findFreeSession l \<noteq> None"
proof
  assume "findFreeSession l = None"
  then have all: "s_active (l_sessions l ! Suc k)" if "k < 16" for k
    using that by (auto simp: findFreeSession_None_iff valid_slot_def protodefs)
  have wf: "table_wf l" using assms(1) by (rule lan_invD)
  from table_wfD(1,2) [OF wf] obtain s t where t: "l_sessions l = s # t" "length t = 16"
    by (cases "l_sessions l") auto
  then have "\<forall>x \<in> set t. s_active x"
    using all by (auto simp: in_set_conv_nth)
  then have "active_count l = 16"
    using t table_wfD(2) [OF wf] by (simp add: active_count_def)
  with assms lan_invD(2) [OF assms(1)] show False by simp
qed

text \<open>Writing a slot with a well-formed session keeps the invariant if the count follows.\<close>

lemma lan_inv_put:
  assumes inv: "lan_inv l" and i: "valid_slot i" and fits: "session_fits i s"
    and ok: "s_active s \<Longrightarrow> session_ok l s"
    and count: "unat n + (if s_active (l_sessions l ! i) then 1 else 0)
                = unat (l_activeSessions l) + (if s_active s then 1 else 0)"
  shows "lan_inv (put_session i s l\<lparr>l_activeSessions := n\<rparr>)"
proof -
  have wf: "table_wf l" using inv by (rule lan_invD)
  have len: "i < length (l_sessions l)"
    using i table_wfD(1) [OF wf] by (simp add: valid_slot_def protodefs)
  have "table_wf (put_session i s l)"
    using wf i fits by (rule sreg.wf_put)
  then have "table_wf (put_session i s l\<lparr>l_activeSessions := n\<rparr>)"
    by (simp add: table_wf_def)
  moreover have "unat n = active_count (put_session i s l)"
    using active_count_put [OF len, of s] count lan_invD(2) [OF inv] by (auto split: if_splits)
  moreover have "session_ok l (l_sessions (put_session i s l) ! j)"
    if "valid_slot j" "s_active (l_sessions (put_session i s l) ! j)" for j
    using that ok lan_invD(7) [OF inv, of j] len by (cases "j = i") auto
  moreover have "session_ok (put_session i s l\<lparr>l_activeSessions := n\<rparr>) x = session_ok l x" for x
    by (simp add: session_ok_def)
  ultimately show ?thesis
    using inv by (auto simp: lan_inv_def active_count_def valid_slot_def)
qed

lemma lan_inv_update:
  assumes inv: "lan_inv l" and i: "valid_slot i" "s_active (l_sessions l ! i)"
    and s: "s_handle s = s_handle (l_sessions l ! i)" "s_sid s = s_sid (l_sessions l ! i)" "s_active s"
    and ok: "session_ok l s"
  shows "lan_inv (put_session i s l)"
proof -
  have "session_fits i s"
    using table_wfD(3) [OF lan_invD(1) [OF inv] i(1)] i s by (simp add: session_fits_def)
  then have "lan_inv (put_session i s l\<lparr>l_activeSessions := l_activeSessions l\<rparr>)"
    using inv i ok s by (intro lan_inv_put) auto
  moreover have "put_session i s l\<lparr>l_activeSessions := l_activeSessions l\<rparr> = put_session i s l"
    by (simp add: put_session_def)
  ultimately show ?thesis by simp
qed

section \<open>The table as a map of grants\<close>

text \<open>
  What the table promises its users, without slots, counters and sequence numbers: which session
  ids are open, and for each its user, its current and its maximal privilege.
\<close>

record grant =
  gr_user :: u8
  gr_priv :: u8
  gr_maxPriv :: u8

definition grant_of :: "sessionT \<Rightarrow> grant" where
  "grant_of s = \<lparr>gr_user = s_userid s, gr_priv = s_priv s, gr_maxPriv = s_maxPriv s\<rparr>"

definition grants :: "lanservT \<Rightarrow> u32 \<Rightarrow> grant option" where
  "grants l sid = map_option (\<lambda>i. grant_of (l_sessions l ! i)) (sidToSession sid l)"

lemma grants_sessions:
  assumes "\<And>j. s_active (l_sessions l' ! j) = s_active (l_sessions l ! j)"
    and "\<And>j. s_sid (l_sessions l' ! j) = s_sid (l_sessions l ! j)"
    and "\<And>j. grant_of (l_sessions l' ! j) = grant_of (l_sessions l ! j)"
  shows "grants l' = grants l"
  by (rule ext) (simp add: grants_def sidToSession_def Let_def assms)

lemma grants_cong: "l_sessions l' = l_sessions l \<Longrightarrow> grants l' = grants l"
  by (rule grants_sessions) simp_all

lemma grants_put:
  assumes wf: "table_wf l" and i: "valid_slot i" and s: "session_fits i s" "s_active s"
    and old: "s_active (l_sessions l ! i) \<Longrightarrow> s_sid (l_sessions l ! i) = s_sid s"
  shows "grants (put_session i s l) = (grants l)(s_sid s \<mapsto> grant_of s)"
proof
  fix sid
  have get: "l_sessions (put_session i s l) ! j = (if j = i then s else l_sessions l ! j)" for j
    using wf i by (rule sreg.get_put)
  show "grants (put_session i s l) sid = ((grants l)(s_sid s \<mapsto> grant_of s)) sid"
  proof (cases "sid = s_sid s")
    case True
    then show ?thesis
      using sreg.slot_of_put_same [OF wf i s] get [of i] by (simp add: grants_def del: put_session_fields)
  next
    case False
    then have look: "sidToSession sid (put_session i s l) = sidToSession sid l"
      using old by (intro sreg.slot_of_put_other [OF wf i s(1)]) auto
    have "j \<noteq> i" if "sidToSession sid l = Some j" for j
      using sidToSession_SomeD [OF that] old False by auto
    with False show ?thesis
      by (cases "sidToSession sid l") (simp_all add: grants_def look get del: put_session_fields)
  qed
qed

lemma grants_close:
  assumes wf: "table_wf l" and t: "sidToSession sid l = Some t" and s: "session_fits t s" "\<not> s_active s"
  shows "grants (put_session t s l) = (grants l)(sid := None)"
proof
  fix sid'
  have v: "valid_slot t" "s_active (l_sessions l ! t)" "s_sid (l_sessions l ! t) = sid"
    using t by (simp_all add: sidToSession_iff [OF wf])
  show "grants (put_session t s l) sid' = ((grants l)(sid := None)) sid'"
  proof (cases "sid' = sid")
    case True
    then show ?thesis
      using sreg.slot_of_closed [OF wf t s] by (simp add: grants_def)
  next
    case False
    then have look: "sidToSession sid' (put_session t s l) = sidToSession sid' l"
      using s v(3) by (intro sreg.slot_of_put_other [OF wf v(1) s(1)]) auto
    have get: "l_sessions (put_session t s l) ! j = (if j = t then s else l_sessions l ! j)" for j
      using wf v(1) by (rule sreg.get_put)
    have "j \<noteq> t" if "sidToSession sid' l = Some j" for j
      using sidToSession_SomeD(4) [OF that] v(3) False by auto
    with False show ?thesis
      by (cases "sidToSession sid' l") (simp_all add: grants_def look get del: put_session_fields)
  qed
qed

lemma grants_count:
  assumes wf: "table_wf l"
  shows "card (dom (grants l)) \<le> active_count l"
proof -
  let ?A = "{i. i < length (l_sessions l) \<and> s_active (l_sessions l ! i)}"
  have "dom (grants l) \<subseteq> (\<lambda>i. s_sid (l_sessions l ! i)) ` ?A"
  proof
    fix sid assume "sid \<in> dom (grants l)"
    then obtain i where i: "sidToSession sid l = Some i" by (auto simp: grants_def)
    then have "i \<in> ?A" using sidToSession_SomeD [OF i] table_wfD(1) [OF wf] by simp
    with i show "sid \<in> (\<lambda>i. s_sid (l_sessions l ! i)) ` ?A"
      using sidToSession_SomeD(4) [OF i] by blast
  qed
  then have "card (dom (grants l)) \<le> card ((\<lambda>i. s_sid (l_sessions l ! i)) ` ?A)"
    by (rule card_mono [rotated]) simp
  also have "\<dots> \<le> card ?A"
    by (rule card_image_le) simp
  finally show ?thesis
    by (simp add: active_count_def length_filter_conv_card)
qed

end
