(* ===== verification/Ipmi_Wire.thy ===== *)
theory Ipmi_Wire
  imports Session_Table
begin

text \<open>
  The wire format: the two's complement checksum (\<open>ipmiChecksum\<close>), the parser of incoming RMCP
  datagrams (\<open>ipmiParseMsg\<close>, \<open>ipmiParseRmcpMsg\<close>, \<open>asfPing\<close>) and the response builder
  (\<open>returnRsp\<close>, \<open>returnErr\<close>, \<open>returnRspData\<close>). The lemmas say that every packet built carries
  valid checksums and a fixed layout, and what a response changes in the state.
\<close>

section \<open>Checksum\<close>

text \<open>
  The checksum is computed on \<open>int8\<close>; its two's complement arithmetic is that of bytes modulo
  256, so the model uses the byte with the same bits.
\<close>

fun checksum_loop :: "u8 list \<Rightarrow> nat \<Rightarrow> nat \<Rightarrow> u8 \<Rightarrow> u8" where
  "checksum_loop data dataIdx 0 csum = csum"
| "checksum_loop data dataIdx (Suc n) csum =
     checksum_loop data (Suc dataIdx) n (csum + arr data dataIdx)"

definition ipmiChecksum :: "u8 list \<Rightarrow> nat \<Rightarrow> u8 \<Rightarrow> u8" where
  "ipmiChecksum data n start = - checksum_loop data 0 n start"

lemma checksum_loop_sum:
  "checksum_loop data i n csum = csum + sum_list (gslice data i (i + n))"
proof (induction n arbitrary: i csum)
  case 0
  then show ?case by simp
next
  case (Suc n)
  have "gslice data i (i + Suc n) = arr data i # gslice data (Suc i) (Suc i + n)"
    by (simp add: gslice_def upt_conv_Cons del: upt_Suc)
  with Suc show ?case by (simp add: algebra_simps)
qed

lemma ipmiChecksum_sum:
  "ipmiChecksum data (length data) start = - (start + sum_list data)"
  by (simp add: ipmiChecksum_def checksum_loop_sum gslice_whole)

text \<open>A block is valid on the wire when its bytes, checksum included, sum to zero modulo 256.\<close>

definition wire_valid :: "u8 list \<Rightarrow> bool" where
  "wire_valid block \<longleftrightarrow> sum_list block = 0"

lemma wire_valid_checksum:
  "wire_valid (block @ [ipmiChecksum block (length block) 0])"
  by (simp add: wire_valid_def ipmiChecksum_sum)

section \<open>Parsing\<close>

definition ipmiParseRmcpMsg :: "msgT \<Rightarrow> msgT" where
  "ipmiParseRmcpMsg msg =
     (let d = m_data msg; dataStart = m_dataStart msg;
          msg = msg\<lparr>m_hdr := (m_hdr msg)\<lparr>h_version := arr d dataStart,
                                       h_rmcpSeq := arr d (dataStart + 2),
                                       h_class := arr d (dataStart + 3)\<rparr>,
                   m_dataStart := dataStart + 4\<rparr>;
          dataStart = m_dataStart msg
      in if h_rmcpSeq (m_hdr msg) \<noteq> 0xff then msg
         else
           let authType = arr d dataStart;
               sid = getUint32 d (dataStart + 5);
               msg = msg\<lparr>m_session := (m_session msg)\<lparr>rs_authType := authType,
                                       rs_seq := getUint32 d (dataStart + 1), rs_sid := sid\<rparr>,
                         m_authtype := authType, m_sid := sid\<rparr>;
               msg = (if authType \<noteq> IPMI_AUTHTYPE_NONE
                      then msg\<lparr>m_session := (m_session msg)\<lparr>
                                 rs_authCode := gslice d (dataStart + 9) (dataStart + 25),
                                 rs_payloadLgth := arr d (dataStart + 25)\<rparr>,
                               m_dataStart := dataStart + 26\<rparr>
                      else msg\<lparr>m_dataStart := dataStart + 10\<rparr>);
               dataStart = m_dataStart msg
           in msg\<lparr>m_message := \<lparr>rm_rsAddr = arr d dataStart,
                                rm_netfn = drop_bit 2 (arr d (dataStart + 1)),
                                rm_rsLun = arr d (dataStart + 1) AND 3,
                                rm_rqAddr = arr d (dataStart + 3),
                                rm_rqSeq = drop_bit 2 (arr d (dataStart + 4)),
                                rm_rqLun = arr d (dataStart + 4) AND 3,
                                rm_cmd = arr d (dataStart + 5)\<rparr>,
                  m_dataStart := dataStart + 6\<rparr>)"

definition send_to :: "nat \<Rightarrow> u8 list \<Rightarrow> world \<Rightarrow> world" where
  "send_to addr pkt w = w\<lparr>w_sent := w_sent w @ [(addr, pkt)]\<rparr>"

definition ASF_IANA :: u32 where [protodefs]: "ASF_IANA = 4542"

definition asfPing :: "msgT \<Rightarrow> world \<Rightarrow> world" where
  "asfPing msg w =
     (let d = m_data msg; dataStart = m_dataStart msg in
      if m_dataLen msg < 12 then w
      else if getUint32 d (dataStart + 4) \<noteq> ASF_IANA then w
      else if arr d (dataStart + 8) \<noteq> 0x80 then w
      else send_to (m_remoteAddr msg)
        ([6, 0, 0xff, 6] @ putUint32 ASF_IANA @ [0x40, arr d (dataStart + 9), 0, 16]
         @ putUint32 ASF_IANA @ putUint32 0 @ [0x81, 0, 0, 0, 0, 0, 0, 0]) w)"

definition ipmiParseMsg :: "msgT \<Rightarrow> world \<Rightarrow> msgT \<times> world" where
  "ipmiParseMsg msg w =
     (let d = m_data msg; dataStart = m_dataStart msg in
      if arr d (dataStart + 3) = 6 then (msg, asfPing msg w)
      else if arr d (dataStart + 3) = 7 then
        if arr d (dataStart + 4) = IPMI_AUTHTYPE_RMCP_PLUS then (msg, w)
        else (ipmiParseRmcpMsg msg, w)
      else (msg, w))"

text \<open>
  The message of one received datagram: a fresh \<open>msgT\<close> whose 4000-byte buffer holds the packet.
\<close>

definition received :: "nat \<Rightarrow> u8 list \<Rightarrow> msgT" where
  "received remoteAddr pkt = \<lparr>m_channel = 0, m_sid = 0, m_authtype = 0, m_hdr = zero_hdr,
     m_session = zero_rmcp_session, m_message = zero_rmcp_message, m_remoteAddr = remoteAddr,
     m_data = take MAX_MSG_DATA pkt, m_dataStart = 0, m_dataLen = length (take MAX_MSG_DATA pkt)\<rparr>"

section \<open>Responses\<close>

text \<open>
  The environment of a request: the clock (\<open>uint32(time.Now().Unix())\<close>) and the number that
  \<open>rand.New(rand.NewSource(99)).Uint32()\<close> yields (a constant of Go's generator, which the
  model leaves open). A handler may panic and otherwise yields the next state.
\<close>

record goenv =
  g_now :: u32
  g_rand99 :: u32

type_synonym handler = "goenv \<Rightarrow> msgT \<Rightarrow> world \<Rightarrow> world go"

fun deref :: "session_ref \<Rightarrow> lanservT \<Rightarrow> sessionT" where
  "deref (Slot i) l = l_sessions l ! i"
| "deref (Local s) l = s"

fun write_ref :: "session_ref \<Rightarrow> sessionT \<Rightarrow> lanservT \<Rightarrow> lanservT" where
  "write_ref (Slot i) s l = put_session i s l"
| "write_ref (Local _) s l = l"

definition dummy_session :: sessionT where
  "dummy_session = zero_session\<lparr>s_active := True, s_authtype := IPMI_AUTHTYPE_NONE,
     s_xmitSeq := 0, s_sid := 0\<rparr>"

text \<open>The session a response is sent on: \<open>None\<close> where \<open>returnRsp\<close> returns without sending.\<close>

definition rsp_session :: "msgT \<Rightarrow> session_ref option \<Rightarrow> lanservT \<Rightarrow> session_ref option" where
  "rsp_session msg session l =
     (let session = (case session of None \<Rightarrow> map_option Slot (sidToSession (m_sid msg) l)
                                   | Some r \<Rightarrow> Some r)
      in if (case session of None \<Rightarrow> False | Some r \<Rightarrow> s_rmcpplus (deref r l)) then None
         else if m_sid msg = 0 then Some (Local dummy_session)
         else session)"

definition next_xmitSeq :: "u32 \<Rightarrow> u32" where
  "next_xmitSeq q = (let q = q + 1 in if q = 0 then q + 1 else q)"

definition rsp_payload :: "rspMsgDataT \<Rightarrow> u8 list" where
  "rsp_payload rsp = gslice (p_data rsp) 0 (unat (p_dataLen rsp))"

definition rsp_header :: "sessionT \<Rightarrow> rspMsgDataT \<Rightarrow> u8 list" where
  "rsp_header session rsp =
     [6, 0, 0xff, 7, s_authtype session]
     @ putUint32 (s_xmitSeq session) @ putUint32 (s_sid session)
     @ (if s_authtype session \<noteq> IPMI_AUTHTYPE_NONE then replicate 16 0 else [])
     @ [ucast (p_dataLen rsp + 7)]"

definition rsp_message :: "msgT \<Rightarrow> rspMsgDataT \<Rightarrow> u8 list" where
  "rsp_message msg rsp =
     (let m = m_message msg;
          addr = [rm_rqAddr m, push_bit 2 (p_netfn rsp) OR rm_rqLun m];
          body = [rm_rsAddr m, push_bit 2 (rm_rqSeq m) OR rm_rsLun m, p_cmd rsp];
          payload = rsp_payload rsp;
          csum = - ipmiChecksum body 3 0
      in addr @ [ipmiChecksum addr 2 0] @ body @ payload
         @ [ipmiChecksum payload (unat (p_dataLen rsp)) csum])"

definition rsp_packet :: "msgT \<Rightarrow> sessionT \<Rightarrow> rspMsgDataT \<Rightarrow> u8 list" where
  "rsp_packet msg session rsp = rsp_header session rsp @ rsp_message msg rsp"

text \<open>
  The packet is assembled in an array of 1000 bytes: the payload is copied behind
  \<open>length header + 6\<close> bytes and followed by the checksum, so an oversized payload panics.
\<close>

definition returnRsp :: "msgT \<Rightarrow> session_ref option \<Rightarrow> rspMsgDataT \<Rightarrow> world \<Rightarrow> world go" where
  "returnRsp msg session rsp w =
     (case rsp_session msg session (w_lan w) of
        None \<Rightarrow> Inr w
      | Some r \<Rightarrow>
          let s = deref r (w_lan w);
              dcur = length (rsp_header s rsp) + 6
          in if unat (p_dataLen rsp) > MAX_MSG_RETURN_DATA \<or>
                dcur + unat (p_dataLen rsp) > MAX_MSG_RETURN_DATA then Inl SliceBoundsOutOfRange
             else if dcur + unat (p_dataLen rsp) = MAX_MSG_RETURN_DATA then Inl IndexOutOfRange
             else Inr (send_to (m_remoteAddr msg) (rsp_packet msg s rsp)
                    (w\<lparr>w_lan := write_ref r (s\<lparr>s_xmitSeq := next_xmitSeq (s_xmitSeq s)\<rparr>) (w_lan w)\<rparr>)))"

definition returnErr :: "msgT \<Rightarrow> session_ref option \<Rightarrow> u8 \<Rightarrow> world \<Rightarrow> world go" where
  "returnErr msg session err w =
     returnRsp msg session
       \<lparr>p_netfn = rm_netfn (m_message msg) OR 1, p_cmd = rm_cmd (m_message msg),
        p_dataLen = 1, p_data = [err]\<rparr> w"

definition returnRspData ::
  "msgT \<Rightarrow> session_ref option \<Rightarrow> u8 list \<Rightarrow> nat \<Rightarrow> world \<Rightarrow> world go" where
  "returnRspData msg session data dataLength w =
     returnRsp msg session
       \<lparr>p_netfn = rm_netfn (m_message msg) OR 1, p_cmd = rm_cmd (m_message msg),
        p_dataLen = of_nat dataLength, p_data = gslice data 0 dataLength\<rparr> w"

section \<open>What a response is and what it changes\<close>

lemma gslice_gslice: "gslice (gslice d i (i + n)) 0 n = gslice d i (i + n)"
  using gslice_whole [of "gslice d i (i + n)"] by simp

lemma rsp_payload_data:
  "n < 65536 \<Longrightarrow> rsp_payload \<lparr>p_netfn = f, p_cmd = c, p_dataLen = of_nat n, p_data = gslice d 0 n\<rparr>
     = gslice d 0 n"
  using gslice_gslice [of d 0 n] by (simp add: rsp_payload_def unat_of_nat)

lemma rsp_payload_list:
  "length d = n \<Longrightarrow> n < 65536 \<Longrightarrow>
   rsp_payload \<lparr>p_netfn = f, p_cmd = c, p_dataLen = of_nat n, p_data = gslice d 0 n\<rparr> = d"
  by (auto simp: rsp_payload_def unat_of_nat gslice_whole)

lemma length_rsp_payload [simp]: "length (rsp_payload rsp) = unat (p_dataLen rsp)"
  by (simp add: rsp_payload_def)

lemma length_rsp_header:
  "length (rsp_header s rsp) = (if s_authtype s \<noteq> IPMI_AUTHTYPE_NONE then 30 else 14)"
  by (simp add: rsp_header_def)

lemma length_rsp_message: "length (rsp_message msg rsp) = unat (p_dataLen rsp) + 7"
  by (simp add: rsp_message_def Let_def)

lemma last_rsp_header: "last (rsp_header s rsp) = ucast (p_dataLen rsp + 7)"
  by (simp add: rsp_header_def)

lemma ipmiChecksum_2: "ipmiChecksum [a, b] 2 x = - (x + a + b)"
  using ipmiChecksum_sum [of "[a, b]" x] by (simp add: numeral_2_eq_2 algebra_simps)

lemma ipmiChecksum_3: "ipmiChecksum [a, b, c] 3 x = - (x + a + b + c)"
  using ipmiChecksum_sum [of "[a, b, c]" x] by (simp add: numeral_3_eq_3 algebra_simps)

text \<open>Both checksummed blocks of every response are valid on the wire.\<close>

lemma rsp_message_blocks:
  obtains b1 b2 where "rsp_message msg rsp = b1 @ b2" "length b1 = 3" "wire_valid b1" "wire_valid b2"
proof
  let ?m = "m_message msg"
  let ?addr = "[rm_rqAddr ?m, push_bit 2 (p_netfn rsp) OR rm_rqLun ?m]"
  let ?body = "[rm_rsAddr ?m, push_bit 2 (rm_rqSeq ?m) OR rm_rsLun ?m, p_cmd rsp]"
  let ?b1 = "?addr @ [ipmiChecksum ?addr 2 0]"
  let ?b2 = "?body @ rsp_payload rsp
    @ [ipmiChecksum (rsp_payload rsp) (unat (p_dataLen rsp)) (- ipmiChecksum ?body 3 0)]"
  show "rsp_message msg rsp = ?b1 @ ?b2"
    by (simp add: rsp_message_def Let_def)
  show "length ?b1 = 3" by simp
  show "wire_valid ?b1"
    by (simp add: wire_valid_def ipmiChecksum_2)
  show "wire_valid ?b2"
    using ipmiChecksum_sum [of "rsp_payload rsp"]
    by (simp add: wire_valid_def ipmiChecksum_3)
qed

text \<open>A response of at most 900 bytes is never oversized.\<close>

lemma returnRsp_small:
  assumes "unat (p_dataLen rsp) \<le> 900"
  shows "returnRsp msg session rsp w =
    (case rsp_session msg session (w_lan w) of
       None \<Rightarrow> Inr w
     | Some r \<Rightarrow> let s = deref r (w_lan w) in
         Inr (send_to (m_remoteAddr msg) (rsp_packet msg s rsp)
           (w\<lparr>w_lan := write_ref r (s\<lparr>s_xmitSeq := next_xmitSeq (s_xmitSeq s)\<rparr>) (w_lan w)\<rparr>)))"
  using assms
  by (auto simp: returnRsp_def Let_def length_rsp_header MAX_MSG_RETURN_DATA_def split: option.split)

lemma returnErr_total: "\<exists>w'. returnErr msg session err w = Inr w'"
  unfolding returnErr_def by (subst returnRsp_small) (auto simp: Let_def split: option.split)

lemma returnRspData_total:
  "n \<le> 900 \<Longrightarrow> \<exists>w'. returnRspData msg session data n w = Inr w'"
  unfolding returnRspData_def
  by (subst returnRsp_small) (auto simp: Let_def unat_of_nat split: option.split)

text \<open>
  The frame of a response: only the sending session's outbound sequence number and the list of
  sent datagrams change, and at most one datagram is sent, to the sender of the request.
\<close>

definition pkt_ok :: "u8 list \<Rightarrow> bool" where
  "pkt_ok pkt \<longleftrightarrow> arr pkt 3 = 6 \<and> length pkt = 28 \<or>
     (\<exists>hdr b1 b2. pkt = hdr @ b1 @ b2 \<and> arr pkt 3 = 7 \<and> length hdr \<in> {14, 30} \<and> length b1 = 3 \<and> wire_valid b1 \<and> wire_valid b2 \<and>
        last hdr = of_nat (length b1 + length b2))"

lemma low_byte_add: "(ucast (x + y :: u16) :: u8) = ucast x + ucast y"
  by (simp add: word_unat_eq_iff unsigned_ucast_eq unat_word_ariths take_bit_eq_mod mod_mod_cancel mod_simps)

lemma rsp_packet_ok: "pkt_ok (rsp_packet msg s rsp)"
proof -
  obtain b1 b2 where b: "rsp_message msg rsp = b1 @ b2" "length b1 = 3" "wire_valid b1" "wire_valid b2"
    by (rule rsp_message_blocks)
  have "length b1 + length b2 = unat (p_dataLen rsp) + 7"
    using length_rsp_message [of msg rsp] b(1) by simp
  then have "last (rsp_header s rsp) = of_nat (length b1 + length b2)"
    by (simp add: last_rsp_header low_byte_add of_nat_unat)
  moreover have "arr (rsp_packet msg s rsp) 3 = 7"
    by (simp add: rsp_packet_def rsp_header_def)
  moreover have "length (rsp_header s rsp) \<in> {14, 30}"
    by (simp add: length_rsp_header)
  ultimately show ?thesis using b unfolding pkt_ok_def rsp_packet_def by metis
qed

lemma pong_ok: "arr pkt 3 = 6 \<Longrightarrow> length pkt = 28 \<Longrightarrow> pkt_ok pkt"
  by (simp add: pkt_ok_def)

definition replies :: "nat \<Rightarrow> world \<Rightarrow> world \<Rightarrow> bool" where
  "replies addr w w' \<longleftrightarrow> w_sent w' = w_sent w \<or> (\<exists>pkt. w_sent w' = w_sent w @ [(addr, pkt)] \<and> pkt_ok pkt)"

lemma replies_refl [simp]: "replies addr w w"
  by (simp add: replies_def)

lemma send_to_fields [simp]:
  "w_lan (send_to a p w) = w_lan w" "w_mc (send_to a p w) = w_mc w"
  "w_card (send_to a p w) = w_card w" "w_ctx (send_to a p w) = w_ctx w"
  "w_sent (send_to a p w) = w_sent w @ [(a, p)]"
  by (simp_all add: send_to_def)

lemma write_ref_fields [simp]:
  "l_chanNum (write_ref r s l) = l_chanNum l"
  "l_chanPrivLimit (write_ref r s l) = l_chanPrivLimit l"
  "l_activeSessions (write_ref r s l) = l_activeSessions l"
  "l_nextChallSeq (write_ref r s l) = l_nextChallSeq l"
  "l_sidSeq (write_ref r s l) = l_sidSeq l"
  "l_defaultSessionTimeout (write_ref r s l) = l_defaultSessionTimeout l"
  "l_users (write_ref r s l) = l_users l"
  by (cases r; simp)+

definition rsp_frame :: "nat \<Rightarrow> world \<Rightarrow> world \<Rightarrow> bool" where
  "rsp_frame addr w w' \<longleftrightarrow> w_mc w' = w_mc w \<and> w_card w' = w_card w \<and> w_ctx w' = w_ctx w \<and>
     replies addr w w'"

lemma returnRsp_frame:
  "returnRsp msg session rsp w = Inr w' \<Longrightarrow> rsp_frame (m_remoteAddr msg) w w'"
  by (auto simp: returnRsp_def rsp_frame_def replies_def rsp_packet_ok Let_def split: option.splits if_splits)

definition ref_ok :: "lanservT \<Rightarrow> session_ref option \<Rightarrow> bool" where
  "ref_ok l session \<longleftrightarrow>
     (\<forall>i. session = Some (Slot i) \<longrightarrow> valid_slot i \<and> s_active (l_sessions l ! i))"

lemma ref_ok_None [simp]: "ref_ok l None"
  by (simp add: ref_ok_def)

lemma ref_ok_Local [simp]: "ref_ok l (Some (Local s))"
  by (simp add: ref_ok_def)

lemma ref_ok_lookup: "lan_inv l \<Longrightarrow> sidToSession sid l = Some i \<Longrightarrow> ref_ok l (Some (Slot i))"
  by (simp add: ref_ok_def sidToSession_iff lan_invD(1))

lemma rsp_session_ok:
  assumes "lan_inv l" "ref_ok l session" "rsp_session msg session l = Some r"
  shows "ref_ok l (Some r)"
  using assms
  by (auto simp: rsp_session_def ref_ok_def Let_def sidToSession_iff lan_invD(1)
      split: option.splits if_splits)

lemma returnRsp_lan_inv:
  assumes "returnRsp msg session rsp w = Inr w'" "lan_inv (w_lan w)" "ref_ok (w_lan w) session"
  shows "lan_inv (w_lan w')"
proof (cases "rsp_session msg session (w_lan w)")
  case None
  then show ?thesis using assms by (simp add: returnRsp_def)
next
  case (Some r)
  let ?s = "deref r (w_lan w)"
  let ?s' = "?s\<lparr>s_xmitSeq := next_xmitSeq (s_xmitSeq ?s)\<rparr>"
  have w': "w_lan w' = write_ref r ?s' (w_lan w)"
    using assms(1) Some by (auto simp: returnRsp_def Let_def split: if_splits)
  have ok: "ref_ok (w_lan w) (Some r)"
    using assms(2,3) Some by (rule rsp_session_ok)
  show ?thesis
  proof (cases r)
    case (Slot i)
    with ok have i: "valid_slot i" "s_active (l_sessions (w_lan w) ! i)"
      by (simp_all add: ref_ok_def)
    have "session_ok (w_lan w) ?s'"
      using lan_invD(7) [OF assms(2) i] Slot by (simp add: session_ok_def)
    with i Slot have "lan_inv (put_session i ?s' (w_lan w))"
      using assms(2) by (intro lan_inv_update) simp_all
    with Slot w' show ?thesis by simp
  qed (use assms w' in simp)
qed

lemma returnErr_frame:
  "returnErr msg session e w = Inr w' \<Longrightarrow> rsp_frame (m_remoteAddr msg) w w'"
  unfolding returnErr_def by (rule returnRsp_frame)

lemma returnRspData_frame:
  "returnRspData msg session d n w = Inr w' \<Longrightarrow> rsp_frame (m_remoteAddr msg) w w'"
  unfolding returnRspData_def by (rule returnRsp_frame)

lemma returnErr_lan_inv:
  "returnErr msg session e w = Inr w' \<Longrightarrow> lan_inv (w_lan w) \<Longrightarrow> ref_ok (w_lan w) session
   \<Longrightarrow> lan_inv (w_lan w')"
  unfolding returnErr_def by (rule returnRsp_lan_inv)

lemma returnRspData_lan_inv:
  "returnRspData msg session d n w = Inr w' \<Longrightarrow> lan_inv (w_lan w) \<Longrightarrow> ref_ok (w_lan w) session
   \<Longrightarrow> lan_inv (w_lan w')"
  unfolding returnRspData_def by (rule returnRsp_lan_inv)

text \<open>A response on a local session, or outside any session, leaves the session table alone.\<close>

lemma rsp_session_Local:
  "rsp_session msg (Some (Local s)) l = Some r \<Longrightarrow> r = Local s \<or> r = Local dummy_session"
  by (auto simp: rsp_session_def Let_def split: if_splits)

lemma returnRsp_local:
  assumes "returnRsp msg (Some (Local s)) rsp w = Inr w'"
  shows "w_lan w' = w_lan w"
  using assms
  by (auto simp: returnRsp_def Let_def split: option.splits if_splits dest!: rsp_session_Local)

lemma returnErr_local: "returnErr msg (Some (Local s)) e w = Inr w' \<Longrightarrow> w_lan w' = w_lan w"
  unfolding returnErr_def by (rule returnRsp_local)

lemma returnRspData_local:
  "returnRspData msg (Some (Local s)) d n w = Inr w' \<Longrightarrow> w_lan w' = w_lan w"
  unfolding returnRspData_def by (rule returnRsp_local)

text \<open>A response keeps every session but for its outbound sequence number.\<close>

lemma returnRsp_lan:
  assumes "returnRsp msg session rsp w = Inr w'"
  obtains "w_lan w' = w_lan w"
  | i where "w_lan w' = put_session i ((l_sessions (w_lan w) ! i)\<lparr>s_xmitSeq :=
        next_xmitSeq (s_xmitSeq (l_sessions (w_lan w) ! i))\<rparr>) (w_lan w)"
proof (cases "rsp_session msg session (w_lan w)")
  case None
  then show ?thesis using assms that(1) by (simp add: returnRsp_def)
next
  case (Some r)
  with assms have w': "w_lan w' = write_ref r ((deref r (w_lan w))\<lparr>s_xmitSeq :=
        next_xmitSeq (s_xmitSeq (deref r (w_lan w)))\<rparr>) (w_lan w)"
    by (auto simp: returnRsp_def Let_def split: if_splits)
  show ?thesis
    by (cases r) (use w' that in auto)
qed

lemma returnRsp_slot:
  assumes "returnRsp msg session rsp w = Inr w'"
  shows "\<exists>x. l_sessions (w_lan w') ! j = (l_sessions (w_lan w) ! j)\<lparr>s_xmitSeq := x\<rparr>"
  using assms
proof (cases rule: returnRsp_lan)
  case 1
  then show ?thesis
    by (intro exI [of _ "s_xmitSeq (l_sessions (w_lan w) ! j)"]) simp
next
  case (2 i)
  then show ?thesis
    by (cases "i = j"; cases "i < length (l_sessions (w_lan w))")
      (auto simp: list_update_beyond intro: exI [of _ "s_xmitSeq (l_sessions (w_lan w) ! j)"])
qed

lemma returnRsp_sessions:
  assumes "returnRsp msg session rsp w = Inr w'"
  shows "s_active (l_sessions (w_lan w') ! j) = s_active (l_sessions (w_lan w) ! j)"
    and "s_sid (l_sessions (w_lan w') ! j) = s_sid (l_sessions (w_lan w) ! j)"
    and "s_priv (l_sessions (w_lan w') ! j) = s_priv (l_sessions (w_lan w) ! j)"
    and "grant_of (l_sessions (w_lan w') ! j) = grant_of (l_sessions (w_lan w) ! j)"
    and "l_activeSessions (w_lan w') = l_activeSessions (w_lan w)"
proof -
  obtain x where x: "l_sessions (w_lan w') ! j = (l_sessions (w_lan w) ! j)\<lparr>s_xmitSeq := x\<rparr>"
    using returnRsp_slot [OF assms] by blast
  show "s_active (l_sessions (w_lan w') ! j) = s_active (l_sessions (w_lan w) ! j)"
    "s_sid (l_sessions (w_lan w') ! j) = s_sid (l_sessions (w_lan w) ! j)"
    "s_priv (l_sessions (w_lan w') ! j) = s_priv (l_sessions (w_lan w) ! j)"
    "grant_of (l_sessions (w_lan w') ! j) = grant_of (l_sessions (w_lan w) ! j)"
    by (simp_all add: x grant_of_def)
  show "l_activeSessions (w_lan w') = l_activeSessions (w_lan w)"
    using assms by (cases rule: returnRsp_lan) simp_all
qed

lemma returnRsp_lookup:
  "returnRsp msg session rsp w = Inr w' \<Longrightarrow> sidToSession sid (w_lan w') = sidToSession sid (w_lan w)"
  by (simp add: sidToSession_def Let_def returnRsp_sessions)

lemma returnErr_sessions:
  assumes "returnErr msg session e w = Inr w'"
  shows "s_active (l_sessions (w_lan w') ! j) = s_active (l_sessions (w_lan w) ! j)"
    and "s_sid (l_sessions (w_lan w') ! j) = s_sid (l_sessions (w_lan w) ! j)"
    and "s_priv (l_sessions (w_lan w') ! j) = s_priv (l_sessions (w_lan w) ! j)"
    and "l_activeSessions (w_lan w') = l_activeSessions (w_lan w)"
    and "sidToSession sid (w_lan w') = sidToSession sid (w_lan w)"
  using assms unfolding returnErr_def by (simp_all add: returnRsp_sessions returnRsp_lookup)

lemma returnRspData_sessions:
  assumes "returnRspData msg session d n w = Inr w'"
  shows "s_active (l_sessions (w_lan w') ! j) = s_active (l_sessions (w_lan w) ! j)"
    and "s_sid (l_sessions (w_lan w') ! j) = s_sid (l_sessions (w_lan w) ! j)"
    and "s_priv (l_sessions (w_lan w') ! j) = s_priv (l_sessions (w_lan w) ! j)"
    and "l_activeSessions (w_lan w') = l_activeSessions (w_lan w)"
    and "sidToSession sid (w_lan w') = sidToSession sid (w_lan w)"
  using assms unfolding returnRspData_def by (simp_all add: returnRsp_sessions returnRsp_lookup)

text \<open>A response grants and takes nothing.\<close>

lemma returnRsp_grants:
  "returnRsp msg session rsp w = Inr w' \<Longrightarrow> grants (w_lan w') = grants (w_lan w)"
  by (rule grants_sessions) (simp_all add: returnRsp_sessions)

lemma reply_grants:
  "returnErr msg session e w = Inr w' \<Longrightarrow> grants (w_lan w') = grants (w_lan w)"
  "returnRspData msg session d n w = Inr w' \<Longrightarrow> grants (w_lan w') = grants (w_lan w)"
  unfolding returnErr_def returnRspData_def by (rule returnRsp_grants, assumption)+

text \<open>The three together, for the replies that name no session of their own.\<close>

definition rsp_step :: "nat \<Rightarrow> world \<Rightarrow> world \<Rightarrow> bool" where
  "rsp_step addr w w' \<longleftrightarrow> rsp_frame addr w w' \<and> (lan_inv (w_lan w) \<longrightarrow> lan_inv (w_lan w')) \<and>
     grants (w_lan w') = grants (w_lan w)"

lemma rsp_stepI [intro]:
  "returnErr msg None e w = Inr w' \<Longrightarrow> rsp_step (m_remoteAddr msg) w w'"
  "returnRspData msg None d n w = Inr w' \<Longrightarrow> rsp_step (m_remoteAddr msg) w w'"
  by (auto simp: rsp_step_def dest: returnErr_frame returnErr_lan_inv returnRspData_frame returnRspData_lan_inv
      reply_grants)

lemma rsp_step_refl [simp]: "rsp_step addr w w"
  by (simp add: rsp_step_def rsp_frame_def)

section \<open>Sample inputs\<close>

text \<open>A freshly started server, an environment and a request with a given body, for witnesses.\<close>

definition demo_world :: world where
  "demo_world = \<lparr>w_lan = init_lanserv, w_mc = zero_mc, w_card = 0, w_ctx = init_clientCtx,
     w_sent = []\<rparr>"

definition demo_env :: goenv where
  "demo_env = \<lparr>g_now = 1000, g_rand99 = 77\<rparr>"

definition demo_msg :: "u32 \<Rightarrow> u8 list \<Rightarrow> msgT" where
  "demo_msg sid body = \<lparr>m_channel = 1, m_sid = sid, m_authtype = 0, m_hdr = zero_hdr,
     m_session = zero_rmcp_session\<lparr>rs_sid := sid\<rparr>, m_message = zero_rmcp_message,
     m_remoteAddr = 7, m_data = body, m_dataStart = 0, m_dataLen = 43\<rparr>"

end
