(* ===== verification/Stub_Cmds.thy ===== *)
theory Stub_Cmds
  imports Ipmi_Wire
begin

text \<open>
  The handlers of the dispatch tables that are not implemented: their bodies are empty or print
  that the command is not supported. They answer nothing and change nothing.
\<close>

named_theorems stubs \<open>the handlers that do nothing\<close>

section \<open>Chassis commands\<close>

definition getChassisCapabilities :: handler where
  [stubs]: "getChassisCapabilities env msg w = Inr w"
definition chassisControl :: handler where
  [stubs]: "chassisControl env msg w = Inr w"
definition chassisReset :: handler where
  [stubs]: "chassisReset env msg w = Inr w"
definition chassisIdentify :: handler where
  [stubs]: "chassisIdentify env msg w = Inr w"
definition setChassisCapabilities :: handler where
  [stubs]: "setChassisCapabilities env msg w = Inr w"
definition setPowerRestorePolicy :: handler where
  [stubs]: "setPowerRestorePolicy env msg w = Inr w"
definition getSystemRestartCause :: handler where
  [stubs]: "getSystemRestartCause env msg w = Inr w"
definition setSystemBootOptions :: handler where
  [stubs]: "setSystemBootOptions env msg w = Inr w"
definition getSystemBootOptions :: handler where
  [stubs]: "getSystemBootOptions env msg w = Inr w"

section \<open>Sensor commands\<close>

definition setEventReceiver :: handler where
  [stubs]: "setEventReceiver env msg w = Inr w"
definition getEventReceiver :: handler where
  [stubs]: "getEventReceiver env msg w = Inr w"
definition platformEvent :: handler where
  [stubs]: "platformEvent env msg w = Inr w"
definition getPefCapabilities :: handler where
  [stubs]: "getPefCapabilities env msg w = Inr w"
definition armPefPostponeTimer :: handler where
  [stubs]: "armPefPostponeTimer env msg w = Inr w"
definition setPefConfigParms :: handler where
  [stubs]: "setPefConfigParms env msg w = Inr w"
definition getPefConfigParms :: handler where
  [stubs]: "getPefConfigParms env msg w = Inr w"
definition setLastProcessedEventId :: handler where
  [stubs]: "setLastProcessedEventId env msg w = Inr w"
definition getLastProcessedEventId :: handler where
  [stubs]: "getLastProcessedEventId env msg w = Inr w"
definition alertImmediate :: handler where
  [stubs]: "alertImmediate env msg w = Inr w"
definition petAcknowledge :: handler where
  [stubs]: "petAcknowledge env msg w = Inr w"
definition getDeviceSdrInfo :: handler where
  [stubs]: "getDeviceSdrInfo env msg w = Inr w"
definition getDeviceSdr :: handler where
  [stubs]: "getDeviceSdr env msg w = Inr w"
definition reserveDeviceSdrRepository :: handler where
  [stubs]: "reserveDeviceSdrRepository env msg w = Inr w"
definition getSensorReadingFactors :: handler where
  [stubs]: "getSensorReadingFactors env msg w = Inr w"
definition setSensorHysteresis :: handler where
  [stubs]: "setSensorHysteresis env msg w = Inr w"
definition getSensorHysteresis :: handler where
  [stubs]: "getSensorHysteresis env msg w = Inr w"
definition setSensorThreshold :: handler where
  [stubs]: "setSensorThreshold env msg w = Inr w"
definition getSensorThreshold :: handler where
  [stubs]: "getSensorThreshold env msg w = Inr w"
definition setSensorEventEnable :: handler where
  [stubs]: "setSensorEventEnable env msg w = Inr w"
definition getSensorEventEnable :: handler where
  [stubs]: "getSensorEventEnable env msg w = Inr w"
definition rearmSensorEvents :: handler where
  [stubs]: "rearmSensorEvents env msg w = Inr w"
definition getSensorEventStatus :: handler where
  [stubs]: "getSensorEventStatus env msg w = Inr w"
definition setSensorType :: handler where
  [stubs]: "setSensorType env msg w = Inr w"
definition getSensorType :: handler where
  [stubs]: "getSensorType env msg w = Inr w"

section \<open>App commands\<close>

definition getDeviceId :: handler where
  [stubs]: "getDeviceId env msg w = Inr w"
definition coldReset :: handler where
  [stubs]: "coldReset env msg w = Inr w"
definition warmReset :: handler where
  [stubs]: "warmReset env msg w = Inr w"
definition getSelfTestResults :: handler where
  [stubs]: "getSelfTestResults env msg w = Inr w"
definition manufacturingTestOn :: handler where
  [stubs]: "manufacturingTestOn env msg w = Inr w"
definition setAcpiPowerState :: handler where
  [stubs]: "setAcpiPowerState env msg w = Inr w"
definition getAcpiPowerState :: handler where
  [stubs]: "getAcpiPowerState env msg w = Inr w"
definition getDeviceGuid :: handler where
  [stubs]: "getDeviceGuid env msg w = Inr w"
definition resetWatchdogTimer :: handler where
  [stubs]: "resetWatchdogTimer env msg w = Inr w"
definition setWatchdogTimer :: handler where
  [stubs]: "setWatchdogTimer env msg w = Inr w"
definition getWatchdogTimer :: handler where
  [stubs]: "getWatchdogTimer env msg w = Inr w"
definition setBmcGlobalEnables :: handler where
  [stubs]: "setBmcGlobalEnables env msg w = Inr w"
definition getBmcGlobalEnables :: handler where
  [stubs]: "getBmcGlobalEnables env msg w = Inr w"
definition clearMsgFlags :: handler where
  [stubs]: "clearMsgFlags env msg w = Inr w"
definition getMsgFlagsCmd :: handler where
  [stubs]: "getMsgFlagsCmd env msg w = Inr w"
definition enableMessageChannelRcv :: handler where
  [stubs]: "enableMessageChannelRcv env msg w = Inr w"
definition getMsg :: handler where
  [stubs]: "getMsg env msg w = Inr w"
definition sendMsg :: handler where
  [stubs]: "sendMsg env msg w = Inr w"
definition readEventMsgBuffer :: handler where
  [stubs]: "readEventMsgBuffer env msg w = Inr w"
definition getBtInterfaceCapabilties :: handler where
  [stubs]: "getBtInterfaceCapabilties env msg w = Inr w"
definition getSessionInfo :: handler where
  [stubs]: "getSessionInfo env msg w = Inr w"
definition getAuthcode :: handler where
  [stubs]: "getAuthcode env msg w = Inr w"
definition setChannelAccess :: handler where
  [stubs]: "setChannelAccess env msg w = Inr w"
definition getChannelAccess :: handler where
  [stubs]: "getChannelAccess env msg w = Inr w"
definition getChannelInfo :: handler where
  [stubs]: "getChannelInfo env msg w = Inr w"
definition setUserAccess :: handler where
  [stubs]: "setUserAccess env msg w = Inr w"
definition getUserAccess :: handler where
  [stubs]: "getUserAccess env msg w = Inr w"
definition setUserName :: handler where
  [stubs]: "setUserName env msg w = Inr w"
definition getUserName :: handler where
  [stubs]: "getUserName env msg w = Inr w"
definition setUserPassword :: handler where
  [stubs]: "setUserPassword env msg w = Inr w"
definition activatePayload :: handler where
  [stubs]: "activatePayload env msg w = Inr w"
definition deavtivatePayload :: handler where
  [stubs]: "deavtivatePayload env msg w = Inr w"
definition getPayloadActivationStatus :: handler where
  [stubs]: "getPayloadActivationStatus env msg w = Inr w"
definition getPayloadInstanceInfo :: handler where
  [stubs]: "getPayloadInstanceInfo env msg w = Inr w"
definition setUserPayloadAccess :: handler where
  [stubs]: "setUserPayloadAccess env msg w = Inr w"
definition getUserPayloadAccess :: handler where
  [stubs]: "getUserPayloadAccess env msg w = Inr w"
definition getChannelPayloadSupport :: handler where
  [stubs]: "getChannelPayloadSupport env msg w = Inr w"
definition getChannelPayloadVersion :: handler where
  [stubs]: "getChannelPayloadVersion env msg w = Inr w"
definition getChannelOemPayloadInfo :: handler where
  [stubs]: "getChannelOemPayloadInfo env msg w = Inr w"
definition masterReadWrite :: handler where
  [stubs]: "masterReadWrite env msg w = Inr w"
definition suspendResumePayloadEncryption :: handler where
  [stubs]: "suspendResumePayloadEncryption env msg w = Inr w"
definition setChannelSecurityKey :: handler where
  [stubs]: "setChannelSecurityKey env msg w = Inr w"
definition getSystemInterfaceCapabilities :: handler where
  [stubs]: "getSystemInterfaceCapabilities env msg w = Inr w"

section \<open>Storage commands\<close>

definition getFruInventoryAreaInfo :: handler where
  [stubs]: "getFruInventoryAreaInfo env msg w = Inr w"
definition readFruData :: handler where
  [stubs]: "readFruData env msg w = Inr w"
definition writeFruData :: handler where
  [stubs]: "writeFruData env msg w = Inr w"
definition getSdrRepositoryAllocInfo :: handler where
  [stubs]: "getSdrRepositoryAllocInfo env msg w = Inr w"
definition partialAddSdr :: handler where
  [stubs]: "partialAddSdr env msg w = Inr w"
definition deleteSdr :: handler where
  [stubs]: "deleteSdr env msg w = Inr w"
definition getSdrRepositoryTime :: handler where
  [stubs]: "getSdrRepositoryTime env msg w = Inr w"
definition setSdrRepositoryTime :: handler where
  [stubs]: "setSdrRepositoryTime env msg w = Inr w"
definition enterSdrRepositoryUpdate :: handler where
  [stubs]: "enterSdrRepositoryUpdate env msg w = Inr w"
definition exitSdrRepositoryUpdate :: handler where
  [stubs]: "exitSdrRepositoryUpdate env msg w = Inr w"
definition runInitializationAgent :: handler where
  [stubs]: "runInitializationAgent env msg w = Inr w"
definition getSelAllocationInfo :: handler where
  [stubs]: "getSelAllocationInfo env msg w = Inr w"
definition partialAddSelEntry :: handler where
  [stubs]: "partialAddSelEntry env msg w = Inr w"
definition deleteSelEntry :: handler where
  [stubs]: "deleteSelEntry env msg w = Inr w"
definition getSelTime :: handler where
  [stubs]: "getSelTime env msg w = Inr w"
definition setSelTime :: handler where
  [stubs]: "setSelTime env msg w = Inr w"
definition getAuxiliaryLogStatus :: handler where
  [stubs]: "getAuxiliaryLogStatus env msg w = Inr w"
definition setAuxiliaryLogStatus :: handler where
  [stubs]: "setAuxiliaryLogStatus env msg w = Inr w"

definition bridgeNetfn :: handler where
  [stubs]: "bridgeNetfn env msg w = Inr w"
definition firmwareNetfn :: handler where
  [stubs]: "firmwareNetfn env msg w = Inr w"
definition transportNetfn :: handler where
  [stubs]: "transportNetfn env msg w = Inr w"
definition groupExtensionNetfn :: handler where
  [stubs]: "groupExtensionNetfn env msg w = Inr w"
definition oemGroupNetfn :: handler where
  [stubs]: "oemGroupNetfn env msg w = Inr w"

end
