(* ===== verification/App_Cmds.thy ===== *)
theory App_Cmds
  imports Ipmi_Wire
begin

text \<open>
  The application commands of \<open>ipmi_internal_app.go\<close>: channel capabilities, the session
  challenge, session activation, privilege change and session close, and the commands that only
  print. Console output is not modelled: a handler that only prints returns the state unchanged.
\<close>

section \<open>Handlers\<close>

text \<open>
  The guard shared by four handlers: a request outside any session (session id 0) that asks for
  authentication is dropped.
\<close>

definition sessionless_with_auth :: "msgT \<Rightarrow> bool" where
  "sessionless_with_auth msg \<longleftrightarrow>
     rs_sid (m_session msg) = 0 \<and> rs_authType (m_session msg) \<noteq> IPMI_AUTHTYPE_NONE"

definition getSystemGuid :: handler where
  "getSystemGuid env msg w = (if sessionless_with_auth msg then Inr w else Inr w)"

definition getChannelCipherSuites :: handler where
  "getChannelCipherSuites env msg w = (if sessionless_with_auth msg then Inr w else Inr w)"

definition getChannelAuthCapabilties :: handler where
  "getChannelAuthCapabilties env msg w =
     (if sessionless_with_auth msg then Inr w
      else
        let dataStart = m_dataStart msg;
            do_rmcpp = drop_bit 7 (arr (m_data msg) dataStart) AND 1
        in if do_rmcpp > 0 then Inr w
           else
             let channel = arr (m_data msg) dataStart AND 0xf;
                 priv = arr (m_data msg) (dataStart + 1) AND 0xf;
                 channel = (if channel = 0xe then l_chanNum (w_lan w) else channel)
             in if channel \<noteq> l_chanNum (w_lan w) then
                  returnErr msg None IPMI_INVALID_DATA_FIELD_CC w
                else if priv > l_chanPrivLimit (w_lan w) then
                  returnErr msg None IPMI_INVALID_DATA_FIELD_CC w
                else returnRspData msg None [0, channel, 0x17, 0x6, 0, 0, 0, 0, 0] 9 w)"

definition isAuthvalNull :: "u8 list \<Rightarrow> bool" where
  "isAuthvalNull authval = list_all (\<lambda>i. arr authval i = 0) [0..<16]"

definition getSessionChallenge :: handler where
  "getSessionChallenge env msg w =
     (if sessionless_with_auth msg then Inr w
      else
        let dataStart = m_dataStart msg;
            authtype = arr (m_data msg) dataStart AND 0xf;
            username = gslice (m_data msg) (dataStart + 1) (dataStart + 17)
        in case findUser username True authtype (w_lan w) of
             None \<Rightarrow>
               if isAuthvalNull username then returnErr msg None 0x82 w
               else returnErr msg None 0x81 w
           | Some i \<Rightarrow>
               let user = l_users (w_lan w) ! i in
               if u_allowedAuths user AND push_bit (unat authtype) 1 = 0 then
                 returnErr msg None IPMI_INVALID_DATA_FIELD_CC w
               else if l_activeSessions (w_lan w) \<ge> of_nat MAX_SESSIONS then
                 returnErr msg None IPMI_OUT_OF_SPACE_CC w
               else
                 let sid = mk_temp_sid (l_nextChallSeq (w_lan w)) (u_idx user);
                     testChall = [0x00, 0x01, 0x02, 0x03, 0x04, 0x05, 0x06, 0x07,
                                  0x08, 0x09, 0x0a, 0x0b, 0x0c, 0x0d, 0x0e, 0x0f]
                 in returnRspData msg None ([0] @ putUint32 sid @ testChall) 21
                      (w\<lparr>w_lan := (w_lan w)\<lparr>l_nextChallSeq := l_nextChallSeq (w_lan w) + 1\<rparr>\<rparr>))"

text \<open>Filling a free slot and the counters, the middle of \<open>activateSession\<close>.\<close>

definition initial_recvSeq :: "u32 \<Rightarrow> u32" where
  "initial_recvSeq seqData = (let q = seqData AND 0xFFFFFFFE in if q = 0 then 2 else q)"

definition open_session ::
  "goenv \<Rightarrow> u8 \<Rightarrow> u32 \<Rightarrow> u8 \<Rightarrow> userT \<Rightarrow> nat \<Rightarrow> lanservT \<Rightarrow> lanservT" where
  "open_session env auth xmitSeq maxPriv user i l =
     (let session = l_sessions l ! i;
          sidSeq = (if l_sidSeq l = 0 then l_sidSeq l + 1 else l_sidSeq l);
          session = session\<lparr>s_active := True, s_rmcpplus := False, s_authtype := auth,
            s_recvSeq := initial_recvSeq (g_rand99 env), s_xmitSeq := xmitSeq,
            s_maxPriv := maxPriv, s_priv := IPMI_PRIVILEGE_USER, s_userid := u_idx user,
            s_timeLeft := l_defaultSessionTimeout l, s_sid := mk_sid sidSeq (s_handle session)\<rparr>
      in (put_session i session l)\<lparr>l_activeSessions := l_activeSessions l + 1,
                                   l_sidSeq := sidSeq + 1\<rparr>)"

definition activate_rsp :: "sessionT \<Rightarrow> u8 list" where
  "activate_rsp session = [0, s_authtype session] @ putUint32 (s_sid session)
     @ putUint32 (s_recvSeq session) @ [s_maxPriv session]"

definition activateSession :: handler where
  "activateSession env msg w =
     (if m_dataLen msg < 22 then Inr w
      else if rs_sid (m_session msg) AND 1 = 1 then
        let l = w_lan w;
            dataStart = m_dataStart msg;
            userIdx = drop_bit 1 (m_sid msg) AND USER_MASK
        in if userIdx > of_nat MAX_USERS \<or> userIdx = 0 then Inr w
           else
             let auth = arr (m_data msg) dataStart AND 0xf;
                 user = l_users l ! unat userIdx
             in if \<not> u_valid user then Inr w
                else if u_allowedAuths user AND push_bit (unat auth) 1 = 0 then Inr w
                else if u_allowedAuths user AND push_bit (unat (m_authtype msg)) 1 = 0 then Inr w
                else if l_activeSessions l \<ge> of_nat MAX_SESSIONS then Inr w
                else
                  let xmitSeq = getUint32 (m_data msg) (dataStart + 18);
                      dummy = Local (zero_session\<lparr>s_active := True, s_authtype := m_authtype msg,
                                s_xmitSeq := xmitSeq, s_sid := m_sid msg\<rparr>)
                  in if xmitSeq = 0 then returnErr msg (Some dummy) 0x85 w
                     else
                       let maxPriv = arr (m_data msg) (dataStart + 1) AND 0xf
                       in if u_privilege user = 0xf \<or> maxPriv > u_maxPriv user then
                            returnErr msg (Some dummy) 0x86 w
                          else case findFreeSession l of
                            None \<Rightarrow> returnErr msg (Some dummy) 0x81 w
                          | Some i \<Rightarrow>
                              let l = open_session env auth xmitSeq maxPriv user i l
                              in returnRspData msg (Some dummy)
                                   (activate_rsp (l_sessions l ! i)) 11 (w\<lparr>w_lan := l\<rparr>)
      else
        case sidToSession (m_sid msg) (w_lan w) of
          None \<Rightarrow> Inr w
        | Some i \<Rightarrow>
            let session = (l_sessions (w_lan w) ! i)\<lparr>s_xmitSeq := getUint32 (m_data msg) 18\<rparr>
            in returnRspData msg (Some (Slot i)) (activate_rsp session) 11
                 (w\<lparr>w_lan := put_session i session (w_lan w)\<rparr>))"

definition setSessionPrivilege :: handler where
  "setSessionPrivilege env msg w =
     (if m_dataLen msg < 1 then returnErr msg None IPMI_REQUEST_DATA_LENGTH_INVALID_CC w
      else case sidToSession (m_sid msg) (w_lan w) of
        None \<Rightarrow> Inr w
      | Some i \<Rightarrow>
          let session = l_sessions (w_lan w) ! i;
              priv = arr (m_data msg) (m_dataStart msg) AND 0xf;
              priv = (if priv = 0 then s_priv session else priv)
          in if priv = IPMI_PRIVILEGE_CALLBACK then returnErr msg (Some (Slot i)) 0x80 w
             else if priv > s_maxPriv session then returnErr msg (Some (Slot i)) 0x81 w
             else returnRspData msg (Some (Slot i)) [0, priv] 2
                    (w\<lparr>w_lan := put_session i (session\<lparr>s_priv := priv\<rparr>) (w_lan w)\<rparr>))"

text \<open>The end of \<open>closeSession\<close>: acknowledge on the requesting session, free the target slot.\<close>

definition free_session :: "nat \<Rightarrow> lanservT \<Rightarrow> lanservT" where
  "free_session t l = (put_session t ((l_sessions l ! t)\<lparr>s_active := False\<rparr>) l)
     \<lparr>l_activeSessions := l_activeSessions l - 1\<rparr>"

definition close_target :: "msgT \<Rightarrow> nat \<Rightarrow> nat \<Rightarrow> world \<Rightarrow> world go" where
  "close_target msg i t w =
     go_bind (returnErr msg (Some (Slot i)) 0 w) (\<lambda>w. Inr (w\<lparr>w_lan := free_session t (w_lan w)\<rparr>))"

definition closeSession :: handler where
  "closeSession env msg w =
     (let session = sidToSession (m_sid msg) (w_lan w) in
      if m_dataLen msg < 4 then
        returnErr msg (map_option Slot session) IPMI_REQUEST_DATA_LENGTH_INVALID_CC w
      else
        let sid = getUint32 (m_data msg) (m_dataStart msg) in
        case session of
          None \<Rightarrow> Inl NilDereference
        | Some i \<Rightarrow>
            if sid \<noteq> s_sid (l_sessions (w_lan w) ! i) then
              if s_priv (l_sessions (w_lan w) ! i) \<noteq> IPMI_PRIVILEGE_ADMIN then
                returnErr msg (Some (Slot i)) IPMI_INSUFFICIENT_PRIVILEGE_CC w
              else case sidToSession sid (w_lan w) of
                None \<Rightarrow> returnErr msg (Some (Slot i)) 0x87 w
              | Some t \<Rightarrow> close_target msg i t w
            else close_target msg i i w)"

section \<open>Frame and invariant of each handler\<close>

lemma rsp_frame_lan [simp]: "rsp_frame a (w\<lparr>w_lan := l\<rparr>) w' = rsp_frame a w w'"
  by (simp add: rsp_frame_def replies_def)

lemma rsp_frame_lan' [simp]: "rsp_frame a w (w'\<lparr>w_lan := l\<rparr>) = rsp_frame a w w'"
  by (simp add: rsp_frame_def replies_def)

lemma rsp_frame_refl [simp]: "rsp_frame a w w"
  by (simp add: rsp_frame_def)

lemma lan_inv_seqs [simp]:
  "lan_inv (l\<lparr>l_nextChallSeq := x\<rparr>) = lan_inv l"
  "lan_inv (l\<lparr>l_sidSeq := x\<rparr>) = lan_inv l"
  by (simp_all add: lan_inv_def table_wf_def active_count_def session_ok_def)

lemmas app_defs = getSystemGuid_def getChannelCipherSuites_def getChannelAuthCapabilties_def
  getSessionChallenge_def activateSession_def setSessionPrivilege_def closeSession_def
  close_target_def

lemma app_frame:
  "getSystemGuid env msg w = Inr w' \<Longrightarrow> rsp_frame (m_remoteAddr msg) w w'"
  "getChannelCipherSuites env msg w = Inr w' \<Longrightarrow> rsp_frame (m_remoteAddr msg) w w'"
  "getChannelAuthCapabilties env msg w = Inr w' \<Longrightarrow> rsp_frame (m_remoteAddr msg) w w'"
  "getSessionChallenge env msg w = Inr w' \<Longrightarrow> rsp_frame (m_remoteAddr msg) w w'"
  "setSessionPrivilege env msg w = Inr w' \<Longrightarrow> rsp_frame (m_remoteAddr msg) w w'"
  by (auto simp: app_defs Let_def split: if_splits option.splits
      dest: returnErr_frame returnRspData_frame)

lemma activateSession_frame:
  "activateSession env msg w = Inr w' \<Longrightarrow> rsp_frame (m_remoteAddr msg) w w'"
  unfolding activateSession_def Let_def
  by (auto split: if_splits option.splits dest: returnErr_frame returnRspData_frame)

lemma closeSession_frame:
  "closeSession env msg w = Inr w' \<Longrightarrow> rsp_frame (m_remoteAddr msg) w w'"
  unfolding closeSession_def close_target_def Let_def
  by (auto split: if_splits option.splits dest: returnErr_frame)

lemma simple_app_lan_inv:
  "getSystemGuid env msg w = Inr w' \<Longrightarrow> lan_inv (w_lan w) \<Longrightarrow> lan_inv (w_lan w')"
  "getChannelCipherSuites env msg w = Inr w' \<Longrightarrow> lan_inv (w_lan w) \<Longrightarrow> lan_inv (w_lan w')"
  "getChannelAuthCapabilties env msg w = Inr w' \<Longrightarrow> lan_inv (w_lan w) \<Longrightarrow> lan_inv (w_lan w')"
  "getSessionChallenge env msg w = Inr w' \<Longrightarrow> lan_inv (w_lan w) \<Longrightarrow> lan_inv (w_lan w')"
  by (auto simp: app_defs Let_def split: if_splits option.splits
      dest: returnErr_lan_inv returnRspData_lan_inv)

text \<open>Opening a session in a free slot.\<close>

lemma valid_user_index:
  assumes "i < 64" "u_valid (l_users init_lanserv ! i)"
  shows "i = 1 \<or> i = 2"
proof (rule ccontr)
  assume "\<not> (i = 1 \<or> i = 2)"
  then consider "i = 0" | k where "i = 3 + k" by (metis One_nat_def less_2_cases_iff linorder_not_less
        le_Suc_ex numeral_3_eq_3 not_less_eq_eq numeral_2_eq_2 le_antisym)
  then have "l_users init_lanserv ! i = zero_user"
    using assms(1) by cases (simp_all add: users_init nth_append)
  with assms(2) show False by (simp add: zero_user_def)
qed

lemma init_users_nth [simp]:
  "l_users init_lanserv ! Suc 0 = user1" "l_users init_lanserv ! 2 = user2"
  by (simp_all add: users_init)

text \<open>The session that \<open>open_session\<close> writes into its slot.\<close>

definition opened :: "goenv \<Rightarrow> u8 \<Rightarrow> u32 \<Rightarrow> u8 \<Rightarrow> userT \<Rightarrow> nat \<Rightarrow> lanservT \<Rightarrow> sessionT" where
  "opened env auth xmitSeq maxPriv user i l = (l_sessions l ! i)\<lparr>s_active := True,
     s_rmcpplus := False, s_authtype := auth, s_recvSeq := initial_recvSeq (g_rand99 env),
     s_xmitSeq := xmitSeq, s_maxPriv := maxPriv, s_priv := IPMI_PRIVILEGE_USER,
     s_userid := u_idx user, s_timeLeft := l_defaultSessionTimeout l,
     s_sid := mk_sid (if l_sidSeq l = 0 then 1 else l_sidSeq l) (s_handle (l_sessions l ! i))\<rparr>"

lemma open_session_eq:
  "open_session env auth xmitSeq maxPriv user i l =
     (put_session i (opened env auth xmitSeq maxPriv user i l) l)
       \<lparr>l_activeSessions := l_activeSessions l + 1,
        l_sidSeq := (if l_sidSeq l = 0 then 1 else l_sidSeq l) + 1\<rparr>"
  by (simp add: open_session_def opened_def Let_def)

lemma handle_less: "valid_slot i \<Longrightarrow> table_wf l \<Longrightarrow> s_handle (l_sessions l ! i) < 64"
proof -
  assume "valid_slot i" "table_wf l"
  then have "s_handle (l_sessions l ! i) = of_nat i" "i \<le> 16"
    using table_wfD(3) [of l i] by (simp_all add: session_fits_def valid_slot_def protodefs)
  then show ?thesis by (simp add: word_less_nat_alt unat_of_nat)
qed

lemma opened_fits:
  assumes "table_wf l" "valid_slot i"
  shows "session_fits i (opened env auth xmitSeq maxPriv user i l)"
  using table_wfD(3) [OF assms] handle_less [OF assms(2,1)]
  by (simp add: session_fits_def opened_def mk_sid_even sid_index_mk_sid)

lemma unat_succ_small: "unat (x :: u8) < 16 \<Longrightarrow> unat (x + 1) = unat x + 1"
  by (simp add: unat_word_ariths)

lemma open_session_lan_inv:
  assumes inv: "lan_inv l" and room: "unat (l_activeSessions l) < 16"
    and free: "findFreeSession l = Some i" and u: "u = 1 \<or> u = 2"
    and priv: "maxPriv \<le> u_maxPriv (l_users l ! u)"
  shows "lan_inv (open_session env auth xmitSeq maxPriv (l_users l ! u) i l)"
proof -
  let ?s = "opened env auth xmitSeq maxPriv (l_users l ! u) i l"
  have i: "valid_slot i" "\<not> s_active (l_sessions l ! i)"
    using findFreeSession_SomeD [OF free] by simp_all
  have "u_idx (l_users l ! u) = of_nat u"
    using u lan_invD(3) [OF inv] by auto
  then have "session_ok l ?s"
    using u priv by (auto simp: session_ok_def opened_def protodefs)
  then have "lan_inv (put_session i ?s l\<lparr>l_activeSessions := l_activeSessions l + 1\<rparr>)"
    using i room opened_fits [OF lan_invD(1) [OF inv] i(1)]
    by (intro lan_inv_put [OF inv]) (simp_all add: unat_succ_small opened_def)
  then have "lan_inv (put_session i ?s l\<lparr>l_activeSessions := l_activeSessions l + 1\<rparr>
      \<lparr>l_sidSeq := (if l_sidSeq l = 0 then 1 else l_sidSeq l) + 1\<rparr>)"
    by (simp only: lan_inv_seqs)
  then show ?thesis by (simp add: open_session_eq)
qed

lemma open_session_lookup:
  assumes inv: "lan_inv l" and free: "findFreeSession l = Some i"
  shows "sidToSession (s_sid (opened env auth xmitSeq maxPriv user i l))
           (open_session env auth xmitSeq maxPriv user i l) = Some i"
    and "sid \<noteq> s_sid (opened env auth xmitSeq maxPriv user i l) \<Longrightarrow>
         sidToSession sid (open_session env auth xmitSeq maxPriv user i l) = sidToSession sid l"
proof -
  let ?s = "opened env auth xmitSeq maxPriv user i l"
  have i: "valid_slot i" "\<not> s_active (l_sessions l ! i)"
    using findFreeSession_SomeD [OF free] by simp_all
  note wf = lan_invD(1) [OF inv]
  note fits = opened_fits [OF wf i(1), of env auth xmitSeq maxPriv user]
  have same: "sidToSession sid (open_session env auth xmitSeq maxPriv user i l)
    = sidToSession sid (put_session i ?s l)" for sid
    by (simp add: open_session_eq sidToSession_def Let_def)
  show "sidToSession (s_sid ?s) (open_session env auth xmitSeq maxPriv user i l) = Some i"
    using sreg.slot_of_put_same [OF wf i(1) fits] by (simp add: same opened_def)
  show "sid \<noteq> s_sid ?s \<Longrightarrow> sidToSession sid (open_session env auth xmitSeq maxPriv user i l)
      = sidToSession sid l"
    using sreg.slot_of_put_other [OF wf i(1) fits] i(2) by (simp add: same)
qed

text \<open>
  The two ways a successful activation changes the session table: it opens a session (all the
  guards of the code hold) or it renumbers the session the request came on.
\<close>

definition activation_granted :: "msgT \<Rightarrow> lanservT \<Rightarrow> bool" where
  "activation_granted msg l \<longleftrightarrow>
     (let u = unat (drop_bit 1 (m_sid msg) AND USER_MASK); user = l_users l ! u;
          auth = arr (m_data msg) (m_dataStart msg) AND 0xf
      in 22 \<le> m_dataLen msg \<and> rs_sid (m_session msg) AND 1 = 1 \<and> u \<noteq> 0 \<and> u_valid user \<and>
         u_allowedAuths user AND push_bit (unat auth) 1 \<noteq> 0 \<and>
         u_allowedAuths user AND push_bit (unat (m_authtype msg)) 1 \<noteq> 0 \<and>
         l_activeSessions l < 16 \<and> getUint32 (m_data msg) (m_dataStart msg + 18) \<noteq> 0 \<and>
         u_privilege user \<noteq> 0xf \<and>
         arr (m_data msg) (m_dataStart msg + 1) AND 0xf \<le> u_maxPriv user)"

definition opened_by :: "goenv \<Rightarrow> msgT \<Rightarrow> nat \<Rightarrow> lanservT \<Rightarrow> lanservT" where
  "opened_by env msg i l = open_session env (arr (m_data msg) (m_dataStart msg) AND 0xf)
     (getUint32 (m_data msg) (m_dataStart msg + 18))
     (arr (m_data msg) (m_dataStart msg + 1) AND 0xf)
     (l_users l ! unat (drop_bit 1 (m_sid msg) AND USER_MASK)) i l"

lemma user_index_small: "unat (drop_bit 1 (sid :: u32) AND USER_MASK) < 64"
proof -
  have "drop_bit 1 sid AND USER_MASK = take_bit 6 (drop_bit 1 sid)"
    by (simp add: protodefs mask6 take_bit_eq_mask)
  moreover have "unat (take_bit 6 (drop_bit 1 sid)) < 64"
    using take_bit_nat_less_exp [of 6 "unat (drop_bit 1 sid)"] by (simp add: unsigned_take_bit_eq)
  ultimately show ?thesis by simp
qed

lemma activateSession_temp_sid:
  assumes "rs_sid (m_session msg) AND 1 = 1" "activateSession env msg w = Inr w'"
  shows "if activation_granted msg (w_lan w) \<and> findFreeSession (w_lan w) \<noteq> None
         then w_lan w' = opened_by env msg (the (findFreeSession (w_lan w))) (w_lan w)
         else w_lan w' = w_lan w"
proof -
  have u: "\<not> drop_bit 1 (m_sid msg) AND USER_MASK > of_nat MAX_USERS"
    using user_index_small [of "m_sid msg"] by (simp add: word_less_nat_alt protodefs)
  show ?thesis
    using assms u
    by (auto simp: activateSession_def activation_granted_def opened_by_def Let_def MAX_SESSIONS_def
        unat_eq_0 not_le
        split: if_splits option.splits dest!: returnErr_local returnRspData_local)
qed

lemma activateSession_lan_inv:
  assumes run: "activateSession env msg w = Inr w'" and inv: "lan_inv (w_lan w)"
  shows "lan_inv (w_lan w')"
proof (cases "rs_sid (m_session msg) AND 1 = 1")
  case True
  show ?thesis
  proof (cases "activation_granted msg (w_lan w) \<and> findFreeSession (w_lan w) \<noteq> None")
    case granted: True
    then obtain i where i: "findFreeSession (w_lan w) = Some i" by auto
    let ?u = "unat (drop_bit 1 (m_sid msg) AND USER_MASK)"
    have "?u = 1 \<or> ?u = 2"
      using granted user_index_small [of "m_sid msg"] lan_invD(3) [OF inv]
      by (intro valid_user_index) (auto simp: activation_granted_def Let_def)
    then have "lan_inv (opened_by env msg i (w_lan w))"
      unfolding opened_by_def
      by (intro open_session_lan_inv inv i)
        (use granted in \<open>auto simp: activation_granted_def Let_def word_less_nat_alt\<close>)
    with activateSession_temp_sid [OF True run] granted i show ?thesis by simp
  next
    case False
    with activateSession_temp_sid [OF True run] inv show ?thesis by auto
  qed
next
  case False
  show ?thesis
  proof (cases "m_dataLen msg < 22 \<or> sidToSession (m_sid msg) (w_lan w) = None")
    case True
    with False run inv show ?thesis by (auto simp: activateSession_def split: if_splits)
  next
    case granted: False
    then obtain i where i: "sidToSession (m_sid msg) (w_lan w) = Some i" by auto
    let ?s = "(l_sessions (w_lan w) ! i)\<lparr>s_xmitSeq := getUint32 (m_data msg) 18\<rparr>"
    have iv: "valid_slot i" "s_active (l_sessions (w_lan w) ! i)"
      using i by (simp_all add: sidToSession_iff lan_invD(1) [OF inv])
    then have "lan_inv (put_session i ?s (w_lan w))"
      using lan_invD(7) [OF inv iv] by (intro lan_inv_update inv) (simp_all add: session_ok_def)
    moreover have "ref_ok (put_session i ?s (w_lan w)) (Some (Slot i))"
      using iv table_wfD(1) [OF lan_invD(1) [OF inv]]
      by (simp add: ref_ok_def valid_slot_def protodefs)
    moreover obtain d where "returnRspData msg (Some (Slot i)) d 11
        (w\<lparr>w_lan := put_session i ?s (w_lan w)\<rparr>) = Inr w'"
      using False granted i run by (auto simp: activateSession_def Let_def)
    ultimately show ?thesis
      using returnRspData_lan_inv by fastforce
  qed
qed

text \<open>Privilege change and close.\<close>

lemma user_level_le: "IPMI_PRIVILEGE_USER \<le> p \<longleftrightarrow> p \<noteq> 0 \<and> p \<noteq> IPMI_PRIVILEGE_CALLBACK"
proof -
  have "(q < 2) = (q = 0 \<or> q = 1)" for q :: u8
    by (auto simp: word_less_nat_alt word_unat_eq_iff less_2_cases_iff)
  then show ?thesis by (auto simp: protodefs not_less [symmetric])
qed

lemma setSessionPrivilege_lan_inv:
  assumes run: "setSessionPrivilege env msg w = Inr w'" and inv: "lan_inv (w_lan w)"
  shows "lan_inv (w_lan w')"
proof (cases "sidToSession (m_sid msg) (w_lan w)")
  case None
  with run inv show ?thesis
    by (auto simp: setSessionPrivilege_def split: if_splits dest: returnErr_lan_inv)
next
  case (Some i)
  let ?s = "l_sessions (w_lan w) ! i"
  let ?p = "arr (m_data msg) (m_dataStart msg) AND 0xf"
  let ?p' = "if ?p = 0 then s_priv ?s else ?p"
  let ?l' = "put_session i (?s\<lparr>s_priv := ?p'\<rparr>) (w_lan w)"
  note ref = ref_ok_lookup [OF inv Some]
  have i: "valid_slot i" "s_active ?s"
    using ref by (simp_all add: ref_ok_def)
  consider "w_lan w' = w_lan w" | e where "returnErr msg (Some (Slot i)) e w = Inr w'"
    | e where "returnErr msg None e w = Inr w'"
    | "?p' \<noteq> IPMI_PRIVILEGE_CALLBACK" "\<not> ?p' > s_maxPriv ?s"
      "returnRspData msg (Some (Slot i)) [0, ?p'] 2 (w\<lparr>w_lan := ?l'\<rparr>) = Inr w'"
    using run Some by (auto simp: setSessionPrivilege_def Let_def split: if_splits)
  then show ?thesis
  proof cases
    case 4
    have "session_ok (w_lan w) (?s\<lparr>s_priv := ?p'\<rparr>)"
      using 4 lan_invD(7) [OF inv i]
      by (auto simp: session_ok_def user_level_le not_less split: if_splits)
    then have "lan_inv ?l'"
      using i by (intro lan_inv_update inv) simp_all
    moreover have "ref_ok ?l' (Some (Slot i))"
      using i table_wfD(1) [OF lan_invD(1) [OF inv]]
      by (simp add: ref_ok_def valid_slot_def protodefs)
    ultimately show ?thesis
      using returnRspData_lan_inv [OF 4(3)] by simp
  qed (use inv ref returnErr_lan_inv in auto)
qed

lemma active_count_pos:
  assumes "table_wf l" "valid_slot i" "s_active (l_sessions l ! i)"
  shows "0 < active_count l"
proof -
  have "i < length (l_sessions l)"
    using assms table_wfD(1) [of l] by (simp add: valid_slot_def protodefs)
  with assms(3) show ?thesis
    by (auto simp: active_count_def filter_empty_conv intro: bexI [OF _ nth_mem])
qed

lemma free_session_lan_inv:
  assumes inv: "lan_inv l" and t: "valid_slot t" "s_active (l_sessions l ! t)"
  shows "lan_inv (free_session t l)"
  unfolding free_session_def
proof (intro lan_inv_put inv t)
  note wf = lan_invD(1) [OF inv]
  show "session_fits t ((l_sessions l ! t)\<lparr>s_active := False\<rparr>)"
    using table_wfD(3) [OF wf t(1)] by (simp add: session_fits_def)
  have "0 < unat (l_activeSessions l)"
    using active_count_pos [OF wf t] lan_invD(2) [OF inv] by simp
  then have "unat (l_activeSessions l - 1) + 1 = unat (l_activeSessions l)"
    by (metis Suc_diff_1 Suc_eq_plus1 unat_gt_0 unat_minus_one)
  then show "unat (l_activeSessions l - 1) + (if s_active (l_sessions l ! t) then 1 else 0) =
      unat (l_activeSessions l) + (if s_active ((l_sessions l ! t)\<lparr>s_active := False\<rparr>) then 1 else 0)"
    using t by simp
qed simp

lemma closeSession_cases:
  assumes run: "closeSession env msg w = Inr w'" and inv: "lan_inv (w_lan w)"
  obtains (refused) session e where "ref_ok (w_lan w) session" "returnErr msg session e w = Inr w'"
  | (closed) i t where "sidToSession (m_sid msg) (w_lan w) = Some i"
      "sidToSession (getUint32 (m_data msg) (m_dataStart msg)) (w_lan w) = Some t"
      "t = i \<or> s_priv (l_sessions (w_lan w) ! i) = IPMI_PRIVILEGE_ADMIN"
      "close_target msg i t w = Inr w'"
proof (cases "sidToSession (m_sid msg) (w_lan w)")
  case None
  with run refused [of None] show ?thesis
    by (auto simp: closeSession_def split: if_splits)
next
  case (Some i)
  have ref: "ref_ok (w_lan w) (Some (Slot i))" using inv Some by (rule ref_ok_lookup)
  have sid: "s_sid (l_sessions (w_lan w) ! i) = m_sid msg"
    using Some by (simp add: sidToSession_iff lan_invD(1) [OF inv])
  show ?thesis
    using run Some ref sid refused [OF ref] closed [OF Some]
    by (auto simp: closeSession_def Let_def split: if_splits option.splits)
qed

lemma close_target_effect:
  assumes run: "close_target msg i t w = Inr w'" and inv: "lan_inv (w_lan w)"
    and i: "sidToSession (m_sid msg) (w_lan w) = Some i"
    and t: "sidToSession sid (w_lan w) = Some t"
  shows "lan_inv (w_lan w')" "\<not> s_active (l_sessions (w_lan w') ! t)"
    "sidToSession sid (w_lan w') = None"
    "sid' \<noteq> sid \<Longrightarrow> sidToSession sid' (w_lan w') = sidToSession sid' (w_lan w)"
    "l_activeSessions (w_lan w') = l_activeSessions (w_lan w) - 1"
proof -
  obtain v where v: "returnErr msg (Some (Slot i)) 0 w = Inr v"
      "w' = v\<lparr>w_lan := free_session t (w_lan v)\<rparr>"
    using run by (auto simp: close_target_def)
  note same = returnErr_sessions [OF v(1)]
  have vinv: "lan_inv (w_lan v)"
    using v(1) inv ref_ok_lookup [OF inv i] by (rule returnErr_lan_inv)
  note wf = lan_invD(1) [OF vinv]
  have vt: "sidToSession sid (w_lan v) = Some t" using t same(5) by simp
  then have tv: "valid_slot t" "s_active (l_sessions (w_lan v) ! t)" "s_sid (l_sessions (w_lan v) ! t) = sid"
    by (simp_all add: sidToSession_iff wf)
  let ?s = "(l_sessions (w_lan v) ! t)\<lparr>s_active := False\<rparr>"
  have fits: "session_fits t ?s"
    using table_wfD(3) [OF wf tv(1)] by (simp add: session_fits_def)
  have look: "sidToSession x (w_lan w') = sidToSession x (put_session t ?s (w_lan v))" for x
    by (simp add: v(2) free_session_def sidToSession_def Let_def)
  show "lan_inv (w_lan w')"
    using free_session_lan_inv [OF vinv tv(1,2)] v(2) by simp
  show "\<not> s_active (l_sessions (w_lan w') ! t)"
    using tv(1) table_wfD(1) [OF wf] by (simp add: v(2) free_session_def valid_slot_def protodefs)
  show "sidToSession sid (w_lan w') = None"
    using sreg.slot_of_closed [OF wf vt fits] by (simp add: look)
  show "sidToSession sid' (w_lan w') = sidToSession sid' (w_lan w)" if "sid' \<noteq> sid"
    using sreg.slot_of_put_other [OF wf tv(1) fits, of sid'] that tv(3) same(5)
    by (simp add: look)
  show "l_activeSessions (w_lan w') = l_activeSessions (w_lan w) - 1"
    by (simp add: v(2) free_session_def same(4))
qed

lemma closeSession_lan_inv:
  assumes run: "closeSession env msg w = Inr w'" and inv: "lan_inv (w_lan w)"
  shows "lan_inv (w_lan w')"
  using run inv
  by (cases rule: closeSession_cases) (auto intro: returnErr_lan_inv close_target_effect(1) inv)

section \<open>Properties\<close>

text \<open>A request to activate a session for user 2, for the witness.\<close>

definition demo_activation :: msgT where
  "demo_activation = demo_msg 5 ([0, 3] @ replicate 16 0 @ [5, 0xb5, 0x2f, 0x3c])"

lemma demo_granted: "activation_granted demo_activation (w_lan demo_world)"
  by code_simp

lemma rsp_session_temp:
  "m_sid msg \<noteq> 0 \<Longrightarrow> \<not> s_rmcpplus d \<Longrightarrow> rsp_session msg (Some (Local d)) l = Some (Local d)"
  by (simp add: rsp_session_def)

lemma unlisted_sid:
  assumes "lan_inv l" "valid_slot i" "\<not> s_active (l_sessions l ! i)" "sid_index sid = of_nat i"
  shows "sidToSession sid l = None"
proof (rule ccontr)
  assume "sidToSession sid l \<noteq> None"
  then obtain j where j: "sidToSession sid l = Some j" by blast
  then have "j = unat (sid_index sid)" "s_active (l_sessions l ! j)"
    by (rule sidToSession_SomeD)+
  moreover have "unat (sid_index sid) = i"
    using assms(2,4) by (simp add: valid_slot_def protodefs unat_of_nat)
  ultimately show False using assms(3) by simp
qed

lemma opened_active: "s_active (opened env auth xmitSeq maxPriv user i l)"
  by (simp add: opened_def)

lemma length_activate_rsp [simp]: "length (activate_rsp s) = 11"
  by (simp add: activate_rsp_def)

lemma opened_unlisted:
  assumes "lan_inv l" "findFreeSession l = Some i"
  shows "sidToSession (s_sid (opened env auth xmitSeq maxPriv user i l)) l = None"
proof (rule unlisted_sid [OF assms(1) findFreeSession_SomeD(1,2) [OF assms(2)]])
  show "sid_index (s_sid (opened env auth xmitSeq maxPriv user i l)) = of_nat i"
    using opened_fits [OF lan_invD(1) [OF assms(1)] findFreeSession_SomeD(1) [OF assms(2)]]
    by (simp add: session_fits_def opened_active)
qed

text \<open>What a granted request computes: the new table and one reply on the temporary session.\<close>

definition temp_session :: "msgT \<Rightarrow> sessionT" where
  "temp_session msg = zero_session\<lparr>s_active := True, s_authtype := m_authtype msg,
     s_xmitSeq := getUint32 (m_data msg) (m_dataStart msg + 18), s_sid := m_sid msg\<rparr>"

lemma activateSession_granted:
  assumes granted: "activation_granted msg (w_lan w)" and i: "findFreeSession (w_lan w) = Some i"
    and sid: "m_sid msg = rs_sid (m_session msg)"
  obtains rsp where
    "activateSession env msg w = Inr (send_to (m_remoteAddr msg) (rsp_packet msg (temp_session msg) rsp)
       (w\<lparr>w_lan := opened_by env msg i (w_lan w)\<rparr>))"
    "rsp_payload rsp = activate_rsp (l_sessions (opened_by env msg i (w_lan w)) ! i)"
    "p_netfn rsp = rm_netfn (m_message msg) OR 1" "p_cmd rsp = rm_cmd (m_message msg)"
    "p_dataLen rsp = 11"
proof
  let ?s = "l_sessions (opened_by env msg i (w_lan w)) ! i"
  let ?rsp = "\<lparr>p_netfn = rm_netfn (m_message msg) OR 1, p_cmd = rm_cmd (m_message msg),
      p_dataLen = 11, p_data = gslice (activate_rsp ?s) 0 11\<rparr>"
  have user: "\<not> drop_bit 1 (m_sid msg) AND USER_MASK > of_nat MAX_USERS"
    using user_index_small [of "m_sid msg"] by (simp add: word_less_nat_alt protodefs)
  have "activateSession env msg w = returnRspData msg (Some (Local (temp_session msg)))
      (activate_rsp ?s) 11 (w\<lparr>w_lan := opened_by env msg i (w_lan w)\<rparr>)"
    using granted i user by (auto simp: activateSession_def activation_granted_def opened_by_def
        Let_def MAX_SESSIONS_def unat_eq_0 not_le not_less temp_session_def)
  moreover have "m_sid msg \<noteq> 0"
    using granted sid by (auto simp: activation_granted_def Let_def)
  ultimately show "activateSession env msg w = Inr (send_to (m_remoteAddr msg)
      (rsp_packet msg (temp_session msg) ?rsp) (w\<lparr>w_lan := opened_by env msg i (w_lan w)\<rparr>))"
    by (simp add: returnRspData_def returnRsp_small rsp_session_temp Let_def temp_session_def
        zero_session_def)
  show "rsp_payload ?rsp = activate_rsp ?s"
    using rsp_payload_list [of "activate_rsp ?s" 11] by simp
qed simp_all

text \<open>C6: A granted activation request opens exactly one new session. In a well-formed server the
  request does not panic; a free slot becomes active at USER level with the requested maximal
  privilege; its fresh session id was unknown before and now finds that slot; every other
  session id finds what it found before; the count of active sessions grows by one; and one
  reply goes to the sender, on the temporary session, carrying the new session's id.\<close>

theorem activate_opens_session:
  assumes inv: "lan_inv (w_lan w)" and granted: "activation_granted msg (w_lan w)"
    and sid: "m_sid msg = rs_sid (m_session msg)"
  shows "\<exists>i w' d rsp. activateSession env msg w = Inr w' \<and>
    valid_slot i \<and> \<not> s_active (l_sessions (w_lan w) ! i) \<and>
    (let s = l_sessions (w_lan w') ! i in
       s_active s \<and> s_priv s = IPMI_PRIVILEGE_USER \<and>
       s_maxPriv s = arr (m_data msg) (m_dataStart msg + 1) AND 0xf \<and>
       sidToSession (s_sid s) (w_lan w) = None \<and> sidToSession (s_sid s) (w_lan w') = Some i \<and>
       (\<forall>sid. sid \<noteq> s_sid s \<longrightarrow> sidToSession sid (w_lan w') = sidToSession sid (w_lan w)) \<and>
       active_count (w_lan w') = active_count (w_lan w) + 1 \<and>
       w_sent w' = w_sent w @ [(m_remoteAddr msg, rsp_packet msg d rsp)] \<and>
       s_sid d = m_sid msg \<and> rsp_payload rsp = activate_rsp s)"
proof -
  obtain i where i: "findFreeSession (w_lan w) = Some i"
    using granted free_slot_exists [OF inv] by (auto simp: activation_granted_def Let_def word_less_nat_alt)
  obtain rsp where run: "activateSession env msg w = Inr (send_to (m_remoteAddr msg)
      (rsp_packet msg (temp_session msg) rsp) (w\<lparr>w_lan := opened_by env msg i (w_lan w)\<rparr>))" (is "_ = Inr ?w'")
    and payload: "rsp_payload rsp = activate_rsp (l_sessions (opened_by env msg i (w_lan w)) ! i)"
    using activateSession_granted [OF granted i sid] by blast
  have slot: "valid_slot i" "\<not> s_active (l_sessions (w_lan w) ! i)"
    using findFreeSession_SomeD [OF i] by simp_all
  have inv': "lan_inv (w_lan ?w')" using run inv by (rule activateSession_lan_inv)
  have "l_activeSessions (w_lan ?w') = l_activeSessions (w_lan w) + 1"
    by (simp add: opened_by_def open_session_eq)
  then have count: "active_count (w_lan ?w') = active_count (w_lan w) + 1"
    using granted lan_invD(2) [OF inv] lan_invD(2) [OF inv']
    by (simp add: unat_succ_small word_less_nat_alt activation_granted_def Let_def)
  have len: "i < length (l_sessions (w_lan w))"
    using slot(1) table_wfD(1) [OF lan_invD(1) [OF inv]] by (simp add: valid_slot_def protodefs)
  show ?thesis
    using run payload slot count len open_session_lookup [OF inv i] opened_unlisted [OF inv i]
    by (intro exI [of _ i] exI [of _ ?w'] exI [of _ "temp_session msg"] exI [of _ rsp])
      (simp add: Let_def opened_by_def open_session_eq opened_def temp_session_def)
qed

theorem activate_opens_session_witness:
  "lan_inv (w_lan demo_world) \<and> activation_granted demo_activation (w_lan demo_world) \<and>
   (\<exists>w'. activateSession demo_env demo_activation demo_world = Inr w' \<and>
         active_count (w_lan w') = active_count (w_lan demo_world) + 1)"
proof -
  have inv: "lan_inv (w_lan demo_world)"
    by (simp add: demo_world_def lan_inv_init)
  have "m_sid demo_activation = rs_sid (m_session demo_activation)"
    by (simp add: demo_activation_def demo_msg_def)
  from activate_opens_session [OF inv demo_granted this, of demo_env] inv demo_granted
  show ?thesis by (auto simp: Let_def)
qed

end
