(* ===== verification/Repo_Common.thy ===== *)
theory Repo_Common
  imports Ipmi_Wire
begin

text \<open>
  The reservation scheme that the SDR repository and the event log share: a reserve command
  draws the next 16-bit reservation id (never 0), and a request that names a reservation is
  accepted only if it names the current one, or 0 for none. The locale \<open>reservable\<close> is the
  contract; both repositories interpret it.
\<close>

definition next_reservation :: "u16 \<Rightarrow> u16" where
  "next_reservation r = (let r = r + 1 in if r = 0 then r + 1 else r)"

definition reservation_mismatch :: "u16 \<Rightarrow> u16 \<Rightarrow> bool" where
  "reservation_mismatch reservation current \<longleftrightarrow> reservation \<noteq> 0 \<and> reservation \<noteq> current"

lemma next_reservation_nonzero: "next_reservation r \<noteq> 0"
  by (simp add: next_reservation_def Let_def)

lemma next_reservation_changes: "next_reservation r \<noteq> r"
  by (auto simp: next_reservation_def Let_def)

locale reservable =
  fixes current :: "'r \<Rightarrow> u16" and reserve :: "'r \<Rightarrow> 'r"
  assumes current_reserve: "current (reserve r) = next_reservation (current r)"
begin

lemma reserve_accepts_new: "\<not> reservation_mismatch (current (reserve r)) (current (reserve r))"
  by (simp add: reservation_mismatch_def)

text \<open>A reservation taken before is refused from the next reserve command on.\<close>

lemma reserve_revokes_old:
  "current r \<noteq> 0 \<Longrightarrow> reservation_mismatch (current r) (current (reserve r))"
  using next_reservation_changes [of "current r"]
  by (auto simp: reservation_mismatch_def current_reserve)

lemma reserve_nonzero: "current (reserve r) \<noteq> 0"
  by (simp add: current_reserve next_reservation_nonzero)

end

text \<open>The guard on the bytes \<open>CLR\<close> and the operation byte that both clear commands check.\<close>

definition clr_mismatch :: "u8 list \<Rightarrow> nat \<Rightarrow> bool" where
  "clr_mismatch d dataStart \<longleftrightarrow> arr d (dataStart + 2) \<noteq> 0x43 \<or>
     arr d (dataStart + 3) \<noteq> 0x4C \<or> arr d (dataStart + 4) \<noteq> 0x52"

text \<open>Go's slice expression \<open>a[lo:hi]\<close> on an array of \<open>n\<close> bytes.\<close>

definition go_slice :: "nat \<Rightarrow> u8 list \<Rightarrow> nat \<Rightarrow> nat \<Rightarrow> u8 list go" where
  "go_slice n a lo hi = (if lo \<le> hi \<and> hi \<le> n then Inr (gslice a lo hi) else Inl SliceBoundsOutOfRange)"

definition fill :: "nat \<Rightarrow> u8 list \<Rightarrow> u8 list" where
  "fill n xs = take n (xs @ replicate n 0)"

lemma length_fill [simp]: "length (fill n xs) = n"
  by (simp add: fill_def)

lemma fill_pad: "length xs \<le> n \<Longrightarrow> fill n xs = xs @ replicate (n - length xs) 0"
  by (simp add: fill_def)

lemma arr_fill [simp]: "i < n \<Longrightarrow> arr (fill n xs) i = arr xs i"
  by (auto simp: fill_def arr_def nth_append)

text \<open>
  Both read commands cut the requested byte count to what the record holds behind the offset,
  with 8-bit arithmetic: \<open>offset + count\<close> wraps around at 256.
\<close>

definition clip_count :: "u8 \<Rightarrow> u8 \<Rightarrow> u8 \<Rightarrow> u8" where
  "clip_count offset count len = (if offset + count > len then len - offset else count)"

lemma clip_count_no_wrap:
  assumes "offset < len" "unat offset + unat count < 256"
  shows "unat (offset + clip_count offset count len) = min (unat offset + unat count) (unat len)"
    "unat offset + unat (clip_count offset count len) = min (unat offset + unat count) (unat len)"
proof -
  have sum: "unat (offset + count) = unat offset + unat count"
    using assms(2) by (simp add: unat_word_ariths)
  have diff: "unat (len - offset) = unat len - unat offset" "unat offset \<le> unat len"
    using assms(1) by (simp_all add: unat_sub word_le_nat_alt word_less_nat_alt)
  show "unat (offset + clip_count offset count len) = min (unat offset + unat count) (unat len)"
    using sum diff by (auto simp: clip_count_def word_less_nat_alt)
  show "unat offset + unat (clip_count offset count len) = min (unat offset + unat count) (unat len)"
    using sum diff by (auto simp: clip_count_def word_less_nat_alt)
qed

lemma clip_count_wrap:
  assumes "offset < len" "256 \<le> unat offset + unat count"
  shows "clip_count offset count len = count" "unat (offset + count) < unat offset"
proof -
  have small: "unat offset < 256" "unat count < 256"
    using unsigned_less [of offset] unsigned_less [of count] by simp_all
  then have "unat (offset + count) = unat offset + unat count - 256"
    using assms(2) by (simp add: unat_word_ariths mod_if)
  with small assms(2) show less: "unat (offset + count) < unat offset" by linarith
  then show "clip_count offset count len = count"
    using assms(1) by (auto simp: clip_count_def word_less_nat_alt)
qed

text \<open>So the slice that is copied out is in bounds exactly if offset and count do not wrap.\<close>

lemma clipped_slice:
  assumes "offset < len" "unat len \<le> n"
  shows "go_slice n a (unat offset) (unat (offset + clip_count offset count len)) =
    (if unat offset + unat count < 256
     then Inr (gslice a (unat offset) (min (unat offset + unat count) (unat len)))
     else Inl SliceBoundsOutOfRange)"
proof (cases "unat offset + unat count < 256")
  case True
  then show ?thesis
    using clip_count_no_wrap [OF assms(1) True] assms
    by (simp add: go_slice_def word_less_nat_alt)
next
  case False
  then have wrap: "256 \<le> unat offset + unat count" by simp
  then show ?thesis
    using clip_count_wrap [OF assms(1) wrap] by (simp add: go_slice_def)
qed

end
