(* ===== verification/Sel_Log.thy ===== *)
theory Sel_Log
  imports Repo_Common
begin

text \<open>
  The system event log: \<open>findSelEventByRecid\<close> and \<open>addToSel\<close> of \<open>bmc.go\<close> and the SEL commands of
  \<open>ipmi_internal_storage.go\<close>. The search for an unused record id is a loop over 16-bit ids that
  wraps around; its termination, and what it finds, are proved for every log.
\<close>

section \<open>Adding an entry\<close>

definition findSelEventByRecid :: "u16 \<Rightarrow> selEntryT list \<Rightarrow> nat option" where
  "findSelEventByRecid recordId entries =
     List.find (\<lambda>i. e_recordId (entries ! i) = recordId) [0..<length entries]"

lemma unat_minus_one_less: "(x :: 'a::len word) \<noteq> 0 \<Longrightarrow> unat (x - 1) < unat x"
  by (metis diff_less unat_gt_0 unat_minus_one zero_less_one)

text \<open>
  The loop of \<open>addToSel\<close>: from the candidate \<open>recordId\<close> and \<open>nextEntry\<close> to a usable record id
  (\<open>None\<close> when the candidates have come round to the start) and the new \<open>nextEntry\<close>.
\<close>

function sel_pick :: "selEntryT list \<Rightarrow> u16 \<Rightarrow> u16 \<Rightarrow> u16 \<Rightarrow> u16 option \<times> u16" where
  "sel_pick entries startRecordId recordId nextEntry =
     (if nextEntry = 0 \<or> findSelEventByRecid recordId entries \<noteq> None
      then (if nextEntry = startRecordId then (None, nextEntry + 1)
            else sel_pick entries startRecordId nextEntry (nextEntry + 1))
      else (Some recordId, nextEntry))"
  by pat_completeness auto

termination
proof (relation "measure (\<lambda>(entries, start, recordId, nextEntry). unat (start - nextEntry))")
  fix entries :: "selEntryT list" and start recordId nextEntry :: u16
  assume "nextEntry \<noteq> start"
  then have "unat (start - nextEntry - 1) < unat (start - nextEntry)"
    by (intro unat_minus_one_less) simp
  then show "((entries, start, nextEntry, nextEntry + 1), (entries, start, recordId, nextEntry))
      \<in> measure (\<lambda>(entries, start, recordId, nextEntry). unat (start - nextEntry))"
    by (simp add: algebra_simps)
qed simp

declare sel_pick.simps [simp del]

text \<open>
  The bytes of a new entry. A record type below \<open>0xe0\<close> is time-stamped and takes the record data
  from offset 7, others from offset 3; a record shorter than that offset panics.
\<close>

definition sel_bytes :: "u16 \<Rightarrow> u8 \<Rightarrow> u8 list \<Rightarrow> u32 \<Rightarrow> u8 list go" where
  "sel_bytes recordId recordType recordData now =
     (if recordType < 0xe0 then
        if length recordData < 7 then Inl SliceBoundsOutOfRange
        else Inr (fill 16 (putUint16 recordId @ [recordType] @ putUint32 now @ drop 7 recordData))
      else
        if length recordData < 3 then Inl SliceBoundsOutOfRange
        else Inr (fill 16 (putUint16 recordId @ [recordType] @ drop 3 recordData)))"

text \<open>The result is the new log, the error code (0 for none) and the record id.\<close>

definition addToSel :: "u8 \<Rightarrow> u8 list \<Rightarrow> u32 \<Rightarrow> selT \<Rightarrow> (selT \<times> u16 \<times> u16) go" where
  "addToSel recordType recordData now sl =
     (if sl_count sl \<ge> sl_maxCount sl then
        Inr (sl\<lparr>sl_flags := sl_flags sl OR 0x80\<rparr>, ucast IPMI_OUT_OF_SPACE_CC, 0)
      else
        let recordId = sl_nextEntry sl in
        case sel_pick (sl_entries sl) recordId recordId (recordId + 1) of
          (None, nextEntry) \<Rightarrow> Inr (sl\<lparr>sl_nextEntry := nextEntry\<rparr>, ucast IPMI_OUT_OF_SPACE_CC, 0)
        | (Some recordId, nextEntry) \<Rightarrow>
            go_bind (sel_bytes recordId recordType recordData now) (\<lambda>bytes.
              Inr (sl\<lparr>sl_entries := sl_entries sl @ [\<lparr>e_recordId = recordId, e_data = bytes\<rparr>],
                      sl_count := sl_count sl + 1, sl_nextEntry := nextEntry,
                      sl_lastAddTime := now\<rparr>, 0, recordId)))"

section \<open>Commands\<close>

definition set_sel :: "selT \<Rightarrow> world \<Rightarrow> world" where
  "set_sel sl w = w\<lparr>w_mc := (w_mc w)\<lparr>mc_sel := sl\<rparr>\<rparr>"

definition getSelInfo :: handler where
  "getSelInfo env msg w =
     (let sl = mc_sel (w_mc w) in
      returnRspData msg None
        ([0, 0x51] @ putUint16 (sl_count sl) @ putUint16 ((sl_maxCount sl - sl_count sl) * 16)
         @ putUint32 (sl_lastAddTime sl) @ putUint32 (sl_lastEraseTime sl) @ [sl_flags sl]) 15 w)"

definition reserve_sel :: "selT \<Rightarrow> selT" where
  "reserve_sel sl = sl\<lparr>sl_reservation := next_reservation (sl_reservation sl)\<rparr>"

definition reserveSel :: handler where
  "reserveSel env msg w =
     (let sl = reserve_sel (mc_sel (w_mc w)) in
      returnRspData msg None ([0] @ putUint16 (sl_reservation sl)) 3 (set_sel sl w))"

text \<open>The entry a request names, with the record id that follows it; a zero entry if none.\<close>

definition sel_lookup :: "u16 \<Rightarrow> selT \<Rightarrow> (selEntryT \<times> u16) go" where
  "sel_lookup recordId sl =
     (let entries = sl_entries sl in
      if recordId = 0 then
        if entries = [] then Inl IndexOutOfRange
        else Inr (entries ! 0, if sl_count sl - 1 > 0 then 2 else 0xffff)
      else if recordId = 0xffff then
        if unat (sl_count sl - 1) \<ge> length entries then Inl IndexOutOfRange
        else Inr (entries ! unat (sl_count sl - 1), 0xffff)
      else case findSelEventByRecid recordId entries of
        None \<Rightarrow> Inr (zero_selEntry, 0)
      | Some i \<Rightarrow> Inr (entries ! i, if i + 1 \<ge> unat (sl_count sl) then 0xffff else of_nat (i + 2)))"

definition getSelEntry :: handler where
  "getSelEntry env msg w =
     (let d = m_data msg; dataStart = m_dataStart msg; sl = mc_sel (w_mc w);
          recordId = getUint16 d (dataStart + 2);
          offset = arr d (dataStart + 4); count = arr d (dataStart + 5)
      in if reservation_mismatch (getUint16 d dataStart) (sl_reservation sl) then
           returnErr msg None IPMI_INVALID_RESERVATION_CC w
         else if offset \<ge> 16 then returnErr msg None IPMI_INVALID_DATA_FIELD_CC w
         else if sl_count sl = 0 then returnErr msg None IPMI_NOT_PRESENT_CC w
         else go_bind (sel_lookup recordId sl) (\<lambda>(entry, nextRecordId).
           if e_recordId entry = 0 then returnErr msg None IPMI_NOT_PRESENT_CC w
           else
             let count = clip_count offset count 16 in
             go_bind (go_slice 16 (e_data entry) (unat offset) (unat (offset + count))) (\<lambda>bytes.
               returnRspData msg None ([0] @ putUint16 nextRecordId @ bytes) (unat (count + 3)) w)))"

definition addSelEntry :: handler where
  "addSelEntry env msg w =
     (let d = m_data msg; dataStart = m_dataStart msg in
      go_bind (addToSel (arr d (dataStart + 2)) (gslice d (dataStart + 3) (dataStart + 16))
                 (g_now env) (mc_sel (w_mc w)))
        (\<lambda>(sl, err, r).
           if err \<noteq> 0 then returnErr msg None (ucast err) (set_sel sl w)
           else returnRspData msg None ([0] @ putUint16 r) 3 (set_sel sl w)))"

definition clear_sel :: "u32 \<Rightarrow> selT \<Rightarrow> selT" where
  "clear_sel now sl = sl\<lparr>sl_entries := replicate (unat (sl_maxCount sl)) zero_selEntry,
     sl_lastEraseTime := now, sl_flags := sl_flags sl AND NOT 0x80\<rparr>"

definition clearSel :: handler where
  "clearSel env msg w =
     (let d = m_data msg; dataStart = m_dataStart msg; sl = mc_sel (w_mc w);
          op = arr d (dataStart + 5)
      in if reservation_mismatch (getUint16 d dataStart) (sl_reservation sl) then
           returnErr msg None IPMI_INVALID_RESERVATION_CC w
         else if clr_mismatch d dataStart then returnErr msg None IPMI_INVALID_DATA_FIELD_CC w
         else if op \<noteq> 0 \<and> op \<noteq> 0xaa then returnErr msg None IPMI_INVALID_DATA_FIELD_CC w
         else returnRspData msg None [0, 1] 2
                (if op = 0xaa then set_sel (clear_sel (g_now env) sl) w else w))"

interpretation selr: reservable sl_reservation reserve_sel
  by unfold_locales (simp add: reserve_sel_def)

section \<open>What the search for a record id finds\<close>

definition id_taken :: "selEntryT list \<Rightarrow> u16 \<Rightarrow> bool" where
  "id_taken entries r \<longleftrightarrow> r \<in> e_recordId ` set entries"

lemma find_None_taken: "findSelEventByRecid r entries = None \<longleftrightarrow> \<not> id_taken entries r"
  by (auto simp: findSelEventByRecid_def find_None_iff id_taken_def in_set_conv_nth)
    (metis image_eqI nth_mem)

lemma find_SomeD:
  assumes "findSelEventByRecid r entries = Some i"
  shows "i < length entries" "e_recordId (entries ! i) = r"
  using assms by (auto simp: findSelEventByRecid_def find_Some_iff)

lemma word_between:
  fixes a b x :: "'a::len word"
  assumes "unat (x - a) < unat (b + 1 - a)" "\<not> unat (x - a) < unat (b - a)"
  shows "x = b"
proof -
  have step: "b + 1 - a = 1 + (b - a)" by (simp add: algebra_simps)
  moreover have "1 + (b - a) \<noteq> 0" using assms(1) step by (metis not_less_zero unat_0)
  ultimately have "unat (b + 1 - a) = Suc (unat (b - a))" using unatSuc [of "b - a"] by metis
  with assms have "unat (x - a) = unat (b - a)" by linarith
  then have "x - a = b - a" by (simp add: word_unat_eq_iff)
  then show ?thesis by (metis diff_add_cancel)
qed

text \<open>
  While it searches, every id between the start and the candidate is taken or is \<open>0xffff\<close>. So a
  record id it returns is unused and not \<open>0xffff\<close>, and when it gives up no id is left.
\<close>

lemma sel_pick_invariant:
  assumes "nextEntry = recordId + 1"
    and "\<forall>x. unat (x - start) < unat (recordId - start) \<longrightarrow> id_taken entries x \<or> x = 0xffff"
  shows "case sel_pick entries start recordId nextEntry of
      (Some r, n) \<Rightarrow> \<not> id_taken entries r \<and> r \<noteq> 0xffff \<and> n = r + 1
    | (None, n) \<Rightarrow> \<forall>x. id_taken entries x \<or> x = 0xffff"
  using assms
proof (induction entries start recordId nextEntry rule: sel_pick.induct)
  case (1 entries start recordId nextEntry)
  show ?case
  proof (cases "nextEntry = 0 \<or> findSelEventByRecid recordId entries \<noteq> None")
    case False
    then show ?thesis
      using "1.prems" by (subst sel_pick.simps) (auto simp: find_None_taken)
  next
    case True
    then have here: "id_taken entries recordId \<or> recordId = 0xffff"
      using "1.prems"(1) by (auto simp: find_None_taken eq_neg_iff_add_eq_0 [symmetric])
    show ?thesis
    proof (cases "nextEntry = start")
      case stop: True
      have "id_taken entries x \<or> x = 0xffff" for x
      proof (cases "unat (x - start) < unat (recordId - start)")
        case False
        have "recordId - start = - 1" using stop "1.prems"(1) by (simp add: algebra_simps)
        with False have "unat (x - start) = unat (- 1 :: u16)"
          by (metis le_antisym not_less unat_mono word_order.extremum word_le_nat_alt)
        then have "x - start = - 1" by (simp add: word_unat_eq_iff)
        then have "x = recordId" using \<open>recordId - start = - 1\<close> by (metis diff_add_cancel)
        with here show ?thesis by simp
      qed (use "1.prems"(2) in blast)
      with True stop show ?thesis by (subst sel_pick.simps) simp
    next
      case go: False
      have "id_taken entries x \<or> x = 0xffff"
        if "unat (x - start) < unat (nextEntry - start)" for x
      proof (cases "unat (x - start) < unat (recordId - start)")
        case False
        with that have "x = recordId"
          using "1.prems"(1) by (intro word_between [of x start recordId]) simp_all
        with here show ?thesis by simp
      qed (use "1.prems"(2) in blast)
      then have "case sel_pick entries start nextEntry (nextEntry + 1) of
          (Some r, n) \<Rightarrow> \<not> id_taken entries r \<and> r \<noteq> 0xffff \<and> n = r + 1
        | (None, n) \<Rightarrow> \<forall>x. id_taken entries x \<or> x = 0xffff"
        by (intro "1.IH" True go) auto
      with True go show ?thesis by (subst sel_pick.simps) simp
    qed
  qed
qed

lemma sel_pick_start:
  "case sel_pick entries start start (start + 1) of
      (Some r, n) \<Rightarrow> \<not> id_taken entries r \<and> r \<noteq> 0xffff \<and> n = r + 1
    | (None, n) \<Rightarrow> \<forall>x. id_taken entries x \<or> x = 0xffff"
  by (rule sel_pick_invariant) simp_all

lemma sel_pick_free:
  "\<not> id_taken entries start \<Longrightarrow> start \<noteq> 0xffff \<Longrightarrow>
   sel_pick entries start start (start + 1) = (Some start, start + 1)"
  by (subst sel_pick.simps) (auto simp: find_None_taken eq_neg_iff_add_eq_0 [symmetric])

lemma sel_pick_zero: "\<not> id_taken entries 0 \<Longrightarrow> sel_pick entries 0xffff 0xffff 0 = (Some 0, 1)"
  by (subst sel_pick.simps, subst sel_pick.simps) (simp add: find_None_taken)

section \<open>The invariant of the log\<close>

text \<open>
  A log that the program can reach holds at most its 1000 entries in \<open>count\<close>, hands out record
  ids in order from 1, and its entries are those still known, in order of their ids, behind the
  zero entries that the last clear left.
\<close>

definition entry_ok :: "selEntryT \<Rightarrow> bool" where
  "entry_ok e \<longleftrightarrow> length (e_data e) = 16 \<and> getUint16 (e_data e) 0 = e_recordId e"

definition sel_inv :: "selT \<Rightarrow> bool" where
  "sel_inv sl \<longleftrightarrow> sl_maxCount sl = 1000 \<and> unat (sl_count sl) \<le> 1000 \<and>
     sl_nextEntry sl = sl_count sl + 1 \<and>
     (\<exists>z recs. sl_entries sl = replicate z zero_selEntry @ recs \<and>
        (z = 0 \<and> length recs = unat (sl_count sl) \<or> z = 1000 \<and> length recs \<le> unat (sl_count sl)) \<and>
        map e_recordId recs = map of_nat [Suc (unat (sl_count sl) - length recs)..<Suc (unat (sl_count sl))] \<and>
        (\<forall>e \<in> set recs. entry_ok e))"

lemma sel_invE:
  assumes "sel_inv sl"
  obtains z recs where "sl_maxCount sl = 1000" "unat (sl_count sl) \<le> 1000"
    "sl_nextEntry sl = sl_count sl + 1" "sl_entries sl = replicate z zero_selEntry @ recs"
    "z = 0 \<and> length recs = unat (sl_count sl) \<or> z = 1000 \<and> length recs \<le> unat (sl_count sl)"
    "map e_recordId recs = map of_nat [Suc (unat (sl_count sl) - length recs)..<Suc (unat (sl_count sl))]"
    "\<forall>e \<in> set recs. entry_ok e"
  using assms unfolding sel_inv_def by blast

lemma sel_inv_fields [simp]:
  "sel_inv (sl\<lparr>sl_reservation := x\<rparr>) = sel_inv sl"
  "sel_inv (sl\<lparr>sl_flags := y\<rparr>) = sel_inv sl"
  by (simp_all add: sel_inv_def)

lemma zero_selEntry_fields [simp]: "e_recordId zero_selEntry = 0" "e_data zero_selEntry = replicate 16 0"
  by (simp_all add: zero_selEntry_def)

lemma sel_inv_ids:
  assumes "sel_inv sl" "e \<in> set (sl_entries sl)"
  shows "unat (e_recordId e) \<le> unat (sl_count sl)"
proof -
  obtain z recs where es: "sl_entries sl = replicate z zero_selEntry @ recs" and
    ids: "map e_recordId recs = map of_nat [Suc (unat (sl_count sl) - length recs)..<Suc (unat (sl_count sl))]"
    and le: "unat (sl_count sl) \<le> 1000"
    using assms(1) by (rule sel_invE)
  show ?thesis
  proof (cases "e \<in> set recs")
    case True
    then have "e_recordId e \<in> of_nat ` {Suc (unat (sl_count sl) - length recs)..<Suc (unat (sl_count sl))}"
      using ids by (metis image_eqI list.set_map set_upt)
    then show ?thesis using le by (auto simp: unat_of_nat)
  next
    case False
    with assms(2) es show ?thesis by auto
  qed
qed

lemma sel_inv_length: "sel_inv sl \<Longrightarrow> unat (sl_count sl) \<le> length (sl_entries sl)"
  by (erule sel_invE) auto

lemma sel_next_fresh:
  assumes "sel_inv sl"
  shows "\<not> id_taken (sl_entries sl) (sl_nextEntry sl)" "sl_nextEntry sl \<noteq> 0xffff"
    "unat (sl_nextEntry sl) = unat (sl_count sl) + 1"
proof -
  have le: "unat (sl_count sl) \<le> 1000" "sl_nextEntry sl = sl_count sl + 1"
    using assms by (auto simp: sel_inv_def)
  then show u: "unat (sl_nextEntry sl) = unat (sl_count sl) + 1"
    by (simp add: unat_word_ariths)
  then show "sl_nextEntry sl \<noteq> 0xffff"
    using le(1) by auto
  show "\<not> id_taken (sl_entries sl) (sl_nextEntry sl)"
    using sel_inv_ids [OF assms] u by (fastforce simp: id_taken_def)
qed

text \<open>Adding to a log with room: the next record id is used, the search loop is not entered.\<close>

lemma addToSel_room:
  assumes inv: "sel_inv sl" and room: "sl_count sl < 1000" and len: "7 \<le> length recordData"
  shows "\<exists>bytes. sel_bytes (sl_nextEntry sl) recordType recordData now = Inr bytes \<and>
    addToSel recordType recordData now sl =
      Inr (sl\<lparr>sl_entries := sl_entries sl @ [\<lparr>e_recordId = sl_nextEntry sl, e_data = bytes\<rparr>],
              sl_count := sl_count sl + 1, sl_nextEntry := sl_nextEntry sl + 1,
              sl_lastAddTime := now\<rparr>, 0, sl_nextEntry sl)"
proof -
  obtain bytes where b: "sel_bytes (sl_nextEntry sl) recordType recordData now = Inr bytes"
    using len by (cases "recordType < 0xe0") (auto simp: sel_bytes_def)
  have "\<not> sl_maxCount sl \<le> sl_count sl"
    using inv room by (simp add: sel_inv_def not_le)
  with b show ?thesis
    using sel_pick_free [OF sel_next_fresh(1,2) [OF inv]]
    by (auto simp: addToSel_def Let_def)
qed

lemma addToSel_full:
  assumes "sel_inv sl" "\<not> sl_count sl < 1000"
  shows "addToSel recordType recordData now sl = Inr (sl\<lparr>sl_flags := sl_flags sl OR 0x80\<rparr>, 0xC4, 0)"
  using assms by (simp add: addToSel_def sel_inv_def not_less protodefs)

lemma sel_bytes_ok:
  assumes "sel_bytes r t d now = Inr bytes"
  shows "length bytes = 16" "getUint16 bytes 0 = r" "arr bytes 2 = t"
proof -
  obtain rest where bytes: "bytes = fill 16 (putUint16 r @ t # rest)"
    using assms by (auto simp: sel_bytes_def split: if_splits)
  have "getUint16 bytes 0 = getUint16 ([] @ putUint16 r @ t # rest) (length ([] :: u8 list))"
    by (simp add: bytes getUint16_def)
  then show "getUint16 bytes 0 = r"
    using getUint16_put [of "[]" r "t # rest"] by simp
  show "length bytes = 16" "arr bytes 2 = t"
    by (simp_all add: bytes putUint16_def)
qed

lemma addToSel_inv:
  assumes inv: "sel_inv sl" and add: "addToSel t d now sl = Inr (sl', err, r)" and len: "7 \<le> length d"
  shows "sel_inv sl'"
proof (cases "sl_count sl < 1000")
  case False
  with addToSel_full [OF inv False] add show ?thesis
    using inv by auto
next
  case True
  obtain bytes where b: "sel_bytes (sl_nextEntry sl) t d now = Inr bytes" and
    sl': "sl' = sl\<lparr>sl_entries := sl_entries sl @ [\<lparr>e_recordId = sl_nextEntry sl, e_data = bytes\<rparr>],
              sl_count := sl_count sl + 1, sl_nextEntry := sl_nextEntry sl + 1, sl_lastAddTime := now\<rparr>"
    using addToSel_room [OF inv True len, of t now] add by auto
  let ?e = "\<lparr>e_recordId = sl_nextEntry sl, e_data = bytes\<rparr>" and ?c = "unat (sl_count sl)"
  have e: "entry_ok ?e" using sel_bytes_ok [OF b] by (simp add: entry_ok_def)
  have c: "unat (sl_count sl + 1) = Suc ?c" "?c < 1000"
    using True by (simp_all add: unat_word_ariths word_less_nat_alt)
  from inv obtain z recs where s: "sl_maxCount sl = 1000" "sl_nextEntry sl = sl_count sl + 1"
    "sl_entries sl = replicate z zero_selEntry @ recs"
    "z = 0 \<and> length recs = ?c \<or> z = 1000 \<and> length recs \<le> ?c"
    "map e_recordId recs = map of_nat [Suc (?c - length recs)..<Suc ?c]"
    "\<forall>e \<in> set recs. entry_ok e"
    by (rule sel_invE)
  have "map e_recordId (recs @ [?e]) = map of_nat [Suc (Suc ?c - length (recs @ [?e]))..<Suc (Suc ?c)]"
    using s(2,5) by (simp add: add.commute)
  then show ?thesis
    using s c e unfolding sel_inv_def sl'
    by (intro conjI exI [of _ z] exI [of _ "recs @ [?e]"]) auto
qed

lemma clear_sel_inv: "sel_inv sl \<Longrightarrow> sel_inv (clear_sel now sl)"
  unfolding sel_inv_def
  by (intro conjI exI [of _ 1000] exI [of _ "[]"]) (auto simp: clear_sel_def)

section \<open>Frame and invariant of the commands\<close>

lemma set_sel_fields [simp]:
  "w_lan (set_sel sl w) = w_lan w" "w_card (set_sel sl w) = w_card w"
  "w_ctx (set_sel sl w) = w_ctx w" "w_sent (set_sel sl w) = w_sent w"
  "mc_sel (w_mc (set_sel sl w)) = sl" "mc_mainSdrs (w_mc (set_sel sl w)) = mc_mainSdrs (w_mc w)"
  "mc_sensors (w_mc (set_sel sl w)) = mc_sensors (w_mc w)"
  by (simp_all add: set_sel_def)

text \<open>
  A SEL command answers at most once, to the sender, and touches only the log: through
  \<open>rsp_step\<close> from the state in which the log is already replaced.
\<close>

definition sel_frame :: "nat \<Rightarrow> world \<Rightarrow> world \<Rightarrow> bool" where
  "sel_frame addr w w' \<longleftrightarrow> (\<exists>sl. (sel_inv (mc_sel (w_mc w)) \<longrightarrow> sel_inv sl) \<and>
     rsp_step addr (set_sel sl w) w')"

lemma set_sel_same [simp]: "set_sel (mc_sel (w_mc w)) w = w"
  by (simp add: set_sel_def)

lemma sel_frame_rsp: "rsp_step addr w w' \<Longrightarrow> sel_frame addr w w'"
  unfolding sel_frame_def by (rule exI [of _ "mc_sel (w_mc w)"]) simp

lemma sel_frame_set:
  "(sel_inv (mc_sel (w_mc w)) \<Longrightarrow> sel_inv sl) \<Longrightarrow> rsp_step addr (set_sel sl w) w' \<Longrightarrow> sel_frame addr w w'"
  by (auto simp: sel_frame_def)

lemma sel_frame_add:
  "addToSel t d now (mc_sel (w_mc w)) = Inr (sl, e, r) \<Longrightarrow> 7 \<le> length d \<Longrightarrow>
   rsp_step addr (set_sel sl w) w' \<Longrightarrow> sel_frame addr w w'"
  by (rule sel_frame_set) (auto intro: addToSel_inv)

lemmas sel_replies = rsp_stepI [THEN sel_frame_rsp]

lemma sel_command_frame:
  "getSelInfo env msg w = Inr w' \<Longrightarrow> sel_frame (m_remoteAddr msg) w w'"
  "reserveSel env msg w = Inr w' \<Longrightarrow> sel_frame (m_remoteAddr msg) w w'"
  "getSelEntry env msg w = Inr w' \<Longrightarrow> sel_frame (m_remoteAddr msg) w w'"
  "clearSel env msg w = Inr w' \<Longrightarrow> sel_frame (m_remoteAddr msg) w w'"
  "addSelEntry env msg w = Inr w' \<Longrightarrow> sel_frame (m_remoteAddr msg) w w'"
proof -
  show "getSelInfo env msg w = Inr w' \<Longrightarrow> sel_frame (m_remoteAddr msg) w w'"
    by (auto simp: getSelInfo_def Let_def dest: sel_replies)
  show "reserveSel env msg w = Inr w' \<Longrightarrow> sel_frame (m_remoteAddr msg) w w'"
    by (rule sel_frame_set [of _ "reserve_sel (mc_sel (w_mc w))"])
      (auto simp: reserveSel_def Let_def reserve_sel_def dest: rsp_stepI)
  show "getSelEntry env msg w = Inr w' \<Longrightarrow> sel_frame (m_remoteAddr msg) w w'"
    by (auto simp: getSelEntry_def Let_def split: if_splits prod.splits dest: sel_replies)
  show "clearSel env msg w = Inr w' \<Longrightarrow> sel_frame (m_remoteAddr msg) w w'"
    by (auto simp: clearSel_def Let_def split: if_splits dest: sel_replies rsp_stepI
        intro: sel_frame_set clear_sel_inv)
  show "addSelEntry env msg w = Inr w' \<Longrightarrow> sel_frame (m_remoteAddr msg) w w'"
    using sel_frame_add [of "arr (m_data msg) (m_dataStart msg + 2)"
        "gslice (m_data msg) (m_dataStart msg + 3) (m_dataStart msg + 16)"]
    by (fastforce simp: addSelEntry_def Let_def split: if_splits prod.splits
        dest: rsp_stepI)
qed

section \<open>Looking entries up\<close>

lemma find_appended:
  assumes "\<not> id_taken entries r" "e_recordId e = r"
  shows "findSelEventByRecid r (entries @ [e]) = Some (length entries)"
proof -
  have "e_recordId (entries ! j) \<noteq> r" if "j < length entries" for j
    using assms(1) that by (auto simp: id_taken_def)
  then show ?thesis
    using assms(2) unfolding findSelEventByRecid_def find_Some_iff
    by (intro exI [of _ "length entries"]) (auto simp: nth_append)
qed

lemma sel_lookup_added:
  assumes inv: "sel_inv sl" and room: "sl_count sl < 1000" and len: "7 \<le> length d"
    and add: "addToSel t d now sl = Inr (sl', err, r)"
  obtains bytes where "err = 0" "r = sl_nextEntry sl" "sel_bytes r t d now = Inr bytes"
    "sel_lookup r sl' = Inr (\<lparr>e_recordId = r, e_data = bytes\<rparr>, 0xffff)"
proof -
  obtain bytes where b: "sel_bytes (sl_nextEntry sl) t d now = Inr bytes" and
    sl': "sl' = sl\<lparr>sl_entries := sl_entries sl @ [\<lparr>e_recordId = sl_nextEntry sl, e_data = bytes\<rparr>],
              sl_count := sl_count sl + 1, sl_nextEntry := sl_nextEntry sl + 1, sl_lastAddTime := now\<rparr>"
    and r: "err = 0" "r = sl_nextEntry sl"
    using addToSel_room [OF inv room len, of t now] add by auto
  note fresh = sel_next_fresh [OF inv]
  have "unat (sl_count sl + 1) \<le> Suc (length (sl_entries sl))"
    using sel_inv_length [OF inv] room by (simp add: unat_word_ariths word_less_nat_alt)
  moreover have "sl_nextEntry sl \<noteq> 0" using fresh(3) by auto
  ultimately have "sel_lookup r sl' = Inr (\<lparr>e_recordId = r, e_data = bytes\<rparr>, 0xffff)"
    using find_appended [OF fresh(1), of "\<lparr>e_recordId = r, e_data = bytes\<rparr>"] fresh(2) r
    by (simp add: sel_lookup_def sl' Let_def)
  with b r that show ?thesis by blast
qed

lemma sel_lookup_total:
  assumes "sel_inv sl" "sl_count sl \<noteq> 0"
  shows "\<exists>e n. sel_lookup r sl = Inr (e, n)"
proof -
  have "0 < unat (sl_count sl)" using assms(2) by (simp add: unat_gt_0)
  then have "unat (sl_count sl - 1) < length (sl_entries sl)"
    using sel_inv_length [OF assms(1)] assms(2) by (simp add: unat_minus_one)
  then show ?thesis
    by (auto simp: sel_lookup_def Let_def split: option.split)
qed

section \<open>Properties\<close>

text \<open>C20: Adding to the log, whatever its content, never reuses a record id. With record data of at least
  seven bytes there is no panic; on success the new entry is appended under an id that no entry had and
  that is not \<open>0xffff\<close>, and the count grows by one; a refusal means that the log is at its maximal
  count or that every id but \<open>0xffff\<close> is in use. The id 0, which a comment of the source calls invalid
  and jumped over, is not: a log with room whose next id is \<open>0xffff\<close> gives it to the new entry if
  no entry has it. In a reachable log, whose ids end at 1000, the id is the next one and not 0.\<close>

theorem addToSel_fresh_id:
  assumes "7 \<le> length recordData"
  shows "\<exists>sl' err r. addToSel recordType recordData now sl = Inr (sl', err, r) \<and>
    (if err = 0
     then \<not> id_taken (sl_entries sl) r \<and> r \<noteq> 0xffff \<and>
          (\<exists>bytes. sl_entries sl' = sl_entries sl @ [\<lparr>e_recordId = r, e_data = bytes\<rparr>]) \<and>
          sl_count sl' = sl_count sl + 1
     else sl_entries sl' = sl_entries sl \<and>
          (sl_maxCount sl \<le> sl_count sl \<or> (\<forall>x. id_taken (sl_entries sl) x \<or> x = 0xffff))) \<and>
    (sl_count sl < sl_maxCount sl \<and> sl_nextEntry sl = 0xffff \<and> \<not> id_taken (sl_entries sl) 0 \<longrightarrow> err = 0 \<and> r = 0) \<and>
    (sel_inv sl \<and> err = 0 \<longrightarrow> r = sl_nextEntry sl \<and> r \<noteq> 0)"
proof (cases "sl_maxCount sl \<le> sl_count sl")
  case True
  then have "\<not> sl_count sl < sl_maxCount sl" by simp
  with True show ?thesis by (simp add: addToSel_def protodefs)
next
  case False
  obtain pick n where p: "sel_pick (sl_entries sl) (sl_nextEntry sl) (sl_nextEntry sl) (sl_nextEntry sl + 1)
      = (pick, n)" by fastforce
  note found = sel_pick_start [of "sl_entries sl" "sl_nextEntry sl", unfolded p]
  have zero: "pick = Some 0" if "sl_nextEntry sl = 0xffff" "\<not> id_taken (sl_entries sl) 0"
  proof -
    have "sl_nextEntry sl + 1 = 0" using that(1) by (simp add: eq_neg_iff_add_eq_0 [symmetric])
    with p sel_pick_zero [OF that(2)] that(1) show ?thesis by (simp only: prod.inject)
  qed
  show ?thesis
  proof (cases pick)
    case None
    with p found False zero show ?thesis by (auto simp: addToSel_def Let_def protodefs)
  next
    case (Some r)
    obtain bytes where "sel_bytes r recordType recordData now = Inr bytes"
      using assms by (cases "recordType < 0xe0") (auto simp: sel_bytes_def)
    then have "addToSel recordType recordData now sl = Inr (sl\<lparr>sl_entries := sl_entries sl @ [\<lparr>e_recordId = r, e_data = bytes\<rparr>],
        sl_count := sl_count sl + 1, sl_nextEntry := n, sl_lastAddTime := now\<rparr>, 0, r)" (is "_ = Inr (?sl', 0, r)")
      using p False Some by (simp add: addToSel_def Let_def)
    moreover have "r = sl_nextEntry sl \<and> r \<noteq> 0" if inv: "sel_inv sl"
    proof -
      have "sl_count sl < 1000" using False inv by (simp add: sel_inv_def)
      from addToSel_room [OF inv this assms, of recordType now] calculation have "r = sl_nextEntry sl" by auto
      with sel_next_fresh(3) [OF inv] show ?thesis by auto
    qed
    ultimately show ?thesis using found Some zero by (intro exI [of _ ?sl'] exI [of _ 0] exI [of _ r]) auto
  qed
qed

definition demo_sel :: selT where
  "demo_sel = zero_sel\<lparr>sl_maxCount := 1000, sl_nextEntry := 1\<rparr>"

lemma demo_sel_inv: "sel_inv demo_sel"
  by (simp add: sel_inv_def demo_sel_def zero_sel_def)

definition demo_record :: "u8 list" where
  "demo_record = [1, 0, 2, 0, 0, 0, 0, 0x20, 0, 4, 1, 0x11, 1]"

lemma demo_room: "sl_count demo_sel < 1000" and demo_len: "7 \<le> length demo_record"
  by (simp_all add: demo_sel_def zero_sel_def demo_record_def)

lemma demo_added:
  obtains sl' bytes where "addToSel 2 demo_record 9 demo_sel = Inr (sl', 0, 1)" "sl_count sl' = 1"
    "sel_lookup 1 sl' = Inr (\<lparr>e_recordId = 1, e_data = bytes\<rparr>, 0xffff)" "sel_inv sl'"
proof -
  obtain sl' where add: "addToSel 2 demo_record 9 demo_sel = Inr (sl', 0, 1)" "sl_count sl' = 1"
    using addToSel_room [OF demo_sel_inv demo_room demo_len, of 2 9] by (auto simp: demo_sel_def zero_sel_def)
  obtain bytes where "sel_lookup 1 sl' = Inr (\<lparr>e_recordId = 1, e_data = bytes\<rparr>, 0xffff)"
    using sel_lookup_added [OF demo_sel_inv demo_room demo_len add(1)] by blast
  with add addToSel_inv [OF demo_sel_inv add(1) demo_len] that show ?thesis by blast
qed

theorem addToSel_fresh_id_witness:
  "\<exists>sl'. addToSel 2 demo_record 9 (demo_sel\<lparr>sl_nextEntry := 0xffff\<rparr>) = Inr (sl', 0, 0) \<and> sl_count sl' = 1"
proof -
  let ?sl = "demo_sel\<lparr>sl_nextEntry := 0xffff\<rparr>"
  have sl: "sl_count ?sl < sl_maxCount ?sl" "sl_count ?sl = 0" "sl_nextEntry ?sl = 0xffff" "\<not> id_taken (sl_entries ?sl) 0"
    by (simp_all add: demo_sel_def zero_sel_def id_taken_def)
  from addToSel_fresh_id [OF demo_len, of 2 9 ?sl] sl show ?thesis by auto
qed

text \<open>C11: An entry that was added can be read back. In a reachable log with room, adding succeeds with
  the next record id \<open>r\<close>, and a Get SEL Entry request for \<open>r\<close> (any reservation that is accepted,
  offset 0, count 255) replies with completion code 0, the next-record id \<open>0xffff\<close> and 16 bytes: \<open>r\<close>, the
  record type, and then for a time-stamped type the clock and the event data from its eighth byte on,
  for another type the event data from its fourth byte on, cut or filled with zeros.\<close>

theorem sel_add_get_roundtrip:
  assumes "sel_inv sl" "sl_count sl < 1000" "7 \<le> length d"
    and add: "addToSel t d now sl = Inr (sl', err, r)"
    and sel: "mc_sel (w_mc w) = sl'"
    and req: "getUint16 (m_data msg) (m_dataStart msg) = 0"
      "getUint16 (m_data msg) (m_dataStart msg + 2) = r"
      "arr (m_data msg) (m_dataStart msg + 4) = 0" "arr (m_data msg) (m_dataStart msg + 5) = 0xff"
  shows "err = 0 \<and> r = sl_nextEntry sl \<and>
    getSelEntry env msg w = returnRspData msg None ([0, 0xff, 0xff] @ take 16
      ((if t < 0xe0 then putUint16 r @ [t] @ putUint32 now @ drop 7 d else putUint16 r @ [t] @ drop 3 d)
       @ replicate 16 0)) 19 w"
proof -
  obtain bytes where b: "err = 0" "r = sl_nextEntry sl" "sel_bytes r t d now = Inr bytes"
    "sel_lookup r sl' = Inr (\<lparr>e_recordId = r, e_data = bytes\<rparr>, 0xffff)"
    using sel_lookup_added [OF assms(1-4)] by blast
  have "unat r = unat (sl_count sl) + 1" using sel_next_fresh(3) [OF assms(1)] b(2) by simp
  then have "r \<noteq> 0" by auto
  moreover have "sl_count sl' \<noteq> 0"
  proof -
    have "unat (sl_count sl + 1) = Suc (unat (sl_count sl))"
      using assms(2) by (simp add: unat_word_ariths word_less_nat_alt)
    moreover have "sl_count sl' = sl_count sl + 1"
      using addToSel_room [OF assms(1-3), of t now] add by auto
    ultimately show ?thesis by (metis nat.distinct(1) unat_0)
  qed
  moreover have "gslice bytes 0 16 = bytes"
    using gslice_whole [of bytes] sel_bytes_ok(1) [OF b(3)] by simp
  ultimately have "getSelEntry env msg w = returnRspData msg None ([0, 0xff, 0xff] @ bytes) 19 w"
    using b(4) sel req by (simp add: getSelEntry_def Let_def reservation_mismatch_def clip_count_def
        go_slice_def putUint16_max)
  moreover have "bytes = take 16 ((if t < 0xe0 then putUint16 r @ [t] @ putUint32 now @ drop 7 d
      else putUint16 r @ [t] @ drop 3 d) @ replicate 16 0)"
    using b(3) by (auto simp: sel_bytes_def fill_def split: if_splits)
  ultimately show ?thesis using b(1,2) by simp
qed

definition demo_sel_world :: world where
  "demo_sel_world = set_sel (case addToSel 2 demo_record 9 demo_sel of
     Inr (sl, err, r) \<Rightarrow> sl | Inl e \<Rightarrow> demo_sel) demo_world"

theorem sel_add_get_roundtrip_witness:
  "sel_inv demo_sel \<and>
     getSelEntry demo_env (demo_msg 0 [0, 0, 1, 0, 0, 0xff]) demo_sel_world =
       returnRspData (demo_msg 0 [0, 0, 1, 0, 0, 0xff]) None
         ([0, 0xff, 0xff] @ [1, 0, 2, 9, 0, 0, 0, 0x20, 0, 4, 1, 0x11, 1, 0, 0, 0]) 19 demo_sel_world"
proof -
  let ?msg = "demo_msg 0 [0, 0, 1, 0, 0, 0xff]"
  obtain sl' bytes where add: "addToSel 2 demo_record 9 demo_sel = Inr (sl', 0, 1)" and one: "sl_count sl' = 1"
    and look: "sel_lookup 1 sl' = Inr (\<lparr>e_recordId = 1, e_data = bytes\<rparr>, 0xffff)" and inv': "sel_inv sl'"
    by (rule demo_added)
  have sel: "mc_sel (w_mc demo_sel_world) = sl'"
    by (simp add: demo_sel_world_def add)
  have req: "getUint16 (m_data ?msg) (m_dataStart ?msg) = 0"
    "getUint16 (m_data ?msg) (m_dataStart ?msg + 2) = 1"
    "arr (m_data ?msg) (m_dataStart ?msg + 4) = 0" "arr (m_data ?msg) (m_dataStart ?msg + 5) = 0xff"
    by (simp_all add: demo_msg_def getUint16_def)
  show ?thesis
    using sel_add_get_roundtrip [OF demo_sel_inv demo_room demo_len add sel req, of demo_env] demo_sel_inv
    by (simp add: demo_record_def putUint16_def putUint32_def numeral_3_eq_3)
qed

text \<open>C28: When Get SEL Entry panics. In a reachable log the handler panics exactly for a request whose
  reservation is accepted, whose offset is below 16, which names an entry, and whose offset and
  byte count add up to 256 or more: the 8-bit sum then wraps past the length check and the slice
  bounds are reversed. Every other request is answered.\<close>

theorem getSelEntry_panic_iff:
  assumes inv: "sel_inv (mc_sel (w_mc w))"
  shows "(\<exists>e. getSelEntry env msg w = Inl e) \<longleftrightarrow>
    \<not> reservation_mismatch (getUint16 (m_data msg) (m_dataStart msg)) (sl_reservation (mc_sel (w_mc w))) \<and>
    arr (m_data msg) (m_dataStart msg + 4) < 16 \<and> sl_count (mc_sel (w_mc w)) \<noteq> 0 \<and>
    (\<exists>entry next. sel_lookup (getUint16 (m_data msg) (m_dataStart msg + 2)) (mc_sel (w_mc w))
        = Inr (entry, next) \<and> e_recordId entry \<noteq> 0) \<and>
    256 \<le> unat (arr (m_data msg) (m_dataStart msg + 4)) + unat (arr (m_data msg) (m_dataStart msg + 5))"
proof -
  let ?sl = "mc_sel (w_mc w)" and ?r = "getUint16 (m_data msg) (m_dataStart msg + 2)"
  let ?off = "arr (m_data msg) (m_dataStart msg + 4)" and ?cnt = "arr (m_data msg) (m_dataStart msg + 5)"
  have no_err: "returnErr msg None c w \<noteq> Inl e" for c e
    using returnErr_total [of msg None c w] by auto
  have no_data: "returnRspData msg None d (unat (x :: u8)) w \<noteq> Inl e" for d x e
    using returnRspData_total [of "unat x" msg None d w] unat_u8_less [of x] by auto
  show ?thesis
  proof (cases "sl_count ?sl = 0 \<or> \<not> ?off < 16 \<or>
      reservation_mismatch (getUint16 (m_data msg) (m_dataStart msg)) (sl_reservation ?sl)")
    case True
    then show ?thesis
      by (auto simp: getSelEntry_def Let_def no_err not_less)
  next
    case False
    obtain entry nxt where l: "sel_lookup ?r ?sl = Inr (entry, nxt)"
      using sel_lookup_total [OF inv] False by blast
    have cut: "go_slice 16 (e_data entry) (unat ?off) (unat (?off + clip_count ?off ?cnt 16)) =
      (if unat ?off + unat ?cnt < 256
       then Inr (gslice (e_data entry) (unat ?off) (min (unat ?off + unat ?cnt) (unat (16 :: u8))))
       else Inl SliceBoundsOutOfRange)"
      using False by (intro clipped_slice) simp_all
    show ?thesis
      using False l cut
      by (auto simp: getSelEntry_def Let_def no_err no_data not_less [symmetric])
  qed
qed

text \<open>The log after one record was added: the request that reads past offset 5 with count 255 panics.\<close>

lemma demo_sel_world_inv: "sel_inv (mc_sel (w_mc demo_sel_world))"
proof -
  obtain sl' bytes where add: "addToSel 2 demo_record 9 demo_sel = Inr (sl', 0, 1)" and one: "sl_count sl' = 1"
    and look: "sel_lookup 1 sl' = Inr (\<lparr>e_recordId = 1, e_data = bytes\<rparr>, 0xffff)" and inv': "sel_inv sl'"
    by (rule demo_added)
  then show ?thesis by (simp add: demo_sel_world_def add)
qed

theorem getSelEntry_panic_iff_witness:
  "sel_inv (mc_sel (w_mc demo_sel_world)) \<and>
   (\<exists>e. getSelEntry demo_env (demo_msg 0 [0, 0, 1, 0, 5, 0xff]) demo_sel_world = Inl e)"
proof -
  let ?msg = "demo_msg 0 [0, 0, 1, 0, 5, 0xff]"
  obtain sl' bytes where add: "addToSel 2 demo_record 9 demo_sel = Inr (sl', 0, 1)" and one: "sl_count sl' = 1"
    and look: "sel_lookup 1 sl' = Inr (\<lparr>e_recordId = 1, e_data = bytes\<rparr>, 0xffff)" and inv': "sel_inv sl'"
    by (rule demo_added)
  have sel: "mc_sel (w_mc demo_sel_world) = sl'" by (simp add: demo_sel_world_def add)
  from one getSelEntry_panic_iff [OF demo_sel_world_inv, of demo_env ?msg] look demo_sel_world_inv
  show ?thesis by (simp add: sel demo_msg_def getUint16_def reservation_mismatch_def)
qed

text \<open>C34: A full log stays full for ever. Clear SEL replaces the entries but not the count, so after a
  successful clear of a full reachable log every further Add SEL Entry request is refused with
  OUT OF SPACE, and Get SEL Info still reports 1000 entries and no free space.\<close>

theorem full_log_stays_full:
  assumes "sel_inv sl" "sl_count sl = 1000"
  shows "addToSel t d now' (clear_sel now sl) =
      Inr ((clear_sel now sl)\<lparr>sl_flags := sl_flags (clear_sel now sl) OR 0x80\<rparr>,
           ucast IPMI_OUT_OF_SPACE_CC, 0) \<and>
    getSelInfo env msg (set_sel (clear_sel now sl) w) =
      returnRspData msg None ([0, 0x51, 0xe8, 0x03, 0, 0] @ putUint32 (sl_lastAddTime sl)
        @ putUint32 now @ [sl_flags sl AND NOT 0x80]) 15 (set_sel (clear_sel now sl) w)"
proof -
  have full: "sl_count (clear_sel now sl) = 1000" using assms(2) by (simp add: clear_sel_def)
  have "putUint16 1000 = [0xe8, 0x03]" "putUint16 0 = [0, 0]" by code_simp+
  moreover have "sl_maxCount sl = 1000" using assms(1) by (simp add: sel_inv_def)
  ultimately show ?thesis
    using addToSel_full [OF clear_sel_inv [OF assms(1)]] full assms(2)
    by (simp add: getSelInfo_def Let_def clear_sel_def protodefs)
qed

definition demo_full_sel :: selT where
  "demo_full_sel = zero_sel\<lparr>sl_maxCount := 1000, sl_nextEntry := 1001, sl_count := 1000,
     sl_entries := replicate 1000 zero_selEntry\<rparr>"

theorem full_log_stays_full_witness:
  "sel_inv demo_full_sel \<and>
   (\<exists>sl. addToSel 2 demo_record 9 (clear_sel 8 demo_full_sel) = Inr (sl, ucast IPMI_OUT_OF_SPACE_CC, 0))"
proof -
  have inv: "sel_inv demo_full_sel"
    unfolding sel_inv_def
    by (intro conjI exI [of _ 1000] exI [of _ "[]"]) (simp_all add: demo_full_sel_def zero_sel_def)
  moreover have "sl_count demo_full_sel = 1000"
    by (simp add: demo_full_sel_def)
  ultimately show ?thesis
    using full_log_stays_full [of demo_full_sel 2 demo_record 9 8] by blast
qed

text \<open>C35: What Add SEL Entry stores of a time-stamped record. In a reachable log with room the entry gets
  the next id, the record type, the clock, and then bytes 10 to 15 of the request's record followed
  by three zero bytes: bytes 7 to 9 of the record (generator id and format revision) are lost
  and the event data is three bytes too early.\<close>

theorem addSelEntry_stores_shifted:
  assumes inv: "sel_inv (mc_sel (w_mc w))" and room: "sl_count (mc_sel (w_mc w)) < 1000"
    and type: "arr (m_data msg) (m_dataStart msg + 2) < 0xe0"
  shows "\<exists>w' r. addSelEntry env msg w = Inr w' \<and> r = sl_nextEntry (mc_sel (w_mc w)) \<and>
    sl_entries (mc_sel (w_mc w')) = sl_entries (mc_sel (w_mc w)) @ [\<lparr>e_recordId = r, e_data =
      putUint16 r @ [arr (m_data msg) (m_dataStart msg + 2)] @ putUint32 (g_now env)
      @ gslice (m_data msg) (m_dataStart msg + 10) (m_dataStart msg + 16) @ [0, 0, 0]\<rparr>]"
proof -
  let ?sl = "mc_sel (w_mc w)" and ?t = "arr (m_data msg) (m_dataStart msg + 2)"
  let ?d = "gslice (m_data msg) (m_dataStart msg + 3) (m_dataStart msg + 16)"
  let ?r = "sl_nextEntry ?sl"
  have drop: "drop 7 ?d = gslice (m_data msg) (m_dataStart msg + 10) (m_dataStart msg + 16)"
    by (rule nth_equalityI) (simp_all add: add.assoc)
  have zeros: "replicate 3 (0 :: u8) = [0, 0, 0]" by (simp add: numeral_3_eq_3)
  have bytes: "sel_bytes ?r ?t ?d (g_now env) = Inr (putUint16 ?r @ [?t] @ putUint32 (g_now env)
      @ gslice (m_data msg) (m_dataStart msg + 10) (m_dataStart msg + 16) @ [0, 0, 0])"
    using type zeros by (simp add: sel_bytes_def drop fill_pad)
  let ?e = "\<lparr>e_recordId = ?r, e_data = putUint16 ?r @ [?t] @ putUint32 (g_now env)
      @ gslice (m_data msg) (m_dataStart msg + 10) (m_dataStart msg + 16) @ [0, 0, 0]\<rparr>"
  let ?sl' = "?sl\<lparr>sl_entries := sl_entries ?sl @ [?e], sl_count := sl_count ?sl + 1,
      sl_nextEntry := ?r + 1, sl_lastAddTime := g_now env\<rparr>"
  obtain w' where w': "returnRspData msg None ([0] @ putUint16 ?r) 3 (set_sel ?sl' w) = Inr w'"
    using returnRspData_total [of 3] by fastforce
  then have "addSelEntry env msg w = Inr w'"
    using addToSel_room [OF inv room, of ?d ?t "g_now env"] bytes
    by (simp add: addSelEntry_def Let_def)
  moreover have "w_mc w' = w_mc (set_sel ?sl' w)"
    using returnRspData_frame [OF w'] by (simp add: rsp_frame_def)
  ultimately show ?thesis by simp
qed

theorem addSelEntry_stores_shifted_witness:
  "sel_inv (mc_sel (w_mc demo_sel_world)) \<and>
   (\<exists>w'. addSelEntry demo_env (demo_msg 0 [0, 0, 2, 3, 4, 5, 6, 7, 8, 9, 10, 11, 12, 13, 14, 15]) demo_sel_world = Inr w' \<and>
     length (sl_entries (mc_sel (w_mc w'))) = Suc (length (sl_entries (mc_sel (w_mc demo_sel_world)))))"
proof -
  obtain sl' bytes where add: "addToSel 2 demo_record 9 demo_sel = Inr (sl', 0, 1)" and one: "sl_count sl' = 1"
    and look: "sel_lookup 1 sl' = Inr (\<lparr>e_recordId = 1, e_data = bytes\<rparr>, 0xffff)" and inv': "sel_inv sl'"
    by (rule demo_added)
  from one have "sl_count (mc_sel (w_mc demo_sel_world)) < 1000"
    by (simp add: demo_sel_world_def add)
  from addSelEntry_stores_shifted [OF demo_sel_world_inv this, of "demo_msg 0 [0, 0, 2, 3, 4, 5, 6, 7, 8, 9, 10, 11, 12, 13, 14, 15]" demo_env]
  show ?thesis using demo_sel_world_inv by (auto simp: demo_msg_def)
qed

end
