(* ===== verification/Sdr_Repo.thy ===== *)
theory Sdr_Repo
  imports Repo_Common
begin

text \<open>
  The SDR repository: the repository commands of \<open>ipmi_internal_storage.go\<close> with \<open>newSdrEntry\<close>
  and \<open>addSdrEntry\<close>. The repository's linked list is the list of its records (see the theory
  \<open>Sdr_Chain\<close>); a found record is its position.
\<close>

definition set_sdrs :: "sdrsT \<Rightarrow> world \<Rightarrow> world" where
  "set_sdrs r w = w\<lparr>w_mc := (w_mc w)\<lparr>mc_mainSdrs := r\<rparr>\<rparr>"

section \<open>Searches\<close>

text \<open>The loop over \<open>next\<close> pointers that stops at the first record satisfying a test.\<close>

fun find_from :: "(sdrT \<Rightarrow> bool) \<Rightarrow> nat \<Rightarrow> sdrT list \<Rightarrow> nat option" where
  "find_from P i [] = None"
| "find_from P i (e # es) = (if P e then Some i else find_from P (Suc i) es)"

definition find_sensor :: "u8 \<Rightarrow> u8 \<Rightarrow> sdrT list \<Rightarrow> nat option" where
  "find_sensor lun sensNum sdrs = find_from (\<lambda>e. d_lun e = lun \<and> d_sensNum e = sensNum) 0 sdrs"

text \<open>The record that Get SDR names: 0 is the first, \<open>0xffff\<close> the last, others by record id.\<close>

definition sdr_lookup :: "u16 \<Rightarrow> sdrT list \<Rightarrow> nat option" where
  "sdr_lookup recordId sdrs =
     (if recordId = 0 then (if sdrs = [] then None else Some 0)
      else if recordId = 0xffff then (if sdrs = [] then None else Some (length sdrs - 1))
      else find_from (\<lambda>e. d_recordId e = recordId) 0 sdrs)"

section \<open>Commands\<close>

definition sdr_space :: "u16 \<Rightarrow> u16" where
  "sdr_space sdrCount = (let space = MAX_SDR_LENGTH * (MAX_NUM_SDRS - sdrCount)
     in if space > 0xfffe then 0xfffe else space)"

definition getSdrRepositoryInfo :: handler where
  "getSdrRepositoryInfo env msg w =
     (let r = mc_mainSdrs (w_mc w) in
      returnRspData msg None
        ([0, 0x51] @ putUint16 (r_sdrCount r) @ putUint16 (sdr_space (r_sdrCount r))
         @ putUint32 (r_lastAddTime r) @ putUint32 (r_lastEraseTime r) @ [r_flags r]) 15 w)"

definition reserve_sdrs :: "sdrsT \<Rightarrow> sdrsT" where
  "reserve_sdrs r = r\<lparr>r_reservation := next_reservation (r_reservation r)\<rparr>"

definition reserveSdrRepository :: handler where
  "reserveSdrRepository env msg w =
     (let r = reserve_sdrs (mc_mainSdrs (w_mc w)) in
      returnRspData msg None ([0] @ putUint16 (r_reservation r)) 3 (set_sdrs r w))"

definition getSdr :: handler where
  "getSdr env msg w =
     (let d = m_data msg; dataStart = m_dataStart msg; r = mc_mainSdrs (w_mc w);
          sdrs = r_sdrs r
      in if reservation_mismatch (getUint16 d dataStart) (r_reservation r) then
           returnErr msg None IPMI_INVALID_RESERVATION_CC w
         else
           let recordId = getUint16 d (dataStart + 2);
               offset = arr d (dataStart + 4); count = arr d (dataStart + 5)
           in case sdr_lookup recordId sdrs of
                None \<Rightarrow> returnErr msg None IPMI_NOT_PRESENT_CC w
              | Some i \<Rightarrow>
                  let entry = sdrs ! i in
                  if offset \<ge> d_length entry then
                    returnErr msg None IPMI_PARAMETER_OUT_OF_RANGE_CC w
                  else
                    let count = clip_count offset count (d_length entry) in
                    if unat (count + 3) > MAX_MSG_RETURN_DATA then
                      returnErr msg None IPMI_CANNOT_RETURN_REQ_LENGTH_CC w
                    else
                      let next = (if i + 1 < length sdrs then putUint16 (d_recordId (sdrs ! (i + 1)))
                                  else [0xff, 0xff])
                      in go_bind (go_slice 64 (d_data entry) (unat offset) (unat (offset + count)))
                           (\<lambda>bytes. returnRspData msg None ([0] @ next @ bytes) (unat (count + 3)) w))"

text \<open>\<open>newSdrEntry\<close> yields the fresh record and the repository with the advanced id counter.\<close>

definition newSdrEntry :: "u8 \<Rightarrow> u8 \<Rightarrow> sdrsT \<Rightarrow> sdrT \<times> sdrsT" where
  "newSdrEntry chassisCardNum len r =
     (let recordId = r_nextFreeEntryId r;
          newSdr = zero_sdr\<lparr>d_recordId := recordId, d_length := len + 5\<rparr>;
          newSdr = (if chassisCardNum = 0
                    then newSdr\<lparr>d_data := putUint16 recordId @ drop 2 (d_data newSdr)\<rparr> else newSdr)
      in (newSdr, r\<lparr>r_nextFreeEntryId := r_nextFreeEntryId r + 1\<rparr>))"

text \<open>
  \<open>addSdrEntry\<close> appends at the tail. The time goes to the event log's \<open>lastAddTime\<close>, as in the
  source, not to the repository's.
\<close>

definition append_sdr :: "sdrT \<Rightarrow> sdrsT \<Rightarrow> sdrsT" where
  "append_sdr newSdr r = r\<lparr>r_sdrs := r_sdrs r @ [newSdr], r_sdrCount := r_sdrCount r + 1\<rparr>"

definition addSdrEntry :: "u32 \<Rightarrow> sdrT \<Rightarrow> mcT \<Rightarrow> mcT" where
  "addSdrEntry now newSdr mc =
     mc\<lparr>mc_mainSdrs := append_sdr newSdr (mc_mainSdrs mc),
        mc_sel := (mc_sel mc)\<lparr>sl_lastAddTime := now\<rparr>\<rparr>"

definition sdr_rsp :: "sdrT \<Rightarrow> u8 list" where
  "sdr_rsp entry = [0] @ putUint16 (d_recordId entry)"

definition set_value :: "u8 \<Rightarrow> nat \<Rightarrow> sdrT list \<Rightarrow> sdrT list" where
  "set_value value i sdrs = sdrs[i := (sdrs ! i)\<lparr>d_value := value\<rparr>]"

text \<open>
  Copying the record bytes of the request: \<open>copy(entry.data[2:2+entry.length], \<dots>)\<close> with the bound
  computed in 8 bits.
\<close>

definition copy_record :: "u8 list \<Rightarrow> nat \<Rightarrow> sdrT \<Rightarrow> sdrT go" where
  "copy_record d dataStart entry =
     (let hi = unat (2 + d_length entry) in
      if 2 \<le> hi \<and> hi \<le> 64 then
        Inr (entry\<lparr>d_data := take 2 (d_data entry)
               @ gslice d (dataStart + 2) (dataStart + 2 + unat (d_length entry))
               @ drop hi (d_data entry)\<rparr>)
      else Inl SliceBoundsOutOfRange)"

definition addSdr :: handler where
  "addSdr env msg w =
     (let d = m_data msg; dataStart = m_dataStart msg; r = mc_mainSdrs (w_mc w);
          lun = arr d (dataStart + 6); sensNum = arr d (dataStart + 7);
          value = arr d (dataStart + 46)
      in if value = 0 then
           case find_sensor lun sensNum (r_sdrs r) of
             Some i \<Rightarrow> returnRspData msg None (sdr_rsp (r_sdrs r ! i)) 3 w
           | None \<Rightarrow>
               (case newSdrEntry (w_card w) (arr d (dataStart + 4)) r of
                  (entry, r) \<Rightarrow>
                    go_bind (copy_record d dataStart (entry\<lparr>d_sensNum := sensNum\<rparr>)) (\<lambda>entry.
                      let entry = entry\<lparr>d_enabled := True, d_eventsEnabled := True,
                                        d_scanningEnabled := True, d_eventStatus := 0\<rparr>;
                          w = set_sdrs r w
                      in returnRspData msg None (sdr_rsp entry) 3
                           (w\<lparr>w_mc := addSdrEntry (g_now env) entry (w_mc w)\<rparr>)))
         else
           case find_sensor lun sensNum (r_sdrs r) of
             None \<Rightarrow> Inr w
           | Some i \<Rightarrow>
               returnRspData msg None (sdr_rsp (r_sdrs r ! i)) 3
                 (set_sdrs (r\<lparr>r_sdrs := set_value value i (r_sdrs r)\<rparr>) w))"

definition clear_sdrs :: "u32 \<Rightarrow> sdrsT \<Rightarrow> sdrsT" where
  "clear_sdrs now r = r\<lparr>r_sdrs := [], r_lastEraseTime := now\<rparr>"

definition clearSdrRepository :: handler where
  "clearSdrRepository env msg w =
     (let d = m_data msg; dataStart = m_dataStart msg; r = mc_mainSdrs (w_mc w);
          op = arr d (dataStart + 5)
      in if reservation_mismatch (getUint16 d dataStart) (r_reservation r) then
           returnErr msg None IPMI_INVALID_RESERVATION_CC w
         else if clr_mismatch d dataStart then returnErr msg None IPMI_INVALID_DATA_FIELD_CC w
         else if op \<noteq> 0 \<and> op \<noteq> 0xaa then returnErr msg None IPMI_INVALID_DATA_FIELD_CC w
         else returnRspData msg None [0, 1] 2
                (if op = 0xaa then set_sdrs (clear_sdrs (g_now env) r) w else w))"

interpretation sdrr: reservable r_reservation reserve_sdrs
  by unfold_locales (simp add: reserve_sdrs_def)

section \<open>Facts about the searches\<close>

lemma find_from_shift: "find_from P i es = map_option (\<lambda>k. k + i) (find_from P 0 es)"
proof (induction es arbitrary: i)
  case Nil
  show ?case by simp
next
  case (Cons e es)
  show ?case
    by (auto simp: Cons [of "Suc i"] Cons [of "Suc 0"] option.map_comp comp_def)
qed

lemma find_from_Some_iff:
  "find_from P 0 es = Some i \<longleftrightarrow> i < length es \<and> P (es ! i) \<and> (\<forall>j < i. \<not> P (es ! j))"
proof (induction es arbitrary: i)
  case Nil
  show ?case by simp
next
  case (Cons e es)
  show ?case
  proof (cases i)
    case 0
    then show ?thesis by (auto simp: find_from_shift [of P "Suc 0"])
  next
    case (Suc k)
    have "(\<forall>j < Suc k. \<not> P ((e # es) ! j)) \<longleftrightarrow> \<not> P e \<and> (\<forall>j < k. \<not> P (es ! j))"
      by (auto simp: less_Suc_eq_0_disj)
    with Suc show ?thesis by (auto simp: find_from_shift [of P "Suc 0"] Cons)
  qed
qed

lemma find_from_None_iff: "find_from P i es = None \<longleftrightarrow> (\<forall>e \<in> set es. \<not> P e)"
  by (induction es arbitrary: i) auto

lemma find_from_append:
  "find_from P 0 (es @ [e]) =
     (case find_from P 0 es of Some i \<Rightarrow> Some i | None \<Rightarrow> if P e then Some (length es) else None)"
proof (induction es)
  case (Cons a es)
  then show ?case
    by (auto simp: find_from_shift [of P "Suc 0"] split: option.split)
qed simp

lemmas find_sensor_simps = find_sensor_def find_from_Some_iff find_from_None_iff

section \<open>The invariant of the repository\<close>

text \<open>
  Every record has its 64 bytes of data and a length within them (with room for the two bytes
  that \<open>addSdr\<close> skips), and the record ids are consecutive 16-bit numbers that end just before
  the next free one.
\<close>

definition sdr_ok :: "sdrT \<Rightarrow> bool" where
  "sdr_ok e \<longleftrightarrow> length (d_data e) = 64 \<and> unat (d_length e) \<le> 64"

definition sdr_inv :: "sdrsT \<Rightarrow> bool" where
  "sdr_inv r \<longleftrightarrow> (\<forall>e \<in> set (r_sdrs r). sdr_ok e) \<and>
     map d_recordId (r_sdrs r) =
     map (\<lambda>k. r_nextFreeEntryId r - of_nat (length (r_sdrs r) - k)) [0..<length (r_sdrs r)]"

lemma sdr_inv_fields [simp]:
  "sdr_inv (r\<lparr>r_reservation := a\<rparr>) = sdr_inv r"
  "sdr_inv (r\<lparr>r_lastEraseTime := b\<rparr>) = sdr_inv r"
  "sdr_inv (r\<lparr>r_sdrCount := c\<rparr>) = sdr_inv r"
  "sdr_inv (r\<lparr>r_flags := f\<rparr>) = sdr_inv r"
  "sdr_inv (r\<lparr>r_maxSdrCount := g\<rparr>) = sdr_inv r"
  by (simp_all add: sdr_inv_def)

lemma sdr_inv_ok: "sdr_inv r \<Longrightarrow> i < length (r_sdrs r) \<Longrightarrow> sdr_ok (r_sdrs r ! i)"
  by (simp add: sdr_inv_def)

lemma sdr_inv_id:
  assumes "sdr_inv r" "i < length (r_sdrs r)"
  shows "d_recordId (r_sdrs r ! i) = r_nextFreeEntryId r - of_nat (length (r_sdrs r) - i)"
proof -
  have "map d_recordId (r_sdrs r) ! i =
      map (\<lambda>k. r_nextFreeEntryId r - of_nat (length (r_sdrs r) - k)) [0..<length (r_sdrs r)] ! i"
    using assms(1) by (simp add: sdr_inv_def)
  with assms(2) show ?thesis by simp
qed

lemma sdr_inv_empty: "r_sdrs r = [] \<Longrightarrow> sdr_inv r"
  by (simp add: sdr_inv_def)

lemma sdr_inv_append:
  assumes "sdr_inv r" "sdr_ok e" "d_recordId e = r_nextFreeEntryId r"
  shows "sdr_inv (append_sdr e (r\<lparr>r_nextFreeEntryId := r_nextFreeEntryId r + 1\<rparr>))"
proof -
  have "Suc (length (r_sdrs r)) - k = Suc (length (r_sdrs r) - k)" if "k < length (r_sdrs r)" for k
    using that by simp
  then have "map (\<lambda>k. r_nextFreeEntryId r - of_nat (length (r_sdrs r) - k)) [0..<length (r_sdrs r)] =
      map (\<lambda>k. r_nextFreeEntryId r + 1 - of_nat (Suc (length (r_sdrs r)) - k)) [0..<length (r_sdrs r)]"
    by (intro map_cong) simp_all
  with assms show ?thesis
    by (simp add: sdr_inv_def append_sdr_def)
qed

lemma sdr_inv_update:
  assumes "sdr_inv r" "sdr_ok e" "d_recordId e = d_recordId (r_sdrs r ! i)" "i < length (r_sdrs r)"
  shows "sdr_inv (r\<lparr>r_sdrs := (r_sdrs r)[i := e]\<rparr>)"
proof -
  have "map d_recordId ((r_sdrs r)[i := e]) = map d_recordId (r_sdrs r)"
    using assms(3,4) by (simp add: map_update list_update_same_conv)
  then show ?thesis
    using assms(1,2) by (auto simp: sdr_inv_def dest!: set_update_subset_insert [THEN subsetD])
qed

lemma set_value_inv:
  assumes "sdr_inv r" "i < length (r_sdrs r)"
  shows "sdr_inv (r\<lparr>r_sdrs := set_value v i (r_sdrs r)\<rparr>)"
  unfolding set_value_def
  by (rule sdr_inv_update [OF assms(1)]) (use assms sdr_inv_ok [OF assms] in \<open>auto simp: sdr_ok_def\<close>)

section \<open>New records\<close>

lemma newSdrEntry_eq:
  assumes "newSdrEntry chassis len r = (e, r')"
  shows "r' = r\<lparr>r_nextFreeEntryId := r_nextFreeEntryId r + 1\<rparr>"
    "d_recordId e = r_nextFreeEntryId r" "d_length e = len + 5" "d_lun e = 0" "d_value e = 0"
    "length (d_data e) = 64" "chassis = 0 \<Longrightarrow> getUint16 (d_data e) 0 = r_nextFreeEntryId r"
proof -
  have e: "r' = r\<lparr>r_nextFreeEntryId := r_nextFreeEntryId r + 1\<rparr>"
    "e = (if chassis = 0
      then zero_sdr\<lparr>d_recordId := r_nextFreeEntryId r, d_length := len + 5,
             d_data := putUint16 (r_nextFreeEntryId r) @ replicate 62 0\<rparr>
      else zero_sdr\<lparr>d_recordId := r_nextFreeEntryId r, d_length := len + 5\<rparr>)"
    using assms by (auto simp: newSdrEntry_def Let_def zero_sdr_def)
  then show "r' = r\<lparr>r_nextFreeEntryId := r_nextFreeEntryId r + 1\<rparr>"
    "d_recordId e = r_nextFreeEntryId r" "d_length e = len + 5" "d_lun e = 0" "d_value e = 0"
    "length (d_data e) = 64"
    by (simp_all add: zero_sdr_def)
  show "getUint16 (d_data e) 0 = r_nextFreeEntryId r" if "chassis = 0"
    using that e(2) getUint16_put [of "[]" "r_nextFreeEntryId r" "replicate 62 0"] by simp
qed

lemma unat_plus_2: "unat (2 + x :: u8) = (if unat x < 254 then unat x + 2 else unat x - 254)"
  using unat_u8_less [of x] by (auto simp: unat_word_ariths mod_if)

lemma copy_record_eq:
  assumes "length (d_data e) = 64"
  shows "copy_record d start e =
    (if unat (d_length e) \<le> 62
     then Inr (e\<lparr>d_data := take 2 (d_data e) @ gslice d (start + 2) (start + 2 + unat (d_length e))
            @ drop (2 + unat (d_length e)) (d_data e)\<rparr>)
     else Inl SliceBoundsOutOfRange)"
  using unat_u8_less [of "d_length e"] by (auto simp: copy_record_def Let_def unat_plus_2)

text \<open>The record that an Add SDR request for a new sensor stores.\<close>

definition stored_sdr :: "u8 list \<Rightarrow> nat \<Rightarrow> u8 \<Rightarrow> sdrsT \<Rightarrow> sdrT" where
  "stored_sdr d start chassis r =
     (let e = fst (newSdrEntry chassis (arr d (start + 4)) r) in
      e\<lparr>d_sensNum := arr d (start + 7),
        d_data := take 2 (d_data e) @ gslice d (start + 2) (start + 2 + unat (d_length e))
            @ drop (2 + unat (d_length e)) (d_data e),
        d_enabled := True, d_eventsEnabled := True, d_scanningEnabled := True, d_eventStatus := 0\<rparr>)"

lemma stored_sdr_fields [simp]:
  "d_recordId (stored_sdr d start chassis r) = r_nextFreeEntryId r"
  "d_length (stored_sdr d start chassis r) = arr d (start + 4) + 5"
  "d_lun (stored_sdr d start chassis r) = 0" "d_value (stored_sdr d start chassis r) = 0"
  "d_sensNum (stored_sdr d start chassis r) = arr d (start + 7)"
  "d_enabled (stored_sdr d start chassis r)" "d_eventsEnabled (stored_sdr d start chassis r)"
  "d_scanningEnabled (stored_sdr d start chassis r)" "d_eventStatus (stored_sdr d start chassis r) = 0"
  using newSdrEntry_eq [OF surjective_pairing, of chassis "arr d (start + 4)" r]
  by (simp_all add: stored_sdr_def Let_def)

lemma stored_sdr_ok:
  assumes "unat (arr d (start + 4) + 5) \<le> 62"
  shows "sdr_ok (stored_sdr d start chassis r)"
proof -
  obtain e r' where e: "newSdrEntry chassis (arr d (start + 4)) r = (e, r')" by fastforce
  with newSdrEntry_eq [OF e] assms show ?thesis
    by (simp add: sdr_ok_def stored_sdr_def Let_def)
qed

text \<open>The whole effect of Add SDR, by cases.\<close>

lemma addSdr_eq:
  "addSdr env msg w =
     (let d = m_data msg; start = m_dataStart msg; r = mc_mainSdrs (w_mc w);
          value = arr d (start + 46);
          found = find_sensor (arr d (start + 6)) (arr d (start + 7)) (r_sdrs r);
          r' = append_sdr (stored_sdr d start (w_card w) r)
                 (r\<lparr>r_nextFreeEntryId := r_nextFreeEntryId r + 1\<rparr>)
      in case found of
           Some i \<Rightarrow>
             returnRspData msg None (sdr_rsp (r_sdrs r ! i)) 3
               (if value = 0 then w else set_sdrs (r\<lparr>r_sdrs := set_value value i (r_sdrs r)\<rparr>) w)
         | None \<Rightarrow>
             if value \<noteq> 0 then Inr w
             else if unat (arr d (start + 4) + 5) \<le> 62 then
               returnRspData msg None ([0] @ putUint16 (r_nextFreeEntryId r)) 3
                 (w\<lparr>w_mc := (w_mc w)\<lparr>mc_mainSdrs := r', mc_sel := (mc_sel (w_mc w))\<lparr>sl_lastAddTime := g_now env\<rparr>\<rparr>\<rparr>)
             else Inl SliceBoundsOutOfRange)"
proof -
  obtain e r' where e: "newSdrEntry (w_card w) (arr (m_data msg) (m_dataStart msg + 4)) (mc_mainSdrs (w_mc w)) = (e, r')"
    by fastforce
  note n = newSdrEntry_eq [OF e]
  show ?thesis
    by (cases "find_sensor (arr (m_data msg) (m_dataStart msg + 6)) (arr (m_data msg) (m_dataStart msg + 7))
          (r_sdrs (mc_mainSdrs (w_mc w)))")
      (auto simp: addSdr_def Let_def e n copy_record_eq stored_sdr_def sdr_rsp_def addSdrEntry_def set_sdrs_def)
qed

section \<open>Frame and invariant of the commands\<close>

definition sdr_frame :: "nat \<Rightarrow> world \<Rightarrow> world \<Rightarrow> bool" where
  "sdr_frame addr w w' \<longleftrightarrow> (\<exists>r t. (sdr_inv (mc_mainSdrs (w_mc w)) \<longrightarrow> sdr_inv r) \<and>
     rsp_step addr (w\<lparr>w_mc := (w_mc w)\<lparr>mc_mainSdrs := r, mc_sel := (mc_sel (w_mc w))\<lparr>sl_lastAddTime := t\<rparr>\<rparr>\<rparr>) w')"

lemma sdr_frame_rsp: "rsp_step addr w w' \<Longrightarrow> sdr_frame addr w w'"
  unfolding sdr_frame_def
  by (rule exI [of _ "mc_mainSdrs (w_mc w)"], rule exI [of _ "sl_lastAddTime (mc_sel (w_mc w))"]) simp

lemma sdr_frame_set:
  "(sdr_inv (mc_mainSdrs (w_mc w)) \<Longrightarrow> sdr_inv r) \<Longrightarrow> rsp_step addr (set_sdrs r w) w' \<Longrightarrow> sdr_frame addr w w'"
  unfolding sdr_frame_def
  by (rule exI [of _ r], rule exI [of _ "sl_lastAddTime (mc_sel (w_mc w))"]) (simp add: set_sdrs_def)

lemma set_sdrs_fields [simp]:
  "w_lan (set_sdrs r w) = w_lan w" "w_card (set_sdrs r w) = w_card w"
  "w_ctx (set_sdrs r w) = w_ctx w" "w_sent (set_sdrs r w) = w_sent w"
  "mc_mainSdrs (w_mc (set_sdrs r w)) = r" "mc_sel (w_mc (set_sdrs r w)) = mc_sel (w_mc w)"
  "mc_sensors (w_mc (set_sdrs r w)) = mc_sensors (w_mc w)"
  by (simp_all add: set_sdrs_def)

lemma clear_sdrs_inv: "sdr_inv (clear_sdrs now r)"
  by (rule sdr_inv_empty) (simp add: clear_sdrs_def)

lemmas sdr_replies = rsp_stepI [THEN sdr_frame_rsp]

lemma sdr_command_frame:
  "getSdrRepositoryInfo env msg w = Inr w' \<Longrightarrow> sdr_frame (m_remoteAddr msg) w w'"
  "reserveSdrRepository env msg w = Inr w' \<Longrightarrow> sdr_frame (m_remoteAddr msg) w w'"
  "getSdr env msg w = Inr w' \<Longrightarrow> sdr_frame (m_remoteAddr msg) w w'"
  "clearSdrRepository env msg w = Inr w' \<Longrightarrow> sdr_frame (m_remoteAddr msg) w w'"
proof -
  show "getSdrRepositoryInfo env msg w = Inr w' \<Longrightarrow> sdr_frame (m_remoteAddr msg) w w'"
    by (auto simp: getSdrRepositoryInfo_def Let_def dest: sdr_replies)
  show "reserveSdrRepository env msg w = Inr w' \<Longrightarrow> sdr_frame (m_remoteAddr msg) w w'"
    by (rule sdr_frame_set [of _ "reserve_sdrs (mc_mainSdrs (w_mc w))"])
      (auto simp: reserveSdrRepository_def Let_def reserve_sdrs_def dest: rsp_stepI)
  show "getSdr env msg w = Inr w' \<Longrightarrow> sdr_frame (m_remoteAddr msg) w w'"
    by (auto simp: getSdr_def Let_def split: if_splits option.splits dest: sdr_replies)
  show "clearSdrRepository env msg w = Inr w' \<Longrightarrow> sdr_frame (m_remoteAddr msg) w w'"
    by (auto simp: clearSdrRepository_def Let_def split: if_splits dest: sdr_replies rsp_stepI
        intro: sdr_frame_set clear_sdrs_inv)
qed

lemma addSdr_frame:
  assumes "addSdr env msg w = Inr w'"
  shows "sdr_frame (m_remoteAddr msg) w w'"
proof -
  let ?d = "m_data msg" and ?s = "m_dataStart msg" and ?r = "mc_mainSdrs (w_mc w)"
  let ?r' = "append_sdr (stored_sdr ?d ?s (w_card w) ?r) (?r\<lparr>r_nextFreeEntryId := r_nextFreeEntryId ?r + 1\<rparr>)"
  let ?v = "arr ?d (?s + 46)"
  consider (same) "rsp_step (m_remoteAddr msg) w w'"
    | (update) i where "i < length (r_sdrs ?r)"
        "rsp_step (m_remoteAddr msg) (set_sdrs (?r\<lparr>r_sdrs := set_value ?v i (r_sdrs ?r)\<rparr>) w) w'"
    | (add) "unat (arr ?d (?s + 4) + 5) \<le> 62"
        "rsp_step (m_remoteAddr msg) (w\<lparr>w_mc := (w_mc w)\<lparr>mc_mainSdrs := ?r',
           mc_sel := (mc_sel (w_mc w))\<lparr>sl_lastAddTime := g_now env\<rparr>\<rparr>\<rparr>) w'"
    using assms unfolding addSdr_eq Let_def
    by (auto split: option.splits if_splits simp: find_sensor_simps dest!: rsp_stepI(2))
  then show ?thesis
  proof cases
    case same
    then show ?thesis by (rule sdr_frame_rsp)
  next
    case update
    then show ?thesis by (auto intro: sdr_frame_set set_value_inv)
  next
    case add
    have "sdr_inv ?r'" if "sdr_inv ?r"
      using that stored_sdr_ok [OF add(1)] by (intro sdr_inv_append) simp_all
    with add(2) show ?thesis unfolding sdr_frame_def by blast
  qed
qed

section \<open>Reading records\<close>

definition next_id :: "nat \<Rightarrow> sdrT list \<Rightarrow> u16" where
  "next_id i sdrs = (if i + 1 < length sdrs then d_recordId (sdrs ! (i + 1)) else 0xffff)"

lemma getSdr_reads:
  assumes inv: "sdr_inv (mc_mainSdrs (w_mc w))"
    and res: "\<not> reservation_mismatch (getUint16 (m_data msg) (m_dataStart msg)) (r_reservation (mc_mainSdrs (w_mc w)))"
    and found: "sdr_lookup (getUint16 (m_data msg) (m_dataStart msg + 2)) (r_sdrs (mc_mainSdrs (w_mc w))) = Some i"
    and e: "e = r_sdrs (mc_mainSdrs (w_mc w)) ! i" and off: "off = unat (arr (m_data msg) (m_dataStart msg + 4))"
    and cnt: "cnt = unat (arr (m_data msg) (m_dataStart msg + 5))"
    and less: "off < unat (d_length e)" and i: "i < length (r_sdrs (mc_mainSdrs (w_mc w)))"
  shows "getSdr env msg w =
    (if off + cnt < 256
     then returnRspData msg None ([0] @ putUint16 (next_id i (r_sdrs (mc_mainSdrs (w_mc w))))
            @ gslice (d_data e) off (min (off + cnt) (unat (d_length e))))
            (min (off + cnt) (unat (d_length e)) - off + 3) w
     else Inl SliceBoundsOutOfRange)"
proof -
  let ?off = "arr (m_data msg) (m_dataStart msg + 4)" and ?cnt = "arr (m_data msg) (m_dataStart msg + 5)"
  have len: "unat (d_length e) \<le> 64" using sdr_inv_ok [OF inv i] e by (simp add: sdr_ok_def)
  have lt: "?off < d_length e" using less off by (simp add: word_less_nat_alt)
  let ?c = "clip_count ?off ?cnt (d_length e)"
  have cut: "go_slice 64 (d_data e) (unat ?off) (unat (?off + ?c)) =
    (if off + cnt < 256 then Inr (gslice (d_data e) off (min (off + cnt) (unat (d_length e))))
     else Inl SliceBoundsOutOfRange)"
    using clipped_slice [OF lt len, of "d_data e" ?cnt] by (simp add: off cnt)
  have "\<not> MAX_MSG_RETURN_DATA < unat (?c + 3)"
    using unat_u8_less [of "?c + 3"] by (simp add: MAX_MSG_RETURN_DATA_def)
  then have "(unat (?c + 3) > MAX_MSG_RETURN_DATA) = False" by simp
  moreover have "unat (?c + 3) = min (off + cnt) (unat (d_length e)) - off + 3" if "off + cnt < 256"
  proof -
    have "off + unat ?c = min (off + cnt) (unat (d_length e))"
      using clip_count_no_wrap(2) [OF lt] that by (simp add: off cnt)
    then have "unat ?c = min (off + cnt) (unat (d_length e)) - off" by simp
    with len show ?thesis by (simp add: unat_word_ariths)
  qed
  moreover have "(if i + 1 < length (r_sdrs (mc_mainSdrs (w_mc w)))
       then putUint16 (d_recordId (r_sdrs (mc_mainSdrs (w_mc w)) ! (i + 1))) else [0xff, 0xff]) =
      putUint16 (next_id i (r_sdrs (mc_mainSdrs (w_mc w))))"
    by (simp add: next_id_def putUint16_max)
  moreover have "\<not> d_length e \<le> ?off" using lt by simp
  ultimately show ?thesis
    using res found cut e [symmetric] by (cases "off + cnt < 256") (simp_all add: getSdr_def Let_def)
qed

lemma getSdr_whole:
  assumes inv: "sdr_inv (mc_mainSdrs (w_mc w))"
    and req: "getUint16 (m_data msg) (m_dataStart msg) = 0" "arr (m_data msg) (m_dataStart msg + 4) = 0"
      "arr (m_data msg) (m_dataStart msg + 5) = 0xff"
    and found: "sdr_lookup (getUint16 (m_data msg) (m_dataStart msg + 2)) (r_sdrs (mc_mainSdrs (w_mc w))) = Some i"
    and i: "i < length (r_sdrs (mc_mainSdrs (w_mc w)))"
    and len: "unat (d_length (r_sdrs (mc_mainSdrs (w_mc w)) ! i)) = n" "0 < n"
  shows "getSdr env msg w = returnRspData msg None
    ([0] @ putUint16 (next_id i (r_sdrs (mc_mainSdrs (w_mc w))))
     @ gslice (d_data (r_sdrs (mc_mainSdrs (w_mc w)) ! i)) 0 n) (n + 3) w"
proof -
  have "\<not> reservation_mismatch (getUint16 (m_data msg) (m_dataStart msg)) (r_reservation (mc_mainSdrs (w_mc w)))"
    by (simp add: req reservation_mismatch_def)
  moreover have "0 = unat (arr (m_data msg) (m_dataStart msg + 4))"
    "255 = unat (arr (m_data msg) (m_dataStart msg + 5))"
    unfolding req by simp_all
  moreover have "0 < unat (d_length (r_sdrs (mc_mainSdrs (w_mc w)) ! i))" using len by simp
  moreover have "min (0 + 255) n = n"
    using sdr_inv_ok [OF inv i] len by (simp add: sdr_ok_def)
  ultimately show ?thesis
    using getSdr_reads [OF inv _ found refl _ _ _ i, of 0 255 env] unfolding len(1) by simp
qed

text \<open>Until the id counter wraps, the ids are the numbers below it, and each finds its record.\<close>

definition ids_fresh :: "sdrsT \<Rightarrow> bool" where
  "ids_fresh r \<longleftrightarrow> sdr_inv r \<and> length (r_sdrs r) < unat (r_nextFreeEntryId r)"

lemma unat_sub_of_nat:
  fixes a :: u16
  assumes "k \<le> unat a"
  shows "unat (a - of_nat k) = unat a - k"
proof -
  have "unat a < 2 ^ LENGTH(16)" by (rule unsigned_less)
  with assms have "k < 65536" by simp
  then have "unat (of_nat k :: u16) = k" by (simp add: unat_of_nat)
  with assms show ?thesis by (simp add: unat_sub word_le_nat_alt)
qed

lemma ids_fresh_nat:
  assumes "ids_fresh r" "i < length (r_sdrs r)"
  shows "unat (d_recordId (r_sdrs r ! i)) = unat (r_nextFreeEntryId r) - (length (r_sdrs r) - i)"
proof -
  have "sdr_inv r" "length (r_sdrs r) - i \<le> unat (r_nextFreeEntryId r)"
    using assms(1) by (auto simp: ids_fresh_def)
  then show ?thesis
    using sdr_inv_id [of r i] assms(2) unat_sub_of_nat [of "length (r_sdrs r) - i" "r_nextFreeEntryId r"] by metis
qed

lemma ids_fresh_range:
  assumes "ids_fresh r" "i < length (r_sdrs r)"
  shows "d_recordId (r_sdrs r ! i) \<noteq> 0" "d_recordId (r_sdrs r ! i) \<noteq> 0xffff"
proof -
  note u = ids_fresh_nat [OF assms]
  have lt: "length (r_sdrs r) < unat (r_nextFreeEntryId r)" using assms(1) by (simp add: ids_fresh_def)
  with u have "0 < unat (d_recordId (r_sdrs r ! i))" by linarith
  then show "d_recordId (r_sdrs r ! i) \<noteq> 0" by (simp add: unat_gt_0)
  have "unat (r_nextFreeEntryId r) < 2 ^ LENGTH(16)" by (rule unsigned_less)
  then have "unat (r_nextFreeEntryId r) < 65536" by simp
  with u lt assms(2) have "unat (d_recordId (r_sdrs r ! i)) < 65535" by linarith
  then show "d_recordId (r_sdrs r ! i) \<noteq> 0xffff" by auto
qed

lemma ids_fresh_lookup:
  assumes "ids_fresh r" "i < length (r_sdrs r)"
  shows "sdr_lookup (d_recordId (r_sdrs r ! i)) (r_sdrs r) = Some i"
proof -
  have "d_recordId (r_sdrs r ! j) \<noteq> d_recordId (r_sdrs r ! i)" if "j < i" for j
  proof -
    have j: "j < length (r_sdrs r)" using that assms(2) by simp
    have "length (r_sdrs r) < unat (r_nextFreeEntryId r)" using assms(1) by (simp add: ids_fresh_def)
    then have "unat (d_recordId (r_sdrs r ! j)) \<noteq> unat (d_recordId (r_sdrs r ! i))"
      using that assms(2) ids_fresh_nat [OF assms(1) j] ids_fresh_nat [OF assms] by linarith
    then show ?thesis by auto
  qed
  with assms(2) ids_fresh_range [OF assms] show ?thesis
    by (simp add: sdr_lookup_def find_from_Some_iff)
qed

lemma stored_sdr_data:
  "d_data (stored_sdr d start 0 r) = putUint16 (r_nextFreeEntryId r)
     @ gslice d (start + 2) (start + 2 + unat (arr d (start + 4) + 5))
     @ replicate (62 - unat (arr d (start + 4) + 5)) 0"
  by (simp add: stored_sdr_def newSdrEntry_def Let_def zero_sdr_def)

lemma gslice_gslice_prefix: "n \<le> m \<Longrightarrow> gslice (gslice d i (i + m) @ ys) 0 n = gslice d i (i + n)"
  by (rule nth_equalityI) (simp_all add: arr_def nth_append)

lemma gslice_append: "length xs \<le> n \<Longrightarrow> gslice (xs @ ys) 0 n = xs @ gslice ys 0 (n - length xs)"
  by (rule nth_equalityI) (auto simp: nth_append arr_append arr_def)

text \<open>The repository that an accepted Add SDR request with value byte 0 leaves.\<close>

lemma addSdr_plain:
  assumes "addSdr env msg w = Inr w'" "arr (m_data msg) (m_dataStart msg + 46) = 0"
    "r = mc_mainSdrs (w_mc w)"
  shows "mc_mainSdrs (w_mc w') =
    (if find_sensor (arr (m_data msg) (m_dataStart msg + 6)) (arr (m_data msg) (m_dataStart msg + 7)) (r_sdrs r) = None
     then append_sdr (stored_sdr (m_data msg) (m_dataStart msg) (w_card w) r)
            (r\<lparr>r_nextFreeEntryId := r_nextFreeEntryId r + 1\<rparr>)
     else r)"
  using assms
  by (auto simp: addSdr_eq Let_def rsp_frame_def split: option.splits if_splits dest!: returnRspData_frame)

lemma find_sensor_appended:
  assumes "find_sensor lun sensNum es = None"
  shows "find_sensor lun sensNum (es @ [e]) =
    (if d_lun e = lun \<and> d_sensNum e = sensNum then Some (length es) else None)"
  using assms by (auto simp: find_sensor_def find_from_append)

lemma reply_mainSdrs:
  "returnRspData msg None d n w = Inr w' \<Longrightarrow> mc_mainSdrs (w_mc w') = mc_mainSdrs (w_mc w)"
  "returnRspData msg None d n w = Inr w' \<Longrightarrow> w_card w' = w_card w"
  by (auto dest!: returnRspData_frame simp: rsp_frame_def)

section \<open>Properties\<close>

definition demo_sdrs :: sdrsT where
  "demo_sdrs = zero_sdrs\<lparr>r_nextFreeEntryId := 3, r_sdrs :=
     [zero_sdr\<lparr>d_recordId := 1, d_length := 55, d_sensNum := 17\<rparr>,
      zero_sdr\<lparr>d_recordId := 2, d_length := 58, d_sensNum := 18\<rparr>]\<rparr>"

lemma demo_sdrs_fields:
  "length (r_sdrs demo_sdrs) = 2" "r_nextFreeEntryId demo_sdrs = 3" "r_reservation demo_sdrs = 0"
  "map d_recordId (r_sdrs demo_sdrs) = [1, 2]" "map d_sensNum (r_sdrs demo_sdrs) = [17, 18]"
  "map d_length (r_sdrs demo_sdrs) = [55, 58]"
  by (simp_all add: demo_sdrs_def zero_sdr_def zero_sdrs_def)

lemma demo_sdrs_inv: "sdr_inv demo_sdrs"
  by (simp add: demo_sdrs_def sdr_inv_def sdr_ok_def zero_sdr_def zero_sdrs_def)

definition demo_sdr_world :: world where
  "demo_sdr_world = set_sdrs demo_sdrs demo_world"

lemma demo_sdr_world_sdrs: "mc_mainSdrs (w_mc demo_sdr_world) = demo_sdrs"
  by (simp add: demo_sdr_world_def)

text \<open>C29: When Get SDR panics. In a reachable repository the handler panics exactly for a request whose
  reservation is accepted, which names a record, whose offset lies inside the record, and whose
  offset and byte count add up to 256 or more: the 8-bit sum passes the length check and the slice
  bounds are reversed.\<close>

theorem getSdr_panic_iff:
  assumes inv: "sdr_inv (mc_mainSdrs (w_mc w))"
  shows "(\<exists>e. getSdr env msg w = Inl e) \<longleftrightarrow>
    \<not> reservation_mismatch (getUint16 (m_data msg) (m_dataStart msg)) (r_reservation (mc_mainSdrs (w_mc w))) \<and>
    (\<exists>i. sdr_lookup (getUint16 (m_data msg) (m_dataStart msg + 2)) (r_sdrs (mc_mainSdrs (w_mc w))) = Some i \<and>
      arr (m_data msg) (m_dataStart msg + 4) < d_length (r_sdrs (mc_mainSdrs (w_mc w)) ! i)) \<and>
    256 \<le> unat (arr (m_data msg) (m_dataStart msg + 4)) + unat (arr (m_data msg) (m_dataStart msg + 5))"
proof -
  let ?r = "mc_mainSdrs (w_mc w)" and ?id = "getUint16 (m_data msg) (m_dataStart msg + 2)"
  let ?off = "arr (m_data msg) (m_dataStart msg + 4)" and ?cnt = "arr (m_data msg) (m_dataStart msg + 5)"
  have no_err: "returnErr msg None c w \<noteq> Inl e" for c e
    using returnErr_total [of msg None c w] by auto
  have refused: "\<not> (\<exists>e. getSdr env msg w = Inl e)"
    if "reservation_mismatch (getUint16 (m_data msg) (m_dataStart msg)) (r_reservation ?r) \<or>
        sdr_lookup ?id (r_sdrs ?r) = None \<or>
        (\<exists>i. sdr_lookup ?id (r_sdrs ?r) = Some i \<and> \<not> ?off < d_length (r_sdrs ?r ! i))"
    using that by (auto simp: getSdr_def Let_def no_err not_less)
  show ?thesis
  proof (cases "reservation_mismatch (getUint16 (m_data msg) (m_dataStart msg)) (r_reservation ?r) \<or>
        sdr_lookup ?id (r_sdrs ?r) = None \<or>
        (\<exists>i. sdr_lookup ?id (r_sdrs ?r) = Some i \<and> \<not> ?off < d_length (r_sdrs ?r ! i))")
    case True
    with refused [OF True] show ?thesis by auto
  next
    case False
    then obtain i where i: "sdr_lookup ?id (r_sdrs ?r) = Some i" "?off < d_length (r_sdrs ?r ! i)"
      "\<not> reservation_mismatch (getUint16 (m_data msg) (m_dataStart msg)) (r_reservation ?r)"
      by auto
    let ?len = "unat (d_length (r_sdrs ?r ! i))"
    have lt: "unat ?off < ?len" "i < length (r_sdrs ?r)"
      using i(1,2) by (auto simp: word_less_nat_alt sdr_lookup_def find_from_Some_iff split: if_splits)
    have "?len \<le> 64" using sdr_inv_ok [OF inv lt(2)] by (simp add: sdr_ok_def)
    then have "min (unat ?off + unat ?cnt) ?len - unat ?off + 3 \<le> 900" by linarith
    then have "returnRspData msg None d (min (unat ?off + unat ?cnt) ?len - unat ?off + 3) w \<noteq> Inl e" for d e
      using returnRspData_total [of "min (unat ?off + unat ?cnt) ?len - unat ?off + 3" msg None d w] by force
    with i getSdr_reads [OF inv i(3,1) refl refl refl lt, of env] show ?thesis
      by (auto simp: not_less [symmetric] split: if_splits)
  qed
qed

theorem getSdr_panic_iff_witness:
  "\<exists>e. getSdr demo_env (demo_msg 0 [0, 0, 2, 0, 16, 0xf0]) demo_sdr_world = Inl e"
proof -
  have inv: "sdr_inv (mc_mainSdrs (w_mc demo_sdr_world))"
    by (simp add: demo_sdr_world_sdrs demo_sdrs_inv)
  show ?thesis
    by (rule getSdr_panic_iff [OF inv, THEN iffD2], intro conjI exI [of _ 1]) (code_simp+)
qed

text \<open>C12: A record that was added can be read back. On the management module (card 0), an Add SDR
  request for a sensor that has no record, with a value byte of 0 and a length byte of at most 57,
  succeeds while record ids last, and a Get SDR request for the new id (no reservation, offset 0,
  count 255) replies with completion code 0, \<open>0xffff\<close> as the next id, the record's id in place of
  the first two bytes sent, and then the record's bytes as they were sent.\<close>

theorem sdr_add_get_roundtrip:
  assumes inv: "sdr_inv (mc_mainSdrs (w_mc w))" and mm: "w_card w = 0"
    and ids: "length (r_sdrs (mc_mainSdrs (w_mc w))) < unat (r_nextFreeEntryId (mc_mainSdrs (w_mc w)))"
      "r_nextFreeEntryId (mc_mainSdrs (w_mc w)) \<noteq> 0xffff"
    and new: "find_sensor (arr (m_data msg) (m_dataStart msg + 6)) (arr (m_data msg) (m_dataStart msg + 7))
        (r_sdrs (mc_mainSdrs (w_mc w))) = None" "arr (m_data msg) (m_dataStart msg + 46) = 0"
      "unat (arr (m_data msg) (m_dataStart msg + 4)) \<le> 57"
    and get: "getUint16 (m_data msg2) (m_dataStart msg2) = 0"
      "getUint16 (m_data msg2) (m_dataStart msg2 + 2) = r_nextFreeEntryId (mc_mainSdrs (w_mc w))"
      "arr (m_data msg2) (m_dataStart msg2 + 4) = 0" "arr (m_data msg2) (m_dataStart msg2 + 5) = 0xff"
  shows "\<exists>w'. addSdr env msg w = Inr w' \<and>
    getSdr env2 msg2 w' = returnRspData msg2 None ([0, 0xff, 0xff]
      @ putUint16 (r_nextFreeEntryId (mc_mainSdrs (w_mc w)))
      @ gslice (m_data msg) (m_dataStart msg + 2)
          (m_dataStart msg + unat (arr (m_data msg) (m_dataStart msg + 4)) + 5))
      (unat (arr (m_data msg) (m_dataStart msg + 4)) + 8) w'"
proof -
  let ?d = "m_data msg" and ?s = "m_dataStart msg" and ?r = "mc_mainSdrs (w_mc w)"
  let ?e = "stored_sdr ?d ?s 0 ?r" and ?id = "r_nextFreeEntryId ?r" and ?n = "unat (arr ?d (?s + 4))"
  let ?r' = "append_sdr ?e (?r\<lparr>r_nextFreeEntryId := ?id + 1\<rparr>)"
  have len: "unat (arr ?d (?s + 4) + 5) = ?n + 5"
    using new(3) by (simp add: unat_word_ariths)
  have "unat (arr ?d (?s + 4) + 5) \<le> 62" using len new(3) by simp
  note inv' = sdr_inv_append [OF inv stored_sdr_ok [OF this, of 0 ?r]]
  obtain w' where add: "addSdr env msg w = Inr w'" and r': "mc_mainSdrs (w_mc w') = ?r'"
    using new len mm returnRspData_total [of 3] by (fastforce simp: addSdr_eq Let_def dest: reply_mainSdrs)
  have "1 + ?id \<noteq> 0"
    using ids(2) by (auto simp: add.commute [of 1] eq_neg_iff_add_eq_0 [symmetric])
  from unatSuc [OF this] have next': "unat (?id + 1) = unat ?id + 1" by (simp add: add.commute)
  have fresh: "ids_fresh ?r'"
    using inv' ids(1) next' by (simp add: ids_fresh_def append_sdr_def)
  have at: "r_sdrs ?r' ! length (r_sdrs ?r) = ?e" "length (r_sdrs ?r) < length (r_sdrs ?r')"
    by (simp_all add: append_sdr_def)
  have found: "sdr_lookup ?id (r_sdrs ?r') = Some (length (r_sdrs ?r))"
    using ids_fresh_lookup [OF fresh at(2)] at(1) by simp
  have data: "gslice (d_data ?e) 0 (?n + 5) = putUint16 ?id @ gslice ?d (?s + 2) (?s + ?n + 5)"
    using gslice_gslice_prefix [of "?n + 3" "?n + 5" ?d "?s + 2"] len
    by (simp add: stored_sdr_data gslice_append add.commute add.left_commute)
  have "getSdr env2 msg2 w' = returnRspData msg2 None ([0] @ putUint16 (next_id (length (r_sdrs ?r)) (r_sdrs ?r'))
      @ gslice (d_data ?e) 0 (?n + 5)) (?n + 5 + 3) w'"
    using getSdr_whole [of w' msg2 "length (r_sdrs ?r)" "?n + 5" env2] inv' found get len
    unfolding r' at(1) by (simp add: append_sdr_def)
  moreover have "next_id (length (r_sdrs ?r)) (r_sdrs ?r') = 0xffff"
    by (simp add: next_id_def append_sdr_def)
  moreover have "?n + 5 + 3 = ?n + 8" by simp
  ultimately show ?thesis
    using add unfolding data by (auto simp: putUint16_max)
qed

definition demo_sdr_request :: msgT where
  "demo_sdr_request = demo_msg 0 ([0, 0, 0x51, 1, 0x32, 0x20, 0, 19, 3, 1] @ replicate 36 5 @ [0, 0xC7] @ replicate 7 0x41)"

theorem sdr_add_get_roundtrip_witness:
  "\<exists>w'. addSdr demo_env demo_sdr_request demo_sdr_world = Inr w' \<and>
     getSdr demo_env (demo_msg 0 [0, 0, 3, 0, 0, 0xff]) w' =
       returnRspData (demo_msg 0 [0, 0, 3, 0, 0, 0xff]) None
         ([0, 0xff, 0xff, 3, 0] @ [0x51, 1, 0x32, 0x20, 0, 19, 3, 1] @ replicate 36 5 @ [0, 0xC7] @ replicate 7 0x41) 58 w'"
proof -
  have inv: "sdr_inv (mc_mainSdrs (w_mc demo_sdr_world))"
    by (simp add: demo_sdr_world_sdrs demo_sdrs_inv)
  let ?r = "mc_mainSdrs (w_mc demo_sdr_world)" and ?d = "m_data demo_sdr_request"
  let ?s = "m_dataStart demo_sdr_request" and ?get = "demo_msg 0 [0, 0, 3, 0, 0, 0xff]"
  have hyps: "w_card demo_sdr_world = 0" "length (r_sdrs ?r) < unat (r_nextFreeEntryId ?r)"
    "r_nextFreeEntryId ?r \<noteq> 0xffff" "find_sensor (arr ?d (?s + 6)) (arr ?d (?s + 7)) (r_sdrs ?r) = None"
    "arr ?d (?s + 46) = 0" "unat (arr ?d (?s + 4)) \<le> 57"
    "getUint16 (m_data ?get) (m_dataStart ?get) = 0"
    "getUint16 (m_data ?get) (m_dataStart ?get + 2) = r_nextFreeEntryId ?r"
    "arr (m_data ?get) (m_dataStart ?get + 4) = 0" "arr (m_data ?get) (m_dataStart ?get + 5) = 0xff"
    by code_simp+
  have vals: "putUint16 (r_nextFreeEntryId ?r) = [3, 0]"
    "gslice ?d (?s + 2) (?s + unat (arr ?d (?s + 4)) + 5)
       = [0x51, 1, 0x32, 0x20, 0, 19, 3, 1] @ replicate 36 5 @ [0, 0xC7] @ replicate 7 0x41"
    "unat (arr ?d (?s + 4)) + 8 = 58"
    by code_simp+
  show ?thesis
    using sdr_add_get_roundtrip [OF inv hyps, of demo_env demo_env] unfolding vals by simp
qed

text \<open>C30: The first record of a sensor stays. After any accepted Add SDR request for a sensor of logical
  unit 0 (value byte 0) the repository has a record for the sensor: the one it had before, all
  records unchanged, or else one more at the end. Any further such request for the sensor, whatever
  record it carries, is answered with completion code 0 and the id of the record that is there, and
  leaves the whole controller as it was: no record is added, replaced or changed.\<close>

theorem addSdr_first_stays:
  assumes "addSdr env msg w = Inr w'" "arr (m_data msg) (m_dataStart msg + 6) = 0"
    "arr (m_data msg) (m_dataStart msg + 7) = n" "arr (m_data msg) (m_dataStart msg + 46) = 0"
    and again: "arr (m_data msg2) (m_dataStart msg2 + 6) = 0" "arr (m_data msg2) (m_dataStart msg2 + 7) = n"
      "arr (m_data msg2) (m_dataStart msg2 + 46) = 0"
  shows "\<exists>i w''. find_sensor 0 n (r_sdrs (mc_mainSdrs (w_mc w'))) = Some i \<and>
    (case find_sensor 0 n (r_sdrs (mc_mainSdrs (w_mc w))) of
       Some j \<Rightarrow> i = j \<and> mc_mainSdrs (w_mc w') = mc_mainSdrs (w_mc w)
     | None \<Rightarrow> i = length (r_sdrs (mc_mainSdrs (w_mc w))) \<and>
         (\<exists>e. r_sdrs (mc_mainSdrs (w_mc w')) = r_sdrs (mc_mainSdrs (w_mc w)) @ [e])) \<and>
    addSdr env2 msg2 w' = returnRspData msg2 None
      ([0] @ putUint16 (d_recordId (r_sdrs (mc_mainSdrs (w_mc w')) ! i))) 3 w' \<and>
    addSdr env2 msg2 w' = Inr w'' \<and> w_mc w'' = w_mc w'"
proof -
  let ?r = "mc_mainSdrs (w_mc w)" and ?r' = "mc_mainSdrs (w_mc w')"
  note plain = addSdr_plain [OF assms(1,4) refl]
  obtain i where i: "find_sensor 0 n (r_sdrs ?r') = Some i"
    and was: "case find_sensor 0 n (r_sdrs ?r) of Some j \<Rightarrow> i = j \<and> ?r' = ?r
      | None \<Rightarrow> i = length (r_sdrs ?r) \<and> (\<exists>e. r_sdrs ?r' = r_sdrs ?r @ [e])"
    using plain assms(2,3) find_sensor_appended [of 0 n "r_sdrs ?r"]
    by (cases "find_sensor 0 n (r_sdrs ?r)") (auto simp: append_sdr_def)
  let ?rsp = "[0] @ putUint16 (d_recordId (r_sdrs ?r' ! i))"
  obtain w'' where w'': "returnRspData msg2 None ?rsp 3 w' = Inr w''"
    using returnRspData_total [of 3] by fastforce
  have "addSdr env2 msg2 w' = returnRspData msg2 None ?rsp 3 w'"
    using i again by (simp add: addSdr_eq Let_def sdr_rsp_def)
  with i was w'' returnRspData_frame [OF w''] show ?thesis by (auto simp: rsp_frame_def)
qed

lemma demo_sdr_added:
  obtains w' where "addSdr demo_env demo_sdr_request demo_sdr_world = Inr w'"
proof -
  let ?r = "mc_mainSdrs (w_mc demo_sdr_world)" and ?d = "m_data demo_sdr_request"
  let ?s = "m_dataStart demo_sdr_request"
  have "find_sensor (arr ?d (?s + 6)) (arr ?d (?s + 7)) (r_sdrs ?r) = None" "arr ?d (?s + 46) = 0"
    "unat (arr ?d (?s + 4) + 5) \<le> 62"
    by code_simp+
  then have "\<exists>w'. addSdr demo_env demo_sdr_request demo_sdr_world = Inr w'"
    using returnRspData_total [of 3] by (simp add: addSdr_eq Let_def)
  with that show ?thesis by blast
qed

theorem addSdr_first_stays_witness:
  "\<exists>w' w''. addSdr demo_env demo_sdr_request demo_sdr_world = Inr w' \<and>
     length (r_sdrs (mc_mainSdrs (w_mc w'))) = 3 \<and>
     addSdr demo_env (demo_msg 0 [0, 0, 9, 9, 9, 9, 0, 19]) w' = Inr w'' \<and> w_mc w'' = w_mc w'"
proof (rule demo_sdr_added)
  let ?m = "demo_msg 0 [0, 0, 9, 9, 9, 9, 0, 19]"
  fix w' assume w': "addSdr demo_env demo_sdr_request demo_sdr_world = Inr w'"
  have h: "arr (m_data demo_sdr_request) (m_dataStart demo_sdr_request + 6) = 0"
    "arr (m_data demo_sdr_request) (m_dataStart demo_sdr_request + 7) = 19"
    "arr (m_data demo_sdr_request) (m_dataStart demo_sdr_request + 46) = 0"
    "arr (m_data ?m) (m_dataStart ?m + 6) = 0" "arr (m_data ?m) (m_dataStart ?m + 7) = 19"
    "arr (m_data ?m) (m_dataStart ?m + 46) = 0"
    by code_simp+
  have new: "find_sensor 0 19 (r_sdrs (mc_mainSdrs (w_mc demo_sdr_world))) = None"
    "length (r_sdrs (mc_mainSdrs (w_mc demo_sdr_world))) = 2"
    by code_simp+
  from addSdr_first_stays [OF w' h, of demo_env, unfolded new(1) option.case] obtain e w'' where
    e: "r_sdrs (mc_mainSdrs (w_mc w')) = r_sdrs (mc_mainSdrs (w_mc demo_sdr_world)) @ [e]"
    and w'': "addSdr demo_env ?m w' = Inr w''" "w_mc w'' = w_mc w'" by blast
  from new(2) e have "length (r_sdrs (mc_mainSdrs (w_mc w'))) = 3" by simp
  with w' w'' show ?thesis by blast
qed

text \<open>C37: The logical unit of an added record is lost. Whatever record an accepted Add SDR request (value
  byte 0) appends is filed under logical unit 0. So for a sensor of another logical unit
  that has no record, the repository grows by one record, and still has none for the
  sensor: the duplicate check never finds it, nor do value updates and readings.\<close>

theorem addSdr_loses_lun:
  assumes "addSdr env msg w = Inr w'" "arr (m_data msg) (m_dataStart msg + 46) = 0"
    "arr (m_data msg) (m_dataStart msg + 6) = lun" "lun \<noteq> 0"
    "find_sensor lun (arr (m_data msg) (m_dataStart msg + 7)) (r_sdrs (mc_mainSdrs (w_mc w))) = None"
  shows "length (r_sdrs (mc_mainSdrs (w_mc w'))) = Suc (length (r_sdrs (mc_mainSdrs (w_mc w)))) \<and>
    d_lun (last (r_sdrs (mc_mainSdrs (w_mc w')))) = 0 \<and>
    find_sensor lun (arr (m_data msg) (m_dataStart msg + 7)) (r_sdrs (mc_mainSdrs (w_mc w'))) = None"
  using addSdr_plain [OF assms(1,2) refl] assms(3-5)
  by (simp add: append_sdr_def find_sensor_appended)

theorem addSdr_loses_lun_witness:
  "\<exists>msg w'. arr (m_data msg) 6 = 1 \<and> addSdr demo_env msg demo_world = Inr w' \<and>
     find_sensor 1 0 (r_sdrs (mc_mainSdrs (w_mc w'))) = None"
proof -
  let ?msg = "demo_msg 0 [0, 0, 0, 0, 0, 0, 1]"
  have h: "arr (m_data ?msg) (m_dataStart ?msg + 46) = 0" "arr (m_data ?msg) (m_dataStart ?msg + 6) = 1"
    "(1 :: u8) \<noteq> 0" "find_sensor 1 (arr (m_data ?msg) (m_dataStart ?msg + 7)) (r_sdrs (mc_mainSdrs (w_mc demo_world))) = None"
    "arr (m_data ?msg) (m_dataStart ?msg + 7) = 0" "m_dataStart ?msg = 0"
    "unat (arr (m_data ?msg) (m_dataStart ?msg + 4) + 5) \<le> 62"
    by code_simp+
  obtain w' where w': "addSdr demo_env ?msg demo_world = Inr w'"
    using h returnRspData_total [of 3] by (fastforce simp: addSdr_eq Let_def)
  from addSdr_loses_lun [OF w' h(1-4)] w' h show ?thesis by (intro exI [of _ ?msg]) auto
qed

end
