(* ===== verification/Ipmi_Client.thy ===== *)
theory Ipmi_Client
  imports Ipmi_Wire
begin

text \<open>
  The client of \<open>ipmi_client.go\<close>, through which a line card talks to the management module: the
  request builders and response parsers, the exchange with its three tries, and the session set-up
  that runs the state table. The connection (package \<open>net\<close> and the remote card) is the parameter
  \<open>net\<close>, a function on an abstract connection state; a nil connection is \<open>None\<close>.
\<close>

definition CLIENT_RSADDR :: u8 where [protodefs]: "CLIENT_RSADDR = 0x20"
definition CLIENT_RQADDR :: u8 where [protodefs]: "CLIENT_RQADDR = 0x81"
definition INITIAL_OUTBOUND_SEQ :: u32 where [protodefs]: "INITIAL_OUTBOUND_SEQ = 0x3C2FB505"
definition PLAT_USERNAME :: "u8 list" where
  "PLAT_USERNAME = [0x69, 0x70, 0x6d, 0x69, 0x75, 0x73, 0x72]"

section \<open>Requests\<close>

definition clientBuildMsg ::
  "u8 list \<Rightarrow> u8 \<Rightarrow> u8 \<Rightarrow> u32 \<Rightarrow> u32 \<Rightarrow> u8 \<Rightarrow> u8 \<Rightarrow> u8 \<Rightarrow> u8 \<Rightarrow> u8 \<Rightarrow> u8 list" where
  "clientBuildMsg cmdData cmdLen reqLen sseq sid rsLun netFn rqLun rqSeq cmd =
     (let hdr = [6, 0, 0xff, 7, 0] @ putUint32 sseq @ putUint32 sid @ [reqLen];
          addr = [CLIENT_RSADDR, push_bit 2 netFn OR rsLun];
          body = [CLIENT_RQADDR, push_bit 2 rqSeq OR rqLun, cmd];
          payload = gslice cmdData 0 (unat cmdLen);
          csum = - ipmiChecksum body 3 0;
          data = hdr @ addr @ [ipmiChecksum addr 2 0] @ body @ payload
                 @ [ipmiChecksum payload (unat cmdLen) csum];
          dcur = length data
      in gslice data 0 (unat (of_nat dcur :: u8)))"

text \<open>A builder yields the request and the context with the advanced sequence numbers.\<close>

definition gcacBuildMsg :: "u8 \<Rightarrow> clientContextT \<Rightarrow> u8 list \<times> clientContextT" where
  "gcacBuildMsg reqLen ctx =
     (clientBuildMsg [0x0E, 0x03] 2 reqLen 0 0 0 APP_NETFN 0 (c_rqSeq ctx)
        GET_CHANNEL_AUTH_CAPABILITIES_CMD,
      ctx\<lparr>c_rqSeq := c_rqSeq ctx + 1\<rparr>)"

definition gscBuildMsg :: "u8 \<Rightarrow> clientContextT \<Rightarrow> u8 list \<times> clientContextT" where
  "gscBuildMsg reqLen ctx =
     (clientBuildMsg ([0] @ PLAT_USERNAME @ replicate 9 0) 17 reqLen 0 0 0 APP_NETFN 0 (c_rqSeq ctx)
        GET_SESSION_CHALLENGE_CMD,
      ctx\<lparr>c_rqSeq := c_rqSeq ctx + 1\<rparr>)"

definition asBuildMsg :: "u8 \<Rightarrow> clientContextT \<Rightarrow> u8 list \<times> clientContextT" where
  "asBuildMsg reqLen ctx =
     (clientBuildMsg ([0, 3] @ gslice (c_challengeStr ctx) 0 16 @ putUint32 INITIAL_OUTBOUND_SEQ) 22
        reqLen 0 (c_tempSessionId ctx) 0 APP_NETFN 0 (c_rqSeq ctx) ACTIVATE_SESSION_CMD,
      ctx\<lparr>c_rqSeq := c_rqSeq ctx + 1\<rparr>)"

definition sspBuildMsg :: "u8 \<Rightarrow> clientContextT \<Rightarrow> u8 list \<times> clientContextT" where
  "sspBuildMsg reqLen ctx =
     (clientBuildMsg [c_maxPrivLevel ctx] 1 reqLen (c_sessionSeq ctx) (c_sessionId ctx) 0 APP_NETFN 0
        (c_rqSeq ctx) SET_SESSION_PRIVILEGE_CMD,
      ctx\<lparr>c_rqSeq := c_rqSeq ctx + 1, c_sessionSeq := c_sessionSeq ctx + 1\<rparr>)"

definition addSdrBuildMsg :: "sdrT \<Rightarrow> clientContextT \<Rightarrow> u8 list \<times> clientContextT" where
  "addSdrBuildMsg sdr ctx =
     (let cmdData = gslice (d_data sdr) 0 64 in
      (clientBuildMsg cmdData (of_nat (length cmdData)) 70 (c_sessionSeq ctx) (c_sessionId ctx) 0
         STORAGE_NETFN 0 (c_rqSeq ctx) ADD_SDR_CMD,
       ctx\<lparr>c_rqSeq := c_rqSeq ctx + 1, c_sessionSeq := c_sessionSeq ctx + 1\<rparr>))"

section \<open>Responses\<close>

text \<open>
  A parser reads the receive buffer (zero behind the bytes received), says whether the response
  is the one awaited, and if so keeps its data in the context.
\<close>

definition clientBasicMsgCheck :: "u8 list \<Rightarrow> bool" where
  "clientBasicMsgCheck data \<longleftrightarrow> arr data 0 = 6 \<and> arr data 2 = 0xFF \<and> arr data 3 = 7"

definition rsp_good :: "u8 \<Rightarrow> u8 \<Rightarrow> u8 list \<Rightarrow> bool" where
  "rsp_good rspLen cmd data \<longleftrightarrow>
     clientBasicMsgCheck data \<and> arr data 13 = rspLen \<and> arr data 19 = cmd \<and> arr data 20 = 0"

type_synonym parser = "u8 list \<Rightarrow> clientContextT \<Rightarrow> bool \<times> clientContextT"

definition gcacParseRsp :: parser where
  "gcacParseRsp data ctx = (rsp_good 0x10 GET_CHANNEL_AUTH_CAPABILITIES_CMD data, ctx)"

definition gscParseRsp :: parser where
  "gscParseRsp data ctx =
     (if rsp_good 0x1C GET_SESSION_CHALLENGE_CMD data
      then (True, ctx\<lparr>c_tempSessionId := getUint32 data 21, c_challengeStr := gslice data 25 41\<rparr>)
      else (False, ctx))"

definition asParseRsp :: parser where
  "asParseRsp data ctx =
     (if rsp_good 0x12 ACTIVATE_SESSION_CMD data
      then (True, ctx\<lparr>c_sessionId := getUint32 data 22, c_sessionSeq := getUint32 data 26,
                      c_maxPrivLevel := arr data 30\<rparr>)
      else (False, ctx))"

definition sspParseRsp :: parser where
  "sspParseRsp data ctx =
     (if rsp_good 0x09 SET_SESSION_PRIVILEGE_CMD data
      then (True, ctx\<lparr>c_privLevel := arr data 21\<rparr>) else (False, ctx))"

definition addSdrParseRsp :: parser where
  "addSdrParseRsp data ctx = (rsp_good 0x0a ADD_SDR_CMD data, ctx)"

section \<open>Exchanges\<close>

text \<open>
  What the network does with one request: the write fails, the read fails, or bytes arrive, of
  which the 1000-byte receive buffer keeps the first 1000. The connection has no deadline: a read
  for which neither an answer nor an error ever comes blocks its goroutine for good. Such a read
  has no value here; the model is of the exchanges whose reads return.
\<close>

datatype exchange = WriteError | ReadError | Reply "u8 list"

type_synonym 'n net = "'n \<Rightarrow> u8 list \<Rightarrow> exchange \<times> 'n"

definition ipmiReqRsp ::
  "'n net \<Rightarrow> u8 list \<Rightarrow> parser \<Rightarrow> clientContextT \<Rightarrow> 'n option \<Rightarrow> (bool \<times> clientContextT \<times> 'n option) go" where
  "ipmiReqRsp net msgData parsersp ctx conn =
     (case conn of
        None \<Rightarrow> Inl NilDereference
      | Some n \<Rightarrow>
          (case net n msgData of
             (WriteError, n) \<Rightarrow> Inr (False, ctx, Some n)
           | (ReadError, n) \<Rightarrow> Inr (False, ctx, Some n)
           | (Reply rsp, n) \<Rightarrow>
               (case parsersp (take MAX_MSG_RETURN_DATA rsp) ctx of
                  (stateDone, ctx) \<Rightarrow> Inr (stateDone, ctx, Some n))))"

text \<open>The loop \<open>for try = 0; try < MAX_RETRIES; try++\<close> with the tries that are left.\<close>

fun try_exchange ::
  "nat \<Rightarrow> 'n net \<Rightarrow> u8 list \<Rightarrow> parser \<Rightarrow> clientContextT \<Rightarrow> 'n option \<Rightarrow> (bool \<times> clientContextT \<times> 'n option) go" where
  "try_exchange 0 net msgData parsersp ctx conn = Inr (False, ctx, conn)"
| "try_exchange (Suc k) net msgData parsersp ctx conn =
     go_bind (ipmiReqRsp net msgData parsersp ctx conn) (\<lambda>(done, ctx, conn).
       if done then Inr (True, ctx, conn) else try_exchange k net msgData parsersp ctx conn)"

text \<open>The state table of the session set-up.\<close>

record clientState =
  cs_buildmsg :: "u8 \<Rightarrow> clientContextT \<Rightarrow> u8 list \<times> clientContextT"
  cs_parsersp :: parser
  cs_reqLen :: u8

definition stateTable :: "clientState list" where
  "stateTable =
     [\<lparr>cs_buildmsg = gcacBuildMsg, cs_parsersp = gcacParseRsp, cs_reqLen = 0x09\<rparr>,
      \<lparr>cs_buildmsg = gscBuildMsg, cs_parsersp = gscParseRsp, cs_reqLen = 0x18\<rparr>,
      \<lparr>cs_buildmsg = asBuildMsg, cs_parsersp = asParseRsp, cs_reqLen = 0x1D\<rparr>,
      \<lparr>cs_buildmsg = sspBuildMsg, cs_parsersp = sspParseRsp, cs_reqLen = 0x08\<rparr>]"

fun establish ::
  "'n net \<Rightarrow> clientState list \<Rightarrow> clientContextT \<Rightarrow> 'n option \<Rightarrow> (clientContextT \<times> 'n option) go" where
  "establish net [] ctx conn = Inr (ctx, conn)"
| "establish net (st # sts) ctx conn =
     (case cs_buildmsg st (cs_reqLen st) ctx of
        (msgData, ctx) \<Rightarrow>
          go_bind (try_exchange MAX_RETRIES net msgData (cs_parsersp st) ctx conn) (\<lambda>(done, ctx, conn).
            if done then establish net sts ctx conn
            else Inl (PanicCall ''ipmiClient can't progress past state'')))"

definition ipmiEstablishSession ::
  "'n net \<Rightarrow> clientContextT \<Rightarrow> 'n option \<Rightarrow> (clientContextT \<times> 'n option) go" where
  "ipmiEstablishSession net ctx conn = establish net stateTable ctx conn"

section \<open>The layout of a request\<close>

definition client_head :: "u8 \<Rightarrow> u32 \<Rightarrow> u32 \<Rightarrow> u8 list" where
  "client_head reqLen sseq sid = [6, 0, 0xff, 7, 0] @ putUint32 sseq @ putUint32 sid @ [reqLen]"

definition client_tail :: "u8 list \<Rightarrow> u8 \<Rightarrow> u8 \<Rightarrow> u8 \<Rightarrow> u8 \<Rightarrow> u8 \<Rightarrow> u8 \<Rightarrow> u8 list" where
  "client_tail cmdData cmdLen rsLun netFn rqLun rqSeq cmd =
     (let body = [CLIENT_RQADDR, push_bit 2 rqSeq OR rqLun, cmd];
          payload = gslice cmdData 0 (unat cmdLen)
      in body @ payload @ [ipmiChecksum payload (unat cmdLen) (- ipmiChecksum body 3 0)])"

definition client_addr :: "u8 \<Rightarrow> u8 \<Rightarrow> u8 list" where
  "client_addr rsLun netFn = (let addr = [CLIENT_RSADDR, push_bit 2 netFn OR rsLun] in
     addr @ [ipmiChecksum addr 2 0])"

lemma client_parts_length [simp]:
  "length (client_head reqLen sseq sid) = 14"
  "length (client_addr rsLun netFn) = 3"
  "length (client_tail cmdData cmdLen rsLun netFn rqLun rqSeq cmd) = unat cmdLen + 4"
  by (simp_all add: client_head_def client_addr_def client_tail_def Let_def)

text \<open>The length of the packet is kept in a byte, so the parts come out whole below 235 bytes of data.\<close>

lemma clientBuildMsg_eq:
  assumes "unat cmdLen < 235"
  shows "clientBuildMsg cmdData cmdLen reqLen sseq sid rsLun netFn rqLun rqSeq cmd =
    client_head reqLen sseq sid @ client_addr rsLun netFn @ client_tail cmdData cmdLen rsLun netFn rqLun rqSeq cmd"
proof -
  let ?d = "client_head reqLen sseq sid @ client_addr rsLun netFn @ client_tail cmdData cmdLen rsLun netFn rqLun rqSeq cmd"
  have "length ?d = unat cmdLen + 21" by simp
  then have len: "unat (of_nat (length ?d) :: u8) = length ?d"
    using assms by (simp add: unat_of_nat del: of_nat_add)
  have "clientBuildMsg cmdData cmdLen reqLen sseq sid rsLun netFn rqLun rqSeq cmd =
      gslice ?d 0 (unat (of_nat (length ?d) :: u8))"
    by (simp add: clientBuildMsg_def client_head_def client_addr_def client_tail_def Let_def)
  then show ?thesis unfolding len by (simp only: gslice_whole)
qed

lemma client_addr_valid: "wire_valid (client_addr rsLun netFn)"
  by (simp add: client_addr_def wire_valid_def ipmiChecksum_2 Let_def)

lemma client_tail_valid: "wire_valid (client_tail cmdData cmdLen rsLun netFn rqLun rqSeq cmd)"
  using ipmiChecksum_sum [of "gslice cmdData 0 (unat cmdLen)"]
  by (simp add: client_tail_def wire_valid_def ipmiChecksum_3 Let_def)

lemma pack_hi:
  fixes x y :: u8
  assumes "y < 4"
  shows "drop_bit 2 (push_bit 2 x OR y) = take_bit 6 x"
proof (rule bit_word_eqI)
  fix n assume "n < LENGTH(8)"
  have "\<not> bit y (n + 2)" using small_word_high_bits [of y 2 "n + 2"] assms
    by (cases "n + 2 < LENGTH(8)") (auto dest: bit_imp_le_length)
  then show "bit (drop_bit 2 (push_bit 2 x OR y)) n = bit (take_bit 6 x) n"
    using \<open>n < LENGTH(8)\<close> by (auto simp: bit_simps)
qed

lemma pack_lo:
  fixes x y :: u8
  assumes "y < 4"
  shows "(push_bit 2 x OR y) AND 3 = y"
proof -
  have "\<not> bit y n" if "2 \<le> n" for n
    using small_word_high_bits [of y 2 n] assms that
    by (cases "n < LENGTH(8)") (auto dest: bit_imp_le_length)
  then have "take_bit 2 (push_bit 2 x OR y) = y"
    by (intro bit_word_eqI) (auto simp: bit_simps not_less)
  moreover have "(3 :: u8) = mask 2" by (simp add: mask_eq_exp_minus_1)
  ultimately show ?thesis by (simp add: take_bit_eq_mask)
qed

lemma arr_parts:
  "length a = n \<Longrightarrow> arr (a @ b) (n + i) = arr b i"
  by (simp add: arr_append)

lemma client_head_reads:
  "arr (client_head reqLen sseq sid @ rest) 2 = 0xff" "arr (client_head reqLen sseq sid @ rest) 3 = 7"
  "arr (client_head reqLen sseq sid @ rest) 4 = 0" "arr (client_head reqLen sseq sid @ rest) 0 = 6"
  "getUint32 (client_head reqLen sseq sid @ rest) 5 = sseq"
  "getUint32 (client_head reqLen sseq sid @ rest) 9 = sid"
  "arr (client_head reqLen sseq sid @ rest) 13 = reqLen"
  using join_bytes32 [of sseq] join_bytes32 [of sid]
  by (simp_all add: client_head_def putUint32_def getUint32_def)

lemma client_msg_reads:
  assumes pkt: "pkt = client_head reqLen sseq sid @ client_addr rsLun netFn @ client_tail cmdData cmdLen rsLun netFn rqLun rqSeq cmd"
  shows "arr pkt 14 = CLIENT_RSADDR" "arr pkt 15 = push_bit 2 netFn OR rsLun" "arr pkt 17 = CLIENT_RQADDR"
    "arr pkt 18 = push_bit 2 rqSeq OR rqLun" "arr pkt 19 = cmd"
    "i < unat cmdLen \<Longrightarrow> arr pkt (20 + i) = arr cmdData i"
proof -
  have "arr pkt (14 + j) = arr (client_addr rsLun netFn @ client_tail cmdData cmdLen rsLun netFn rqLun rqSeq cmd) j" for j
    unfolding pkt by (rule arr_parts) simp
  note a = this [of 0] this [of 1] this [of 3] this [of 4] this [of 5] this [of "6 + i"]
  have "arr (client_addr rsLun netFn @ client_tail cmdData cmdLen rsLun netFn rqLun rqSeq cmd) (3 + j)
      = arr (client_tail cmdData cmdLen rsLun netFn rqLun rqSeq cmd) j" for j
    by (rule arr_parts) simp
  note b = this [of 0] this [of 1] this [of 2] this [of "3 + i"]
  show "arr pkt 14 = CLIENT_RSADDR" "arr pkt 15 = push_bit 2 netFn OR rsLun"
    using a(1,2) by (simp_all add: client_addr_def Let_def)
  show "arr pkt 17 = CLIENT_RQADDR" "arr pkt 18 = push_bit 2 rqSeq OR rqLun" "arr pkt 19 = cmd"
    using a(3-5) b(1-3) by (simp_all add: client_tail_def Let_def)
  show "arr pkt (20 + i) = arr cmdData i" if "i < unat cmdLen"
  proof -
    have "arr (client_tail cmdData cmdLen rsLun netFn rqLun rqSeq cmd) (3 + i) = arr cmdData i"
      using that unfolding client_tail_def Let_def
      by (subst arr_parts) (auto simp: arr_def nth_append)
    with a(6) b(4) show ?thesis by (simp add: add.assoc [symmetric])
  qed
qed

text \<open>The message that the server's parser makes of a request.\<close>

definition parsed_client :: "u8 \<Rightarrow> nat \<Rightarrow> u8 list \<Rightarrow> u32 \<Rightarrow> u32 \<Rightarrow> u8 \<Rightarrow> u8 \<Rightarrow> u8 \<Rightarrow> u8 \<Rightarrow> u8 \<Rightarrow> msgT" where
  "parsed_client chan addr pkt sseq sid rsLun netFn rqLun rqSeq cmd =
     \<lparr>m_channel = chan, m_sid = sid, m_authtype = 0,
      m_hdr = \<lparr>h_version = 6, h_reserved = 0, h_rmcpSeq = 0xff, h_class = 7\<rparr>,
      m_session = zero_rmcp_session\<lparr>rs_seq := sseq, rs_sid := sid\<rparr>,
      m_message = \<lparr>rm_rsAddr = CLIENT_RSADDR, rm_netfn = netFn, rm_rsLun = rsLun, rm_rqAddr = CLIENT_RQADDR,
        rm_rqSeq = take_bit 6 rqSeq, rm_rqLun = rqLun, rm_cmd = cmd\<rparr>,
      m_remoteAddr = addr, m_data = pkt, m_dataStart = 20, m_dataLen = length pkt\<rparr>"

lemma client_parse:
  assumes "unat cmdLen < 235" "netFn < 64" "rsLun < 4" "rqLun < 4"
  shows "ipmiParseMsg ((received addr (clientBuildMsg cmdData cmdLen reqLen sseq sid rsLun netFn rqLun rqSeq cmd))
      \<lparr>m_channel := chan\<rparr>) w =
    (parsed_client chan addr (clientBuildMsg cmdData cmdLen reqLen sseq sid rsLun netFn rqLun rqSeq cmd)
       sseq sid rsLun netFn rqLun rqSeq cmd, w)"
proof -
  define d where "d = client_head reqLen sseq sid @ client_addr rsLun netFn
    @ client_tail cmdData cmdLen rsLun netFn rqLun rqSeq cmd"
  note msg = client_msg_reads [OF d_def]
  have head: "arr d 0 = 6" "arr d 2 = 0xff" "arr d 3 = 7" "arr d 4 = 0" "getUint32 d 5 = sseq" "getUint32 d 9 = sid"
    unfolding d_def by (simp_all only: client_head_reads)
  note two = head(2) [unfolded numeral_2_eq_2]
  have "length d \<le> 4000" using assms(1) by (simp add: d_def)
  then have recv: "received addr d = \<lparr>m_channel = 0, m_sid = 0, m_authtype = 0, m_hdr = zero_hdr,
      m_session = zero_rmcp_session, m_message = zero_rmcp_message, m_remoteAddr = addr,
      m_data = d, m_dataStart = 0, m_dataLen = length d\<rparr>"
    by (simp add: received_def MAX_MSG_DATA_def)
  have "take_bit 6 netFn = netFn"
    using assms(2) by (simp add: take_bit_eq_mask less_mask_eq)
  then have fields: "drop_bit 2 (push_bit 2 netFn OR rsLun) = netFn" "(push_bit 2 netFn OR rsLun) AND 3 = rsLun"
    "drop_bit 2 (push_bit 2 rqSeq OR rqLun) = take_bit 6 rqSeq" "(push_bit 2 rqSeq OR rqLun) AND 3 = rqLun"
    using pack_hi [OF assms(3)] pack_lo [OF assms(3)] pack_hi [OF assms(4)] pack_lo [OF assms(4)] by simp_all
  have d: "clientBuildMsg cmdData cmdLen reqLen sseq sid rsLun netFn rqLun rqSeq cmd = d"
    by (simp add: clientBuildMsg_eq assms(1) d_def)
  have "ipmiParseMsg ((received addr d)\<lparr>m_channel := chan\<rparr>) w = (ipmiParseRmcpMsg ((received addr d)\<lparr>m_channel := chan\<rparr>), w)"
    using head by (simp add: ipmiParseMsg_def recv protodefs)
  moreover have "ipmiParseRmcpMsg ((received addr d)\<lparr>m_channel := chan\<rparr>) =
      parsed_client chan addr d sseq sid rsLun netFn rqLun rqSeq cmd"
    using head two msg fields
    by (simp add: ipmiParseRmcpMsg_def recv Let_def protodefs parsed_client_def zero_hdr_def zero_rmcp_session_def)
  ultimately show ?thesis by (simp only: d)
qed

lemma client_data:
  "unat cmdLen < 235 \<Longrightarrow> i < unat cmdLen \<Longrightarrow>
   arr (clientBuildMsg cmdData cmdLen reqLen sseq sid rsLun netFn rqLun rqSeq cmd) (20 + i) = arr cmdData i"
  using client_msg_reads(6) [OF refl] by (simp add: clientBuildMsg_eq)

section \<open>The tries of an exchange\<close>

text \<open>A connection that records every request written to it with what came of it.\<close>

definition logging :: "'n net \<Rightarrow> ('n \<times> (u8 list \<times> exchange) list) net" where
  "logging net = (\<lambda>(n, log) msg. case net n msg of (x, n') \<Rightarrow> (x, (n', log @ [(msg, x)])))"

text \<open>
  One run of tries: identical requests, at most three, of which the last and no other one got an
  answer that is awaited; \<open>a\<close> is that answer as the parser reads it.
\<close>

definition answers :: "(u8 list \<Rightarrow> bool) \<Rightarrow> u8 list \<times> exchange \<Rightarrow> u8 list option" where
  "answers awaited x = (case snd x of
     Reply raw \<Rightarrow> if awaited (take MAX_MSG_RETURN_DATA raw) then Some (take MAX_MSG_RETURN_DATA raw) else None
   | _ \<Rightarrow> None)"

definition tries :: "u8 list \<Rightarrow> (u8 list \<Rightarrow> bool) \<Rightarrow> u8 list \<Rightarrow> (u8 list \<times> exchange) list \<Rightarrow> bool" where
  "tries req awaited a r \<longleftrightarrow> r \<noteq> [] \<and> length r \<le> 3 \<and> (\<forall>x \<in> set r. fst x = req) \<and>
     answers awaited (last r) = Some a \<and> (\<forall>x \<in> set (butlast r). answers awaited x = None)"

text \<open>What every parser does: decide on the answer alone, and keep the context on a refusal.\<close>

definition decides :: "parser \<Rightarrow> (u8 list \<Rightarrow> bool) \<Rightarrow> bool" where
  "decides p awaited \<longleftrightarrow> (\<forall>d c. fst (p d c) = awaited d \<and> (\<not> awaited d \<longrightarrow> snd (p d c) = c))"

lemma parsers_decide:
  "decides gcacParseRsp (rsp_good 0x10 GET_CHANNEL_AUTH_CAPABILITIES_CMD)"
  "decides gscParseRsp (rsp_good 0x1C GET_SESSION_CHALLENGE_CMD)"
  "decides asParseRsp (rsp_good 0x12 ACTIVATE_SESSION_CMD)"
  "decides sspParseRsp (rsp_good 0x09 SET_SESSION_PRIVILEGE_CMD)"
  "decides addSdrParseRsp (rsp_good 0x0a ADD_SDR_CMD)"
  by (simp_all add: decides_def gcacParseRsp_def gscParseRsp_def asParseRsp_def sspParseRsp_def addSdrParseRsp_def)

lemma ipmiReqRsp_log:
  assumes "decides p awaited"
  obtains n' x where "ipmiReqRsp (logging net) msg p ctx (Some (n, log)) =
    (case answers awaited (msg, x) of
       None \<Rightarrow> Inr (False, ctx, Some (n', log @ [(msg, x)]))
     | Some a \<Rightarrow> Inr (True, snd (p a ctx), Some (n', log @ [(msg, x)])))"
proof -
  obtain x n' where net: "net n msg = (x, n')" by fastforce
  have dec: "p d ctx = (if awaited d then (True, snd (p d ctx)) else (False, ctx))" for d
    using assms by (simp add: decides_def prod_eq_iff)
  show ?thesis
  proof (rule that)
    show "ipmiReqRsp (logging net) msg p ctx (Some (n, log)) =
      (case answers awaited (msg, x) of
         None \<Rightarrow> Inr (False, ctx, Some (n', log @ [(msg, x)]))
       | Some a \<Rightarrow> Inr (True, snd (p a ctx), Some (n', log @ [(msg, x)])))"
    proof (cases x)
      case (Reply raw)
      show ?thesis
        using dec [of "take MAX_MSG_RETURN_DATA raw"]
        by (cases "awaited (take MAX_MSG_RETURN_DATA raw)"; cases "p (take MAX_MSG_RETURN_DATA raw) ctx")
          (simp_all add: ipmiReqRsp_def logging_def net answers_def Reply)
    qed (simp_all add: ipmiReqRsp_def logging_def net answers_def)
  qed
qed

lemma try_exchange_log:
  assumes "decides p awaited"
  obtains n' r ok c where "try_exchange k (logging net) msg p ctx (Some (n, log)) = Inr (ok, c, Some (n', log @ r))"
    "length r \<le> k" "\<forall>x \<in> set r. fst x = msg" "\<forall>x \<in> set (butlast r). answers awaited x = None"
    "if ok then r \<noteq> [] \<and> (\<exists>a. answers awaited (last r) = Some a \<and> c = snd (p a ctx)) else length r = k \<and> c = ctx"
proof (induction k arbitrary: n log thesis)
  case 0
  show ?case by (rule 0 [of False ctx n "[]"]) simp_all
next
  case (Suc k)
  obtain n1 x where one: "ipmiReqRsp (logging net) msg p ctx (Some (n, log)) =
    (case answers awaited (msg, x) of
       None \<Rightarrow> Inr (False, ctx, Some (n1, log @ [(msg, x)]))
     | Some a \<Rightarrow> Inr (True, snd (p a ctx), Some (n1, log @ [(msg, x)])))"
    by (rule ipmiReqRsp_log [OF assms])
  show ?case
  proof (cases "answers awaited (msg, x)")
    case (Some a)
    with one show ?thesis by (intro Suc.prems [of True "snd (p a ctx)" n1 "[(msg, x)]"]) simp_all
  next
    case None
    obtain n' r ok c where r: "try_exchange k (logging net) msg p ctx (Some (n1, log @ [(msg, x)])) =
        Inr (ok, c, Some (n', (log @ [(msg, x)]) @ r))"
      "length r \<le> k" "\<forall>x \<in> set r. fst x = msg" "\<forall>x \<in> set (butlast r). answers awaited x = None"
      "if ok then r \<noteq> [] \<and> (\<exists>a. answers awaited (last r) = Some a \<and> c = snd (p a ctx)) else length r = k \<and> c = ctx"
      by (rule Suc.IH)
    with one None show ?thesis
      by (intro Suc.prems [of ok c n' "(msg, x) # r"]) (auto split: if_splits)
  qed
qed

text \<open>One state of a set-up that succeeds.\<close>

lemma establish_log:
  assumes run: "establish (logging net) (\<lparr>cs_buildmsg = f, cs_parsersp = p, cs_reqLen = l\<rparr> # sts) ctx (Some (n, log)) = Inr res"
    and dec: "decides p awaited"
  obtains n1 r a where "tries (fst (f l ctx)) awaited a r"
    "establish (logging net) sts (snd (p a (snd (f l ctx)))) (Some (n1, log @ r)) = Inr res"
proof -
  obtain msg ctx1 where b: "f l ctx = (msg, ctx1)" by fastforce
  obtain n1 r ok c where r: "try_exchange MAX_RETRIES (logging net) msg p ctx1 (Some (n, log)) =
      Inr (ok, c, Some (n1, log @ r))"
    "length r \<le> MAX_RETRIES" "\<forall>x \<in> set r. fst x = msg" "\<forall>x \<in> set (butlast r). answers awaited x = None"
    "if ok then r \<noteq> [] \<and> (\<exists>a. answers awaited (last r) = Some a \<and> c = snd (p a ctx1))
     else length r = MAX_RETRIES \<and> c = ctx1"
    by (rule try_exchange_log [OF dec])
  from run b r(1) have ok: "ok" "establish (logging net) sts c (Some (n1, log @ r)) = Inr res"
    by (simp_all split: if_splits)
  with r(5) obtain a where "r \<noteq> []" "answers awaited (last r) = Some a" "c = snd (p a ctx1)" by auto
  with r(2-4) ok(2) b show ?thesis
    by (intro that [of a r n1]) (simp_all add: tries_def MAX_RETRIES_def)
qed

text \<open>A connection that behaves as \<open>net\<close> for its first \<open>k\<close> requests and then as \<open>alt\<close>.\<close>

definition cut_off :: "nat \<Rightarrow> 'n net \<Rightarrow> 'n net \<Rightarrow> ('n \<times> nat) net" where
  "cut_off k net alt = (\<lambda>(n, i) msg. case (if i < k then net else alt) n msg of (x, n') \<Rightarrow> (x, (n', i + 1)))"

lemma try_exchange_cut:
  "i + k \<le> N \<Longrightarrow> \<exists>ok c' n' i'. try_exchange k (cut_off N net alt) msg p c (Some (n, i)) = Inr (ok, c', Some (n', i')) \<and>
     try_exchange k (cut_off N net alt') msg p c (Some (n, i)) = Inr (ok, c', Some (n', i')) \<and> i' \<le> i + k"
proof (induction k arbitrary: c n i)
  case (Suc k)
  then have cut: "cut_off N net x (n, i) msg = (fst (net n msg), snd (net n msg), Suc i)" for x
    by (simp add: cut_off_def split_beta)
  obtain ok c1 n1 where one: "ipmiReqRsp (cut_off N net alt) msg p c (Some (n, i)) = Inr (ok, c1, Some (n1, Suc i))"
    "ipmiReqRsp (cut_off N net alt') msg p c (Some (n, i)) = Inr (ok, c1, Some (n1, Suc i))"
  proof (cases "fst (net n msg)")
    case (Reply raw)
    then show ?thesis
      by (cases "p (take MAX_MSG_RETURN_DATA raw) c") (auto simp: ipmiReqRsp_def cut intro: that)
  qed (auto simp: ipmiReqRsp_def cut intro: that)
  with Suc.IH [of "Suc i" c1 n1] Suc.prems show ?case by (cases ok) auto
qed auto

lemma establish_cut:
  "i + MAX_RETRIES * length sts \<le> N \<Longrightarrow>
   establish (cut_off N net alt) sts c (Some (n, i)) = establish (cut_off N net alt') sts c (Some (n, i))"
proof (induction sts arbitrary: c n i)
  case (Cons st sts)
  obtain msg c1 where b: "cs_buildmsg st (cs_reqLen st) c = (msg, c1)" by fastforce
  have "i + MAX_RETRIES \<le> N" using Cons.prems by simp
  from try_exchange_cut [OF this, of net alt msg "cs_parsersp st" c1 n alt'] obtain ok c2 n2 i2 where
    t: "try_exchange MAX_RETRIES (cut_off N net alt) msg (cs_parsersp st) c1 (Some (n, i)) = Inr (ok, c2, Some (n2, i2))"
      "try_exchange MAX_RETRIES (cut_off N net alt') msg (cs_parsersp st) c1 (Some (n, i)) = Inr (ok, c2, Some (n2, i2))"
      "i2 \<le> i + MAX_RETRIES" by blast
  have "i2 + MAX_RETRIES * length sts \<le> N" using t(3) Cons.prems by simp
  with Cons.IH [OF this, of c2 n2] b t(1,2) show ?case by simp
qed simp

lemma try_exchange_total:
  "\<exists>ok c n'. try_exchange k net msg p ctx (Some n) = Inr (ok, c, Some n')"
proof (induction k arbitrary: ctx n)
  case (Suc k)
  have "\<exists>ok c n'. ipmiReqRsp net msg p ctx (Some n) = Inr (ok, c, Some n')"
    by (auto simp: ipmiReqRsp_def split: prod.splits exchange.splits)
  then obtain ok c n' where "ipmiReqRsp net msg p ctx (Some n) = Inr (ok, c, Some n')" by blast
  with Suc.IH [of c n'] show ?case by (cases ok) auto
qed auto

lemma establish_panic:
  "establish net sts ctx (Some n) = Inl e \<Longrightarrow> e = PanicCall ''ipmiClient can't progress past state''"
proof (induction sts arbitrary: ctx n)
  case (Cons st sts)
  obtain msg ctx1 where b: "cs_buildmsg st (cs_reqLen st) ctx = (msg, ctx1)" by fastforce
  obtain ok c n' where t: "try_exchange MAX_RETRIES net msg (cs_parsersp st) ctx1 (Some n) = Inr (ok, c, Some n')"
    using try_exchange_total [of MAX_RETRIES net msg "cs_parsersp st" ctx1 n] by blast
  show ?case
    using Cons.prems Cons.IH [of c n'] b t by (cases ok) auto
qed simp

lemma establish_connected:
  "establish net sts ctx (Some n) = Inr (ctx', conn) \<Longrightarrow> conn \<noteq> None"
proof (induction sts arbitrary: ctx n)
  case (Cons st sts)
  obtain msg ctx1 where b: "cs_buildmsg st (cs_reqLen st) ctx = (msg, ctx1)" by fastforce
  obtain ok c n' where t: "try_exchange MAX_RETRIES net msg (cs_parsersp st) ctx1 (Some n) = Inr (ok, c, Some n')"
    using try_exchange_total [of MAX_RETRIES net msg "cs_parsersp st" ctx1 n] by blast
  show ?case
    using Cons.prems Cons.IH [of c n'] b t by (cases ok) auto
qed auto

section \<open>Properties\<close>

text \<open>C14: The server understands what the client builds. For every request of the client (up to 234 bytes
  of command data), the server's parser recovers the session sequence number, the session id, the
  network function, the addresses, the logical units, the low 6 bits of the request sequence
  number and the command, and leaves the data index at the first byte of the command data, which
  is there byte for byte. Nothing is sent or changed by parsing.\<close>

theorem client_request_parsed:
  assumes "unat cmdLen < 235" "netFn < 64" "rsLun < 4" "rqLun < 4"
    and "ipmiParseMsg (received addr (clientBuildMsg cmdData cmdLen reqLen sseq sid rsLun netFn rqLun rqSeq cmd)) w = (m, w')"
  shows "w' = w \<and> m_sid m = sid \<and> m_authtype m = IPMI_AUTHTYPE_NONE \<and> rs_seq (m_session m) = sseq \<and>
    m_message m = \<lparr>rm_rsAddr = CLIENT_RSADDR, rm_netfn = netFn, rm_rsLun = rsLun, rm_rqAddr = CLIENT_RQADDR,
      rm_rqSeq = take_bit 6 rqSeq, rm_rqLun = rqLun, rm_cmd = cmd\<rparr> \<and>
    m_remoteAddr m = addr \<and> m_dataStart m = 20 \<and>
    (\<forall>i. i < unat cmdLen \<longrightarrow> arr (m_data m) (m_dataStart m + i) = arr cmdData i)"
proof -
  let ?pkt = "clientBuildMsg cmdData cmdLen reqLen sseq sid rsLun netFn rqLun rqSeq cmd"
  have same: "(received addr ?pkt)\<lparr>m_channel := 0\<rparr> = received addr ?pkt" by (simp add: received_def)
  have "(m, w') = (parsed_client 0 addr ?pkt sseq sid rsLun netFn rqLun rqSeq cmd, w)"
    using client_parse [OF assms(1-4), where chan = 0] assms(5) by (metis same)
  with client_data [OF assms(1)] show ?thesis by (simp add: parsed_client_def protodefs)
qed

theorem client_request_parsed_witness:
  "\<exists>m w'. ipmiParseMsg (received 5 (fst (sspBuildMsg 8 (init_clientCtx\<lparr>c_sessionId := 0x82, c_maxPrivLevel := 3\<rparr>)))) demo_world
      = (m, w') \<and> w' = demo_world \<and> m_sid m = 0x82 \<and> arr (m_data m) (m_dataStart m) = 3"
proof -
  let ?ctx = "init_clientCtx\<lparr>c_sessionId := 0x82, c_maxPrivLevel := 3\<rparr>"
  let ?pkt = "clientBuildMsg [3] 1 8 0 0x82 0 APP_NETFN 0 1 SET_SESSION_PRIVILEGE_CMD"
  obtain m w' where m: "ipmiParseMsg (received 5 ?pkt) demo_world = (m, w')" by fastforce
  have "fst (sspBuildMsg 8 ?ctx) = ?pkt"
    by (simp add: sspBuildMsg_def init_clientCtx_def)
  moreover have "APP_NETFN < 64" "unat (1 :: u8) < 235" "(0 :: u8) < 4" by (simp_all add: protodefs)
  ultimately show ?thesis
    using client_request_parsed [OF _ _ _ _ m] m by (auto dest: spec [of _ 0])
qed

text \<open>C27: Every request of the session set-up is valid on the wire. Whatever the client's context, the
  request of each state of the state table is a 14-byte header followed by two blocks whose bytes
  each sum to 0 modulo 256, and the header's length byte is the number of bytes behind it.\<close>

theorem client_handshake_valid:
  assumes "st \<in> set stateTable"
  shows "\<exists>hdr b1 b2. fst (cs_buildmsg st (cs_reqLen st) ctx) = hdr @ b1 @ b2 \<and> length hdr = 14 \<and>
    wire_valid b1 \<and> wire_valid b2 \<and> unat (last hdr) = length b1 + length b2"
proof -
  have "\<exists>hdr b1 b2. clientBuildMsg d n (n + 7) sseq sid 0 f 0 q c = hdr @ b1 @ b2 \<and> length hdr = 14 \<and>
      wire_valid b1 \<and> wire_valid b2 \<and> unat (last hdr) = length b1 + length b2" if "unat n < 235" for d n sseq sid f q c
    using that client_addr_valid [of 0 f] client_tail_valid [of d n 0 f 0 q c]
    unfolding clientBuildMsg_eq [OF that]
    by (intro exI [of _ "client_head (n + 7) sseq sid"] exI [of _ "client_addr 0 f"]
        exI [of _ "client_tail d n 0 f 0 q c"]) (simp add: client_head_def unat_word_ariths)
  note this [of 2] this [of 17] this [of 22] this [of 1]
  with assms show ?thesis
    by (auto simp: stateTable_def gcacBuildMsg_def gscBuildMsg_def asBuildMsg_def sspBuildMsg_def)
qed

theorem client_handshake_valid_witness:
  "\<exists>hdr b1 b2. fst (sspBuildMsg 8 init_clientCtx) = hdr @ b1 @ b2 \<and> wire_valid b1 \<and> wire_valid b2"
  using client_handshake_valid [of "stateTable ! 3" init_clientCtx] by (auto simp: stateTable_def)

text \<open>C39: The length byte of the SDR transfer to the management module is one short. Every Add SDR request
  of the client announces 70 bytes behind the header, and 71 follow.\<close>

theorem addSdr_request_length:
  "length (fst (addSdrBuildMsg sdr ctx)) = 85 \<and> arr (fst (addSdrBuildMsg sdr ctx)) 13 = 70"
proof -
  have "unat (64 :: u8) < 235" by simp
  from clientBuildMsg_eq [OF this] show ?thesis
    using client_head_reads(7) by (simp add: addSdrBuildMsg_def Let_def)
qed

text \<open>C23: What a session set-up says. When it succeeds, the requests it has written are four runs of at most
  three identical requests: the capabilities, the challenge for the platform user, the activation with
  the temporary id and the challenge string of the answer to the second, and the privilege change with
  the session id, sequence number and level of the answer to the third; request numbers count up
  from the context's. Each run ends with the first answer that its parser accepts, and a failed,
  lost or unaccepted try repeats the request as it was.\<close>

theorem establish_requests:
  assumes "ipmiEstablishSession (logging net) ctx (Some (n, [])) = Inr (ctx', conn)"
  shows "\<exists>n' r1 r2 r3 r4 a1 a2 a3 a4 c2 c3 c4. conn = Some (n', r1 @ r2 @ r3 @ r4) \<and>
    tries (fst (gcacBuildMsg 0x09 ctx)) (rsp_good 0x10 GET_CHANNEL_AUTH_CAPABILITIES_CMD) a1 r1 \<and>
    c2 = ctx\<lparr>c_rqSeq := c_rqSeq ctx + 1\<rparr> \<and>
    tries (fst (gscBuildMsg 0x18 c2)) (rsp_good 0x1C GET_SESSION_CHALLENGE_CMD) a2 r2 \<and>
    c3 = c2\<lparr>c_rqSeq := c_rqSeq ctx + 2, c_tempSessionId := getUint32 a2 21, c_challengeStr := gslice a2 25 41\<rparr> \<and>
    tries (fst (asBuildMsg 0x1D c3)) (rsp_good 0x12 ACTIVATE_SESSION_CMD) a3 r3 \<and>
    c4 = c3\<lparr>c_rqSeq := c_rqSeq ctx + 3, c_sessionId := getUint32 a3 22, c_sessionSeq := getUint32 a3 26,
            c_maxPrivLevel := arr a3 30\<rparr> \<and>
    tries (fst (sspBuildMsg 0x08 c4)) (rsp_good 0x09 SET_SESSION_PRIVILEGE_CMD) a4 r4"
proof -
  note run = assms [unfolded ipmiEstablishSession_def stateTable_def]
  have good: "awaited a" if "tries q awaited a r" for q awaited a r
    using that by (auto simp: tries_def answers_def split: exchange.splits if_splits)
  let ?c2 = "ctx\<lparr>c_rqSeq := c_rqSeq ctx + 1\<rparr>"
  obtain n1 r1 a1 where 1: "tries (fst (gcacBuildMsg 0x09 ctx)) (rsp_good 0x10 GET_CHANNEL_AUTH_CAPABILITIES_CMD) a1 r1"
    and run2: "establish (logging net) (tl stateTable) (snd (gcacParseRsp a1 (snd (gcacBuildMsg 0x09 ctx)))) (Some (n1, [] @ r1)) = Inr (ctx', conn)"
    unfolding stateTable_def list.sel by (rule establish_log [OF run parsers_decide(1)])
  have c2: "snd (gcacParseRsp a1 (snd (gcacBuildMsg 0x09 ctx))) = ?c2"
    by (simp add: gcacParseRsp_def gcacBuildMsg_def)
  obtain n2 r2 a2 where 2: "tries (fst (gscBuildMsg 0x18 ?c2)) (rsp_good 0x1C GET_SESSION_CHALLENGE_CMD) a2 r2"
    and run3: "establish (logging net) (tl (tl stateTable)) (snd (gscParseRsp a2 (snd (gscBuildMsg 0x18 ?c2)))) (Some (n2, ([] @ r1) @ r2)) = Inr (ctx', conn)"
    unfolding stateTable_def list.sel
    by (rule establish_log [OF run2 [unfolded c2 stateTable_def list.sel] parsers_decide(2)])
  let ?c3 = "?c2\<lparr>c_rqSeq := c_rqSeq ctx + 2, c_tempSessionId := getUint32 a2 21, c_challengeStr := gslice a2 25 41\<rparr>"
  have c3: "snd (gscParseRsp a2 (snd (gscBuildMsg 0x18 ?c2))) = ?c3"
    using good [OF 2] by (simp add: gscParseRsp_def gscBuildMsg_def)
  obtain n3 r3 a3 where 3: "tries (fst (asBuildMsg 0x1D ?c3)) (rsp_good 0x12 ACTIVATE_SESSION_CMD) a3 r3"
    and run4: "establish (logging net) (tl (tl (tl stateTable))) (snd (asParseRsp a3 (snd (asBuildMsg 0x1D ?c3)))) (Some (n3, (([] @ r1) @ r2) @ r3)) = Inr (ctx', conn)"
    unfolding stateTable_def list.sel
    by (rule establish_log [OF run3 [unfolded c3 stateTable_def list.sel] parsers_decide(3)])
  let ?c4 = "?c3\<lparr>c_rqSeq := c_rqSeq ctx + 3, c_sessionId := getUint32 a3 22, c_sessionSeq := getUint32 a3 26,
      c_maxPrivLevel := arr a3 30\<rparr>"
  have c4: "snd (asParseRsp a3 (snd (asBuildMsg 0x1D ?c3))) = ?c4"
    using good [OF 3] by (simp add: asParseRsp_def asBuildMsg_def)
  obtain n4 r4 a4 where 4: "tries (fst (sspBuildMsg 0x08 ?c4)) (rsp_good 0x09 SET_SESSION_PRIVILEGE_CMD) a4 r4"
    and fin: "establish (logging net) [] (snd (sspParseRsp a4 (snd (sspBuildMsg 0x08 ?c4)))) (Some (n4, ((([] @ r1) @ r2) @ r3) @ r4)) = Inr (ctx', conn)"
    by (rule establish_log [OF run4 [unfolded c4 stateTable_def list.sel] parsers_decide(4)])
  from fin have "conn = Some (n4, r1 @ r2 @ r3 @ r4)" by simp
  with 1 2 3 4 show ?thesis by blast
qed

text \<open>A connection that loses the first request and then gives the answers awaited.\<close>

definition demo_reply :: "u8 \<Rightarrow> u8 \<Rightarrow> exchange" where
  "demo_reply len cmd = Reply ([6, 0, 0xff, 7] @ replicate 9 0 @ [len] @ replicate 5 0 @ [cmd, 0] @ replicate 21 7)"

definition demo_net :: "nat net" where
  "demo_net n msg = ([ReadError, demo_reply 0x10 0x38, demo_reply 0x1C 0x39, demo_reply 0x12 0x3a,
     demo_reply 0x09 0x3b] ! n, n + 1)"

theorem establish_requests_witness:
  "\<exists>ctx' n' r1 rest a. ipmiEstablishSession (logging demo_net) init_clientCtx (Some (0, [])) = Inr (ctx', Some (n', r1 @ rest)) \<and>
     tries (fst (gcacBuildMsg 0x09 init_clientCtx)) (rsp_good 0x10 GET_CHANNEL_AUTH_CAPABILITIES_CMD) a r1"
proof -
  have "(case ipmiEstablishSession (logging demo_net) init_clientCtx (Some (0, [])) of
      Inl e \<Rightarrow> False | Inr r \<Rightarrow> True)"
    by code_simp
  then obtain ctx' conn where
    r: "ipmiEstablishSession (logging demo_net) init_clientCtx (Some (0, [])) = Inr (ctx', conn)"
    by (auto split: sum.splits)
  from establish_requests [OF r] r show ?thesis by blast
qed

text \<open>C24: No set-up, failed ones included, makes more than twelve tries. Whatever the network answers, what it
  would do with a thirteenth request has no influence on the outcome, which is a session or the
  panic that the client cannot get past a state. (Every write and read of the exchanges returns, with an
  answer or an error; a read that waits for ever is outside the model.)\<close>

theorem establish_bounded:
  "ipmiEstablishSession (cut_off 12 net alt) ctx (Some (n, 0)) = ipmiEstablishSession (cut_off 12 net alt') ctx (Some (n, 0)) \<and>
   ((\<exists>ctx' n'. ipmiEstablishSession net ctx (Some n) = Inr (ctx', Some n')) \<or>
    ipmiEstablishSession net ctx (Some n) = Inl (PanicCall ''ipmiClient can't progress past state''))"
proof
  have "0 + MAX_RETRIES * length stateTable \<le> 12" by (simp add: stateTable_def MAX_RETRIES_def)
  then show "ipmiEstablishSession (cut_off 12 net alt) ctx (Some (n, 0)) = ipmiEstablishSession (cut_off 12 net alt') ctx (Some (n, 0))"
    unfolding ipmiEstablishSession_def by (rule establish_cut)
  show "(\<exists>ctx' n'. ipmiEstablishSession net ctx (Some n) = Inr (ctx', Some n')) \<or>
    ipmiEstablishSession net ctx (Some n) = Inl (PanicCall ''ipmiClient can't progress past state'')"
    using establish_panic [of net stateTable ctx n] establish_connected [of net stateTable ctx n]
    by (cases "ipmiEstablishSession net ctx (Some n)") (auto simp: ipmiEstablishSession_def)
qed

end
