(* ===== verification/Sensor_Cmds.thy ===== *)
theory Sensor_Cmds
  imports Sdr_Repo Ipmi_Client
begin

text \<open>
  The sensor commands of \<open>ipmi_internal_sensor.go\<close> that act: Get Sensor Reading, and the poll that
  a ticker runs every three seconds, which updates the sensors and their records and, on a line
  card, sends every reading to the management module. The random numbers of the simulation and
  the connection are parameters.
\<close>

definition getSensorReading :: handler where
  "getSensorReading env msg w =
     (let sensNum = arr (m_data msg) (m_dataStart msg); sdrs = r_sdrs (mc_mainSdrs (w_mc w)) in
      case find_sensor (rm_rsLun (m_message msg)) sensNum sdrs of
        None \<Rightarrow> returnErr msg None 0x81 w
      | Some i \<Rightarrow>
          let entry = sdrs ! i;
              sensEn = (if d_eventsEnabled entry then 1 else 0);
              scanEn = (if d_scanningEnabled entry \<and> d_enabled entry then 1 else 0)
          in returnRspData msg None
               ([0, d_value entry, push_bit 7 sensEn OR push_bit 6 scanEn]
                @ putUint16 (d_eventStatus entry)) 5 w)"

text \<open>The switch of the simulation: \<open>x\<close> is the low byte of \<open>rand.Int()\<close>.\<close>

definition sim_value :: "u8 \<Rightarrow> nat \<Rightarrow> u8 \<Rightarrow> u8" where
  "sim_value x sensNum value =
     (if sensNum \<in> {1, 17, 33} then (x AND 0xf) + 20
      else if sensNum \<in> {2, 18, 34} then x AND 0xf
      else if sensNum \<in> {3, 19, 35} then x AND 0x7
      else if sensNum \<in> {4, 20, 36} then x AND 0x3f
      else value)"

definition set_sensor :: "nat \<Rightarrow> nat \<Rightarrow> sensorT \<Rightarrow> mcT \<Rightarrow> mcT" where
  "set_sensor lun num s mc = mc\<lparr>mc_sensors := (mc_sensors mc)(lun := (mc_sensors mc lun)(num := Some s))\<rparr>"

text \<open>
  One turn of the loops. The variable \<open>value\<close> lives across turns, so a sensor that the switch does
  not name gets the value of the one before. The reading is written into the built message, behind
  the back of its checksum.
\<close>

definition poll_sensor ::
  "(nat \<Rightarrow> nat \<Rightarrow> u8) \<Rightarrow> 'n net \<Rightarrow> nat \<Rightarrow> nat \<Rightarrow> u8 \<times> world \<times> 'n option \<Rightarrow> (u8 \<times> world \<times> 'n option) go" where
  "poll_sensor rnd net lun sensNum = (\<lambda>(value, w, conn).
     case mc_sensors (w_mc w) lun sensNum of
       None \<Rightarrow> Inr (value, w, conn)
     | Some sensor \<Rightarrow>
         let value = sim_value (rnd lun sensNum) sensNum value;
             w = w\<lparr>w_mc := set_sensor lun sensNum (sensor\<lparr>n_value := value\<rparr>) (w_mc w)\<rparr>;
             r = mc_mainSdrs (w_mc w)
         in case find_sensor (of_nat lun) (of_nat sensNum) (r_sdrs r) of
              None \<Rightarrow> Inl NilDereference
            | Some i \<Rightarrow>
                let w = set_sdrs (r\<lparr>r_sdrs := set_value value i (r_sdrs r)\<rparr>) w in
                if w_card w > 0 then
                  (case addSdrBuildMsg (r_sdrs (mc_mainSdrs (w_mc w)) ! i) (w_ctx w) of
                     (msgData, ctx) \<Rightarrow>
                       go_bind (try_exchange MAX_RETRIES net (msgData[66 := value]) addSdrParseRsp ctx conn)
                         (\<lambda>(done, ctx, conn). Inr (value, w\<lparr>w_ctx := ctx\<rparr>, conn)))
                else Inr (value, w, conn))"

fun poll_from ::
  "(nat \<Rightarrow> nat \<Rightarrow> u8) \<Rightarrow> 'n net \<Rightarrow> (nat \<times> nat) list \<Rightarrow> u8 \<times> world \<times> 'n option \<Rightarrow> (u8 \<times> world \<times> 'n option) go" where
  "poll_from rnd net [] st = Inr st"
| "poll_from rnd net ((lun, sensNum) # ps) st =
     go_bind (poll_sensor rnd net lun sensNum st) (poll_from rnd net ps)"

definition poll_order :: "(nat \<times> nat) list" where
  "poll_order = List.product [0..<4] [1..<255]"

definition pollSensors ::
  "(nat \<Rightarrow> nat \<Rightarrow> u8) \<Rightarrow> 'n net \<Rightarrow> world \<Rightarrow> 'n option \<Rightarrow> (world \<times> 'n option) go" where
  "pollSensors rnd net w conn =
     go_bind (poll_from rnd net poll_order (0, w, conn)) (\<lambda>(value, w, conn). Inr (w, conn))"

section \<open>Records keep their sensors\<close>

lemma find_sensor_cong:
  "map d_lun es' = map d_lun es \<Longrightarrow> map d_sensNum es' = map d_sensNum es \<Longrightarrow>
   find_sensor lun n es' = find_sensor lun n es"
proof (induction es' arbitrary: es)
  case (Cons e' es')
  then obtain e es1 where "es = e # es1" by (cases es) auto
  with Cons show ?case
    by (auto simp: find_sensor_def find_from_shift [of _ "Suc 0"])
qed simp

lemma set_value_keys [simp]:
  "length (set_value v i es) = length es"
  "map d_lun (set_value v i es) = map d_lun es" "map d_sensNum (set_value v i es) = map d_sensNum es"
  "map d_recordId (set_value v i es) = map d_recordId es" "map d_length (set_value v i es) = map d_length es"
  "map d_data (set_value v i es) = map d_data es"
  by (cases "i < length es"; simp add: set_value_def map_update list_update_same_conv list_update_beyond)+

lemma set_value_nth [simp]: "i < length es \<Longrightarrow> d_value (set_value v i es ! i) = v"
  by (simp add: set_value_def)

lemma find_sensor_set_value [simp]: "find_sensor lun n (set_value v i es) = find_sensor lun n es"
  by (rule find_sensor_cong) simp_all

text \<open>Every sensor has a record: what the poll needs.\<close>

definition sensors_listed :: "mcT \<Rightarrow> bool" where
  "sensors_listed mc \<longleftrightarrow> (\<forall>(lun, num) \<in> set poll_order. mc_sensors mc lun num \<noteq> None \<longrightarrow>
     find_sensor (of_nat lun) (of_nat num) (r_sdrs (mc_mainSdrs mc)) \<noteq> None)"

lemma poll_order_iff: "(lun, num) \<in> set poll_order \<longleftrightarrow> lun < 4 \<and> 1 \<le> num \<and> num < 255"
  by (auto simp: poll_order_def)

lemma poll_order_distinct: "distinct poll_order"
  by (simp add: poll_order_def distinct_product)

section \<open>The poll\<close>

lemma set_sensor_fields [simp]:
  "mc_mainSdrs (set_sensor lun num s mc) = mc_mainSdrs mc" "mc_sel (set_sensor lun num s mc) = mc_sel mc"
  "mc_sensors (set_sensor lun num s mc) lun' num' =
     (if lun' = lun \<and> num' = num then Some s else mc_sensors mc lun' num')"
  by (simp_all add: set_sensor_def)

text \<open>What one turn leaves: the same records up to their values, the same sensors up to theirs.\<close>

definition poll_frame :: "world \<Rightarrow> world \<Rightarrow> bool" where
  "poll_frame w w' \<longleftrightarrow> w_lan w' = w_lan w \<and> w_card w' = w_card w \<and> w_sent w' = w_sent w \<and>
     mc_sel (w_mc w') = mc_sel (w_mc w) \<and>
     (\<exists>es. mc_mainSdrs (w_mc w') = (mc_mainSdrs (w_mc w))\<lparr>r_sdrs := es\<rparr> \<and>
        (sdr_inv (mc_mainSdrs (w_mc w)) \<longrightarrow> sdr_inv (mc_mainSdrs (w_mc w'))) \<and>
        map d_lun es = map d_lun (r_sdrs (mc_mainSdrs (w_mc w))) \<and>
        map d_sensNum es = map d_sensNum (r_sdrs (mc_mainSdrs (w_mc w)))) \<and>
     (\<forall>lun num. mc_sensors (w_mc w') lun num = None \<longleftrightarrow> mc_sensors (w_mc w) lun num = None)"

lemma poll_frame_refl [simp]: "poll_frame w w"
  unfolding poll_frame_def by (auto intro!: exI [of _ "r_sdrs (mc_mainSdrs (w_mc w))"])

lemma poll_frame_ctx [simp]: "poll_frame w (w'\<lparr>w_ctx := c\<rparr>) = poll_frame w w'"
  by (simp add: poll_frame_def)

lemma poll_frame_trans: "poll_frame w w1 \<Longrightarrow> poll_frame w1 w2 \<Longrightarrow> poll_frame w w2"
  unfolding poll_frame_def by auto

lemma poll_frame_find:
  assumes "poll_frame w w'"
  shows "find_sensor lun num (r_sdrs (mc_mainSdrs (w_mc w'))) = find_sensor lun num (r_sdrs (mc_mainSdrs (w_mc w)))"
proof -
  obtain es where "r_sdrs (mc_mainSdrs (w_mc w')) = es" "map d_lun es = map d_lun (r_sdrs (mc_mainSdrs (w_mc w)))"
    "map d_sensNum es = map d_sensNum (r_sdrs (mc_mainSdrs (w_mc w)))"
    using assms by (auto simp: poll_frame_def)
  then show ?thesis using find_sensor_cong by blast
qed

lemma sensors_listed_frame: "poll_frame w w' \<Longrightarrow> sensors_listed (w_mc w') = sensors_listed (w_mc w)"
proof -
  assume "poll_frame w w'"
  moreover from this have "mc_sensors (w_mc w') lun num = None \<longleftrightarrow> mc_sensors (w_mc w) lun num = None" for lun num
    by (simp add: poll_frame_def)
  ultimately show ?thesis by (simp add: sensors_listed_def poll_frame_find)
qed

text \<open>The whole of one turn for a sensor that exists.\<close>

lemma poll_sensor_step:
  assumes "mc_sensors (w_mc w) lun num = Some s" and v: "v' = sim_value (rnd lun num) num v"
    and found: "find_sensor (of_nat lun) (of_nat num) (r_sdrs (mc_mainSdrs (w_mc w))) = Some i"
    and link: "w_card w > 0 \<Longrightarrow> conn \<noteq> None"
  obtains w' conn' where "poll_sensor rnd net lun num (v, w, conn) = Inr (v', w', conn')"
    "poll_frame w w'" "conn = None \<longleftrightarrow> conn' = None"
    "mc_sensors (w_mc w') = mc_sensors (set_sensor lun num (s\<lparr>n_value := v'\<rparr>) (w_mc w))"
    "r_sdrs (mc_mainSdrs (w_mc w')) = set_value v' i (r_sdrs (mc_mainSdrs (w_mc w)))"
proof -
  let ?r = "mc_mainSdrs (w_mc w)"
  let ?w = "set_sdrs (?r\<lparr>r_sdrs := set_value v' i (r_sdrs ?r)\<rparr>)
    (w\<lparr>w_mc := set_sensor lun num (s\<lparr>n_value := v'\<rparr>) (w_mc w)\<rparr>)"
  have "i < length (r_sdrs ?r)" using found by (simp add: find_sensor_simps)
  then have frame: "poll_frame w ?w"
    using assms(1) set_value_inv [of ?r i v']
    by (auto simp: poll_frame_def intro!: exI [of _ "set_value v' i (r_sdrs ?r)"])
  show ?thesis
  proof (cases "w_card w > 0")
    case False
    then have "poll_sensor rnd net lun num (v, w, conn) = Inr (v', ?w, conn)"
      using assms by (simp add: poll_sensor_def Let_def)
    from this frame show ?thesis by (rule that) simp_all
  next
    case True
    then obtain n where n: "conn = Some n" using link by auto
    obtain msg ctx where b: "addSdrBuildMsg (r_sdrs (mc_mainSdrs (w_mc ?w)) ! i) (w_ctx ?w) = (msg, ctx)" by fastforce
    obtain ok c n' where t: "try_exchange MAX_RETRIES net (msg[66 := v']) addSdrParseRsp ctx (Some n) = Inr (ok, c, Some n')"
      using try_exchange_total [of MAX_RETRIES net "msg[66 := v']" addSdrParseRsp ctx n] by blast
    have "poll_sensor rnd net lun num (v, w, conn) = Inr (v', ?w\<lparr>w_ctx := c\<rparr>, Some n')"
      using assms True b t n by (simp add: poll_sensor_def Let_def)
    moreover have "poll_frame w (?w\<lparr>w_ctx := c\<rparr>)" using frame by simp
    ultimately show ?thesis using n by (intro that [of "?w\<lparr>w_ctx := c\<rparr>" "Some n'"]) simp_all
  qed
qed

text \<open>
  A run of turns over different sensors: it does not panic if every sensor has its record, and
  leaves in the record of each sensor the value drawn for it.
\<close>

lemma of_nat_u8_inj: "a < 256 \<Longrightarrow> b < 256 \<Longrightarrow> (of_nat a :: u8) = of_nat b \<Longrightarrow> a = b"
  by (drule arg_cong [where f = unat]) (simp add: unat_of_nat)

lemma find_sensor_pair:
  assumes "find_sensor (of_nat lun) (of_nat num) es = Some i" "find_sensor (of_nat lun') (of_nat num') es = Some i"
    "(lun, num) \<in> set poll_order" "(lun', num') \<in> set poll_order"
  shows "(lun, num) = (lun', num')"
  using assms of_nat_u8_inj [of lun lun'] of_nat_u8_inj [of num num']
  by (simp add: find_sensor_simps poll_order_iff)

definition simulated :: "nat \<Rightarrow> bool" where
  "simulated num \<longleftrightarrow> num \<in> {1, 2, 3, 4, 17, 18, 19, 20, 33, 34, 35, 36}"

lemma sim_value_simulated: "simulated num \<Longrightarrow> sim_value x num v = sim_value x num v'"
  by (auto simp: sim_value_def simulated_def)

definition polled :: "(nat \<Rightarrow> nat \<Rightarrow> u8) \<Rightarrow> (nat \<times> nat) set \<Rightarrow> world \<Rightarrow> world \<Rightarrow> bool" where
  "polled rnd ps w w' \<longleftrightarrow>
     (\<forall>i < length (r_sdrs (mc_mainSdrs (w_mc w))).
        (\<forall>lun num. (lun, num) \<in> ps \<longrightarrow> mc_sensors (w_mc w) lun num \<noteq> None \<longrightarrow>
           find_sensor (of_nat lun) (of_nat num) (r_sdrs (mc_mainSdrs (w_mc w))) = Some i \<longrightarrow> simulated num \<longrightarrow>
           d_value (r_sdrs (mc_mainSdrs (w_mc w')) ! i) = sim_value (rnd lun num) num 0) \<and>
        ((\<forall>lun num. (lun, num) \<in> ps \<longrightarrow> mc_sensors (w_mc w) lun num \<noteq> None \<longrightarrow>
           find_sensor (of_nat lun) (of_nat num) (r_sdrs (mc_mainSdrs (w_mc w))) \<noteq> Some i) \<longrightarrow>
         r_sdrs (mc_mainSdrs (w_mc w')) ! i = r_sdrs (mc_mainSdrs (w_mc w)) ! i))"

lemma polledD:
  assumes "polled rnd ps w w'" "i < length (r_sdrs (mc_mainSdrs (w_mc w)))"
  shows "(lun, num) \<in> ps \<Longrightarrow> mc_sensors (w_mc w) lun num \<noteq> None \<Longrightarrow>
      find_sensor (of_nat lun) (of_nat num) (r_sdrs (mc_mainSdrs (w_mc w))) = Some i \<Longrightarrow> simulated num \<Longrightarrow>
      d_value (r_sdrs (mc_mainSdrs (w_mc w')) ! i) = sim_value (rnd lun num) num 0"
    and "(\<And>l n. (l, n) \<in> ps \<Longrightarrow> mc_sensors (w_mc w) l n \<noteq> None \<Longrightarrow>
        find_sensor (of_nat l) (of_nat n) (r_sdrs (mc_mainSdrs (w_mc w))) \<noteq> Some i) \<Longrightarrow>
      r_sdrs (mc_mainSdrs (w_mc w')) ! i = r_sdrs (mc_mainSdrs (w_mc w)) ! i"
  using assms unfolding polled_def by blast+

lemma polled_step:
  assumes ps: "(lun, num) \<notin> set ps" "(lun, num) \<in> set poll_order" "set ps \<subseteq> set poll_order"
    and s: "mc_sensors (w_mc w) lun num \<noteq> None"
    and found: "find_sensor (of_nat lun) (of_nat num) (r_sdrs (mc_mainSdrs (w_mc w))) = Some i"
    and frame: "poll_frame w w1"
    and w1: "r_sdrs (mc_mainSdrs (w_mc w1)) = set_value (sim_value (rnd lun num) num v) i (r_sdrs (mc_mainSdrs (w_mc w)))"
    and rest: "polled rnd (set ps) w1 w'"
  shows "polled rnd (insert (lun, num) (set ps)) w w'"
proof -
  let ?es = "r_sdrs (mc_mainSdrs (w_mc w))" and ?es1 = "r_sdrs (mc_mainSdrs (w_mc w1))"
  let ?es' = "r_sdrs (mc_mainSdrs (w_mc w'))"
  have same: "mc_sensors (w_mc w1) l n = None \<longleftrightarrow> mc_sensors (w_mc w) l n = None"
    "find_sensor (of_nat l) (of_nat n) ?es1 = find_sensor (of_nat l) (of_nat n) ?es" for l n
    using frame poll_frame_find [OF frame] by (simp_all add: poll_frame_def)
  have len: "length ?es1 = length ?es" by (simp add: w1)
  have other: "find_sensor (of_nat l) (of_nat n) ?es \<noteq> Some i" if "(l, n) \<in> set ps" for l n
    using find_sensor_pair [OF found _ ps(2), of l n] that ps by auto
  have i: "i < length ?es" using found by (simp add: find_sensor_simps)
  have at_i: "?es' ! i = ?es1 ! i"
    by (rule polledD(2) [OF rest]) (use i other len same in auto)
  have "d_value (?es1 ! i) = sim_value (rnd lun num) num v"
    using i by (simp add: w1 set_value_def)
  then have at_i': "simulated num \<Longrightarrow> d_value (?es' ! i) = sim_value (rnd lun num) num 0"
    using at_i sim_value_simulated by metis
  have off_i: "?es1 ! j = ?es ! j" if "j \<noteq> i" for j
    using that by (simp add: w1 set_value_def)
  show ?thesis
    unfolding polled_def
  proof (intro allI impI conjI)
    fix j l n assume "(l, n) \<in> insert (lun, num) (set ps)" "mc_sensors (w_mc w) l n \<noteq> None"
      "find_sensor (of_nat l) (of_nat n) ?es = Some j" "simulated n" "j < length ?es"
    then show "d_value (?es' ! j) = sim_value (rnd l n) n 0"
      using found at_i' polledD(1) [OF rest, of j l n] same len by auto
  next
    fix j assume j: "j < length ?es" and none: "\<forall>l n. (l, n) \<in> insert (lun, num) (set ps) \<longrightarrow>
      mc_sensors (w_mc w) l n \<noteq> None \<longrightarrow> find_sensor (of_nat l) (of_nat n) ?es \<noteq> Some j"
    then have "j \<noteq> i" using s found by auto
    moreover have "?es' ! j = ?es1 ! j"
      by (rule polledD(2) [OF rest]) (use j none len same in auto)
    ultimately show "?es' ! j = ?es ! j" using off_i by simp
  qed
qed

lemma poll_from_ok:
  assumes "sensors_listed (w_mc w)" "set ps \<subseteq> set poll_order" "distinct ps" "w_card w > 0 \<longrightarrow> conn \<noteq> None"
  shows "\<exists>v' w' conn'. poll_from rnd net ps (v, w, conn) = Inr (v', w', conn') \<and> poll_frame w w' \<and>
    (conn = None \<longleftrightarrow> conn' = None) \<and> polled rnd (set ps) w w'"
  using assms
proof (induction ps arbitrary: v w conn)
  case Nil
  then show ?case by (simp add: polled_def)
next
  case (Cons p ps)
  obtain lun num where p: "p = (lun, num)" by fastforce
  show ?case
  proof (cases "mc_sensors (w_mc w) lun num")
    case None
    obtain v' w' conn' where r: "poll_from rnd net ps (v, w, conn) = Inr (v', w', conn')" "poll_frame w w'"
      "conn = None \<longleftrightarrow> conn' = None" "polled rnd (set ps) w w'"
      using Cons.IH [where v = v and w = w and conn = conn] Cons.prems by auto
    have "polled rnd (set (p # ps)) w w'" using r(4) None p unfolding polled_def by auto
    moreover have "poll_from rnd net (p # ps) (v, w, conn) = Inr (v', w', conn')"
      using r(1) None by (simp add: p poll_sensor_def)
    ultimately show ?thesis using r(2,3) by blast
  next
    case (Some s)
    obtain i where i: "find_sensor (of_nat lun) (of_nat num) (r_sdrs (mc_mainSdrs (w_mc w))) = Some i"
      using Cons.prems(1,2) Some by (auto simp: sensors_listed_def p)
    obtain w1 conn1 where one: "poll_sensor rnd net lun num (v, w, conn) = Inr (sim_value (rnd lun num) num v, w1, conn1)"
      "poll_frame w w1" "conn = None \<longleftrightarrow> conn1 = None"
      "r_sdrs (mc_mainSdrs (w_mc w1)) = set_value (sim_value (rnd lun num) num v) i (r_sdrs (mc_mainSdrs (w_mc w)))"
      using poll_sensor_step [where rnd = rnd and net = net and v = v, OF Some refl i] Cons.prems(4) by blast
    have "sensors_listed (w_mc w1)" using Cons.prems(1) sensors_listed_frame [OF one(2)] by simp
    moreover have "w_card w1 > 0 \<longrightarrow> conn1 \<noteq> None"
      using Cons.prems(4) one(2,3) by (simp add: poll_frame_def)
    moreover have "set ps \<subseteq> set poll_order" "distinct ps" using Cons.prems(2,3) by simp_all
    ultimately have "\<exists>v' w' conn'. poll_from rnd net ps (sim_value (rnd lun num) num v, w1, conn1) = Inr (v', w', conn') \<and>
      poll_frame w1 w' \<and> (conn1 = None \<longleftrightarrow> conn' = None) \<and> polled rnd (set ps) w1 w'"
      by (intro Cons.IH)
    then obtain v' w' conn' where r: "poll_from rnd net ps (sim_value (rnd lun num) num v, w1, conn1) = Inr (v', w', conn')"
      "poll_frame w1 w'" "conn1 = None \<longleftrightarrow> conn' = None" "polled rnd (set ps) w1 w'"
      by blast
    have "polled rnd (insert (lun, num) (set ps)) w w'"
      using polled_step [OF _ _ _ _ i one(2,4) r(4)] Cons.prems(2,3) Some p by auto
    moreover have "poll_from rnd net (p # ps) (v, w, conn) = Inr (v', w', conn')"
      using one(1) r(1) by (simp add: p)
    moreover have "poll_frame w w'" using one(2) r(2) by (rule poll_frame_trans)
    ultimately show ?thesis using one(3) r(3) p by auto
  qed
qed

lemma pollSensors_ok:
  assumes "sensors_listed (w_mc w)" "w_card w > 0 \<longrightarrow> conn \<noteq> None"
  shows "\<exists>w' conn'. pollSensors rnd net w conn = Inr (w', conn') \<and> poll_frame w w' \<and>
    (conn = None \<longleftrightarrow> conn' = None) \<and> polled rnd (set poll_order) w w'"
  using poll_from_ok [OF assms(1) subset_refl poll_order_distinct assms(2), of rnd net 0]
  by (auto simp: pollSensors_def)

text \<open>A poll that does not panic stays within its frame.\<close>

lemma poll_sensor_frame:
  assumes run: "poll_sensor rnd net lun num (v, w, conn) = Inr (v', w', conn')" and link: "w_card w > 0 \<longrightarrow> conn \<noteq> None"
  shows "poll_frame w w' \<and> (conn = None \<longleftrightarrow> conn' = None)"
proof (cases "mc_sensors (w_mc w) lun num")
  case None
  with run show ?thesis by (simp add: poll_sensor_def)
next
  case (Some s)
  show ?thesis
  proof (cases "find_sensor (of_nat lun) (of_nat num) (r_sdrs (mc_mainSdrs (w_mc w)))")
    case None
    with run Some show ?thesis by (simp add: poll_sensor_def Let_def)
  next
    case (Some i)
    with \<open>mc_sensors (w_mc w) lun num = Some s\<close> link run show ?thesis
      by (elim poll_sensor_step [OF _ refl, where rnd = rnd and net = net and v = v]) auto
  qed
qed

lemma poll_from_frame:
  "poll_from rnd net ps (v, w, conn) = Inr (v', w', conn') \<Longrightarrow> w_card w > 0 \<longrightarrow> conn \<noteq> None \<Longrightarrow>
   poll_frame w w' \<and> (conn = None \<longleftrightarrow> conn' = None)"
proof (induction ps arbitrary: v w conn)
  case (Cons p ps)
  obtain lun num where p: "p = (lun, num)" by fastforce
  from Cons.prems(1) obtain v1 w1 conn1 where one: "poll_sensor rnd net lun num (v, w, conn) = Inr (v1, w1, conn1)"
    and rest: "poll_from rnd net ps (v1, w1, conn1) = Inr (v', w', conn')" by (auto simp: p)
  have f: "poll_frame w w1" "conn = None \<longleftrightarrow> conn1 = None" using poll_sensor_frame [OF one Cons.prems(2)] by auto
  then have "w_card w1 > 0 \<longrightarrow> conn1 \<noteq> None" using Cons.prems(2) by (simp add: poll_frame_def)
  with Cons.IH [OF rest] f show ?case by (metis poll_frame_trans)
qed simp

lemma getSensorReading_step:
  "getSensorReading env msg w = Inr w' \<Longrightarrow> sdr_frame (m_remoteAddr msg) w w'"
  by (auto simp: getSensorReading_def Let_def split: option.splits dest: sdr_replies)

lemma reading_of:
  assumes "find_sensor (rm_rsLun (m_message msg)) (arr (m_data msg) (m_dataStart msg)) (r_sdrs (mc_mainSdrs (w_mc w))) = Some i"
    and "d_value (r_sdrs (mc_mainSdrs (w_mc w)) ! i) = v"
  shows "\<exists>status. length status = 3 \<and> getSensorReading env msg w = returnRspData msg None ([0, v] @ status) 5 w"
  using assms unfolding getSensorReading_def Let_def by (intro exI conjI) simp_all

lemma poll_from_cleared:
  assumes "r_sdrs (mc_mainSdrs (w_mc w)) = []" "(lun, num) \<in> set ps" "mc_sensors (w_mc w) lun num \<noteq> None"
  shows "poll_from rnd net ps (v, w, conn) = Inl NilDereference"
  using assms(2)
proof (induction ps)
  case (Cons p ps)
  obtain l n where p: "p = (l, n)" by fastforce
  show ?case
  proof (cases "mc_sensors (w_mc w) l n")
    case None
    with Cons p assms(3) show ?thesis by (auto simp: poll_sensor_def)
  next
    case (Some s)
    with p assms(1) show ?thesis by (simp add: poll_sensor_def Let_def find_sensor_def)
  qed
qed simp

lemma sum_list_update_group:
  fixes xs :: "'a::ab_group_add list"
  shows "i < length xs \<Longrightarrow> sum_list (xs[i := y]) = sum_list xs - xs ! i + y"
proof (induction xs arbitrary: i)
  case (Cons x xs)
  then show ?case by (cases i) (simp_all add: algebra_simps)
qed simp

text \<open>The request that carries a reading: the byte at index 66 is set behind the back of the checksum.\<close>

lemma reading_request:
  shows "length ((fst (addSdrBuildMsg sdr ctx))[66 := v]) = 85 \<and> arr ((fst (addSdrBuildMsg sdr ctx))[66 := v]) 66 = v \<and>
    sum_list (drop 17 ((fst (addSdrBuildMsg sdr ctx))[66 := v])) = v - arr (d_data sdr) 46"
proof -
  define t where "t = client_tail (gslice (d_data sdr) 0 64) 64 0 STORAGE_NETFN 0 (c_rqSeq ctx) ADD_SDR_CMD"
  have pkt: "fst (addSdrBuildMsg sdr ctx) = client_head 70 (c_sessionSeq ctx) (c_sessionId ctx)
      @ client_addr 0 STORAGE_NETFN @ t"
    by (simp add: addSdrBuildMsg_def Let_def clientBuildMsg_eq t_def)
  have len: "length t = 68" by (simp add: t_def)
  have "drop 17 ((fst (addSdrBuildMsg sdr ctx))[66 := v]) = t[49 := v]"
    by (simp add: pkt drop_update_swap)
  moreover have "sum_list t = 0" using client_tail_valid by (simp add: t_def wire_valid_def)
  moreover have "t ! 49 = arr (d_data sdr) 46"
    by (simp add: t_def client_tail_def Let_def nth_append nth_Cons' arr_gslice)
  ultimately show ?thesis
    using len by (simp add: pkt sum_list_update_group arr_def)
qed

section \<open>Properties\<close>

text \<open>C25: A poll refreshes every reading. When every sensor has its record (and a line card has its
  connection), the poll of all sensors ends without a panic, and a Get Sensor Reading request for any
  sensor of the simulation is then answered with completion code 0 and the value drawn for that
  sensor in this poll, whatever the values before.\<close>

theorem poll_then_reading:
  assumes listed: "sensors_listed (w_mc w)" and link: "w_card w > 0 \<longrightarrow> conn \<noteq> None"
    and sensor: "lun < 4" "1 \<le> num" "num < 255" "simulated num" "mc_sensors (w_mc w) lun num \<noteq> None"
    and req: "rm_rsLun (m_message msg) = of_nat lun" "arr (m_data msg) (m_dataStart msg) = of_nat num"
  shows "\<exists>w' conn' status. pollSensors rnd net w conn = Inr (w', conn') \<and> length status = 3 \<and>
    getSensorReading env msg w' = returnRspData msg None ([0, sim_value (rnd lun num) num 0] @ status) 5 w'"
proof -
  obtain w' conn' where p: "pollSensors rnd net w conn = Inr (w', conn')" "poll_frame w w'"
    "polled rnd (set poll_order) w w'"
    using pollSensors_ok [OF listed link, of rnd net] by blast
  have mem: "(lun, num) \<in> set poll_order" using sensor by (simp add: poll_order_iff)
  with listed sensor(5) obtain i where
    i: "find_sensor (of_nat lun) (of_nat num) (r_sdrs (mc_mainSdrs (w_mc w))) = Some i"
    by (auto simp: sensors_listed_def)
  then have less: "i < length (r_sdrs (mc_mainSdrs (w_mc w)))" by (simp add: find_sensor_simps)
  have "d_value (r_sdrs (mc_mainSdrs (w_mc w')) ! i) = sim_value (rnd lun num) num 0"
    by (rule polledD(1) [OF p(3) less mem sensor(5) i sensor(4)])
  moreover have "find_sensor (rm_rsLun (m_message msg)) (arr (m_data msg) (m_dataStart msg))
      (r_sdrs (mc_mainSdrs (w_mc w'))) = Some i"
    using poll_frame_find [OF p(2)] i req by simp
  ultimately show ?thesis using p(1) reading_of [of msg w' i _ env] by blast
qed

definition demo_poll_world :: world where
  "demo_poll_world = demo_sdr_world\<lparr>w_mc := set_sensor 0 17 zero_sensor (w_mc demo_sdr_world)\<rparr>"

lemma demo_poll_listed: "sensors_listed (w_mc demo_poll_world)"
proof -
  have "find_sensor (of_nat 0) (of_nat 17) (r_sdrs demo_sdrs) = Some 0" by code_simp
  then show ?thesis
    by (auto simp: sensors_listed_def demo_poll_world_def demo_sdr_world_def demo_world_def zero_mc_def set_sdrs_def
        split: if_splits)
qed

theorem poll_then_reading_witness:
  "\<exists>w' conn' status. pollSensors (\<lambda>lun num. 9) demo_net demo_poll_world None = Inr (w', conn') \<and>
     getSensorReading demo_env (demo_msg 0 [17]) w' = returnRspData (demo_msg 0 [17]) None ([0, 29] @ status) 5 w'"
proof -
  have "w_card demo_poll_world = 0" by (simp add: demo_poll_world_def demo_sdr_world_def demo_world_def)
  moreover have "simulated 17" "sim_value 9 17 0 = 29" by (simp_all add: simulated_def sim_value_def)
  moreover have "mc_sensors (w_mc demo_poll_world) 0 17 \<noteq> None" by (simp add: demo_poll_world_def)
  moreover have "rm_rsLun (m_message (demo_msg 0 [17])) = of_nat 0"
    "arr (m_data (demo_msg 0 [17])) (m_dataStart (demo_msg 0 [17])) = of_nat 17"
    by (simp_all add: demo_msg_def zero_rmcp_message_def)
  ultimately show ?thesis
    using poll_then_reading [OF demo_poll_listed, of None 0 17 "demo_msg 0 [17]" "\<lambda>lun num. 9" demo_net demo_env]
    by auto
qed

text \<open>C36: Clearing the repository kills the daemon. On a card with at least one sensor, the first poll
  after an accepted Clear SDR Repository request dereferences the nil record of that sensor and
  panics, whatever the values drawn and the state of the connection.\<close>

theorem poll_panics_after_clear:
  assumes "lun < 4" "1 \<le> num" "num < 255" "mc_sensors (w_mc w) lun num \<noteq> None"
  shows "pollSensors rnd net (set_sdrs (clear_sdrs now (mc_mainSdrs (w_mc w))) w) conn = Inl NilDereference"
  unfolding pollSensors_def
  by (subst poll_from_cleared [of _ lun num]) (use assms in \<open>simp_all add: clear_sdrs_def poll_order_iff\<close>)

theorem poll_panics_after_clear_witness:
  "pollSensors (\<lambda>lun num. 9) demo_net
     (set_sdrs (clear_sdrs 5 (mc_mainSdrs (w_mc demo_poll_world))) demo_poll_world) None = Inl NilDereference"
  by (rule poll_panics_after_clear [of 0 17]) (simp_all add: demo_poll_world_def)

text \<open>C31: A reading sent by a line card is read from the management module. An Add SDR request whose value
  byte is not 0, for a sensor that has a record, is accepted, and Get Sensor Reading for that sensor
  then answers with that value.\<close>

theorem update_then_reading:
  assumes "find_sensor lun num (r_sdrs (mc_mainSdrs (w_mc w))) = Some i"
    and add: "arr (m_data msg) (m_dataStart msg + 6) = lun" "arr (m_data msg) (m_dataStart msg + 7) = num"
      "arr (m_data msg) (m_dataStart msg + 46) = v" "v \<noteq> 0"
    and req: "rm_rsLun (m_message msg2) = lun" "arr (m_data msg2) (m_dataStart msg2) = num"
  shows "\<exists>w' status. addSdr env msg w = Inr w' \<and> length status = 3 \<and>
    getSensorReading env2 msg2 w' = returnRspData msg2 None ([0, v] @ status) 5 w'"
proof -
  let ?r = "mc_mainSdrs (w_mc w)"
  let ?w = "set_sdrs (?r\<lparr>r_sdrs := set_value v i (r_sdrs ?r)\<rparr>) w"
  obtain w' where w': "returnRspData msg None (sdr_rsp (r_sdrs ?r ! i)) 3 ?w = Inr w'"
    using returnRspData_total [of 3] by fastforce
  have "addSdr env msg w = Inr w'" using assms(1) add w' by (simp add: addSdr_eq Let_def)
  moreover have "mc_mainSdrs (w_mc w') = mc_mainSdrs (w_mc ?w)" using w' by (rule reply_mainSdrs)
  moreover have "i < length (r_sdrs ?r)" using assms(1) by (simp add: find_sensor_simps)
  ultimately show ?thesis
    using reading_of [of msg2 w' i v env2] assms(1) req by auto
qed

theorem update_then_reading_witness:
  "\<exists>w' status. addSdr demo_env (demo_msg 0 ([0, 0, 0, 0, 0, 0, 0, 18] @ replicate 38 0 @ [77])) demo_sdr_world = Inr w' \<and>
     getSensorReading demo_env (demo_msg 0 [18]) w' = returnRspData (demo_msg 0 [18]) None ([0, 77] @ status) 5 w'"
proof -
  let ?m = "demo_msg 0 ([0, 0, 0, 0, 0, 0, 0, 18] @ replicate 38 0 @ [77])"
  have "find_sensor 0 18 (r_sdrs (mc_mainSdrs (w_mc demo_sdr_world))) = Some 1"
    "arr (m_data ?m) (m_dataStart ?m + 6) = 0" "arr (m_data ?m) (m_dataStart ?m + 7) = 18"
    "arr (m_data ?m) (m_dataStart ?m + 46) = 77" "(77 :: u8) \<noteq> 0" "rm_rsLun (m_message (demo_msg 0 [18])) = 0"
    "arr (m_data (demo_msg 0 [18])) (m_dataStart (demo_msg 0 [18])) = 18"
    by code_simp+
  from update_then_reading [OF this, of demo_env demo_env] show ?thesis by blast
qed

text \<open>C38: A reading of 0 is never forwarded. The management module takes an Add SDR request with value byte
  0 for the addition of a record, so for a sensor that has one it answers and changes
  nothing: the sensor keeps its last nonzero value.\<close>

theorem zero_reading_lost:
  assumes "find_sensor (arr (m_data msg) (m_dataStart msg + 6)) (arr (m_data msg) (m_dataStart msg + 7))
      (r_sdrs (mc_mainSdrs (w_mc w))) = Some i" "arr (m_data msg) (m_dataStart msg + 46) = 0"
  shows "\<exists>w'. addSdr env msg w = Inr w' \<and> w_mc w' = w_mc w"
proof -
  obtain w' where w': "returnRspData msg None (sdr_rsp (r_sdrs (mc_mainSdrs (w_mc w)) ! i)) 3 w = Inr w'"
    using returnRspData_total [of 3] by fastforce
  with assms returnRspData_frame [OF w'] show ?thesis by (simp add: addSdr_eq Let_def rsp_frame_def)
qed

theorem zero_reading_lost_witness:
  "\<exists>w'. addSdr demo_env (demo_msg 0 [0, 0, 0, 0, 0, 0, 0, 18]) demo_sdr_world = Inr w' \<and> w_mc w' = w_mc demo_sdr_world"
  by (rule zero_reading_lost [of _ _ 1]) (code_simp+)

text \<open>C40: The poll spoils the checksum of what a line card sends. Polling a sensor on a line card writes one
  datagram, up to three times, whose byte at index 66 is the reading; the bytes of its message block,
  checksum included, sum to the reading minus byte 46 of the sensor's record, not to 0: the reading
  replaces that byte after the checksum was computed. The records the program makes have 0 there, so
  every reading but 0 is sent with a wrong checksum, off by the reading.\<close>

theorem forwarded_reading_checksum:
  assumes card: "w_card w > 0" and sensor: "mc_sensors (w_mc w) lun num = Some s"
    and i: "find_sensor (of_nat lun) (of_nat num) (r_sdrs (mc_mainSdrs (w_mc w))) = Some i"
    and v: "v = sim_value (rnd lun num) num value"
  shows "\<exists>w' n' r msg. poll_sensor rnd (logging net) lun num (value, w, Some (n, [])) = Inr (v, w', Some (n', r)) \<and>
    r \<noteq> [] \<and> length r \<le> 3 \<and> (\<forall>x \<in> set r. fst x = msg) \<and> length msg = 85 \<and> arr msg 66 = v \<and>
    sum_list (drop 17 msg) = v - arr (d_data (r_sdrs (mc_mainSdrs (w_mc w)) ! i)) 46"
proof -
  let ?es = "r_sdrs (mc_mainSdrs (w_mc w))"
  let ?e = "set_value v i ?es ! i"
  let ?req = "fst (addSdrBuildMsg ?e (w_ctx w))" and ?ctx = "snd (addSdrBuildMsg ?e (w_ctx w))"
  let ?w = "set_sdrs ((mc_mainSdrs (w_mc w))\<lparr>r_sdrs := set_value v i ?es\<rparr>)
    (w\<lparr>w_mc := set_sensor lun num (s\<lparr>n_value := v\<rparr>) (w_mc w)\<rparr>)"
  have "i < length ?es" using i by (simp add: find_sensor_simps)
  then have data: "d_data ?e = d_data (?es ! i)" by (simp add: set_value_def)
  obtain n' r ok c where r: "try_exchange MAX_RETRIES (logging net) (?req[66 := v]) addSdrParseRsp ?ctx (Some (n, [])) =
      Inr (ok, c, Some (n', [] @ r))" "length r \<le> MAX_RETRIES" "\<forall>x \<in> set r. fst x = ?req[66 := v]"
    "if ok then r \<noteq> [] \<and> (\<exists>a. answers (rsp_good 0x0a ADD_SDR_CMD) (last r) = Some a \<and> c = snd (addSdrParseRsp a ?ctx))
     else length r = MAX_RETRIES \<and> c = ?ctx"
    by (rule try_exchange_log [OF parsers_decide(5)])
  have "poll_sensor rnd (logging net) lun num (value, w, Some (n, [])) = Inr (v, ?w\<lparr>w_ctx := c\<rparr>, Some (n', r))"
    using card sensor i r(1) v [symmetric]
    by (simp add: poll_sensor_def Let_def set_sdrs_def split_beta)
  moreover have "r \<noteq> []" "length r \<le> 3" using r(2,4) by (auto simp: MAX_RETRIES_def split: if_splits)
  ultimately show ?thesis
    using r(3) reading_request [of ?e "w_ctx w" v] unfolding data by blast
qed

definition demo_line_card :: world where
  "demo_line_card = demo_poll_world\<lparr>w_card := 1\<rparr>"

theorem forwarded_reading_checksum_witness:
  "\<exists>w' n' r msg. poll_sensor (\<lambda>lun num. 9) (logging demo_net) 0 17 (0, demo_line_card, Some (0, [])) = Inr (29, w', Some (n', r)) \<and>
     (\<forall>x \<in> set r. fst x = msg) \<and> r \<noteq> [] \<and> sum_list (drop 17 msg) = 29"
proof -
  have "w_card demo_line_card > 0" "mc_sensors (w_mc demo_line_card) 0 17 = Some zero_sensor"
    by (simp_all add: demo_line_card_def demo_poll_world_def)
  moreover have "find_sensor (of_nat 0) (of_nat 17) (r_sdrs (mc_mainSdrs (w_mc demo_line_card))) = Some 0"
    "arr (d_data (r_sdrs (mc_mainSdrs (w_mc demo_line_card)) ! 0)) 46 = 0" "29 = sim_value 9 17 0"
    by code_simp+
  ultimately show ?thesis
    using forwarded_reading_checksum [of demo_line_card 0 17 zero_sensor 0 29 "\<lambda>lun num. 9" 0 demo_net 0] by auto
qed

end
