(* ===== verification/Dispatch.thy ===== *)
theory Dispatch
  imports Stub_Cmds App_Cmds Sel_Log Sensor_Cmds
begin

text \<open>
  The dispatch of \<open>ipmi_proto.go\<close>: the tables of network functions and commands as maps, and
  \<open>ipmiHandleMsg\<close>. Looking up a key that a Go map does not have yields a nil function, and calling
  that panics. The tables of bridge and transport commands are built by the program and never used.
  The locale \<open>command_table\<close> is the contract of a table: what its handlers keep, and which of its
  commands can panic.
\<close>

fun call :: "handler option \<Rightarrow> handler" where
  "call None env msg w = Inl NilFunctionCall"
| "call (Some h) env msg w = h env msg w"

section \<open>The tables\<close>

definition chassisProcessors :: "u8 \<Rightarrow> handler option" where
  "chassisProcessors = map_of
     [(GET_CHASSIS_CAPABILITIES_CMD, getChassisCapabilities),
      (CHASSIS_CONTROL_CMD, chassisControl),
      (CHASSIS_RESET_CMD, chassisReset),
      (CHASSIS_IDENTIFY_CMD, chassisIdentify),
      (SET_CHASSIS_CAPABILITIES_CMD, setChassisCapabilities),
      (SET_POWER_RESTORE_POLICY_CMD, setPowerRestorePolicy),
      (GET_SYSTEM_RESTART_CAUSE_CMD, getSystemRestartCause),
      (SET_SYSTEM_BOOT_OPTIONS_CMD, setSystemBootOptions),
      (GET_SYSTEM_BOOT_OPTIONS_CMD, getSystemBootOptions)]"

definition chassisNetfn :: handler where
  "chassisNetfn env msg w = call (chassisProcessors (rm_cmd (m_message msg))) env msg w"

definition sensorProcessors :: "u8 \<Rightarrow> handler option" where
  "sensorProcessors = map_of
     [(SET_EVENT_RECEIVER_CMD, setEventReceiver),
      (GET_EVENT_RECEIVER_CMD, getEventReceiver),
      (PLATFORM_EVENT_CMD, platformEvent),
      (GET_PEF_CAPABILITIES_CMD, getPefCapabilities),
      (ARM_PEF_POSTPONE_TIMER_CMD, armPefPostponeTimer),
      (SET_PEF_CONFIG_PARMS_CMD, setPefConfigParms),
      (GET_PEF_CONFIG_PARMS_CMD, getPefConfigParms),
      (SET_LAST_PROCESSED_EVENT_ID_CMD, setLastProcessedEventId),
      (GET_LAST_PROCESSED_EVENT_ID_CMD, getLastProcessedEventId),
      (ALERT_IMMEDIATE_CMD, alertImmediate),
      (PET_ACKNOWLEDGE_CMD, petAcknowledge),
      (GET_DEVICE_SDR_INFO_CMD, getDeviceSdrInfo),
      (GET_DEVICE_SDR_CMD, getDeviceSdr),
      (RESERVE_DEVICE_SDR_REPOSITORY_CMD, reserveDeviceSdrRepository),
      (GET_SENSOR_READING_FACTORS_CMD, getSensorReadingFactors),
      (SET_SENSOR_HYSTERESIS_CMD, setSensorHysteresis),
      (GET_SENSOR_HYSTERESIS_CMD, getSensorHysteresis),
      (SET_SENSOR_THRESHOLD_CMD, setSensorThreshold),
      (GET_SENSOR_THRESHOLD_CMD, getSensorThreshold),
      (SET_SENSOR_EVENT_ENABLE_CMD, setSensorEventEnable),
      (GET_SENSOR_EVENT_ENABLE_CMD, getSensorEventEnable),
      (REARM_SENSOR_EVENTS_CMD, rearmSensorEvents),
      (GET_SENSOR_EVENT_STATUS_CMD, getSensorEventStatus),
      (GET_SENSOR_READING_CMD, getSensorReading),
      (SET_SENSOR_TYPE_CMD, setSensorType),
      (GET_SENSOR_TYPE_CMD, getSensorType)]"

definition sensorEventNetfn :: handler where
  "sensorEventNetfn env msg w = call (sensorProcessors (rm_cmd (m_message msg))) env msg w"

definition appProcessors :: "u8 \<Rightarrow> handler option" where
  "appProcessors = map_of
     [(GET_DEVICE_ID_CMD, getDeviceId),
      (COLD_RESET_CMD, coldReset),
      (WARM_RESET_CMD, warmReset),
      (GET_SELF_TEST_RESULTS_CMD, getSelfTestResults),
      (MANUFACTURING_TEST_ON_CMD, manufacturingTestOn),
      (SET_ACPI_POWER_STATE_CMD, setAcpiPowerState),
      (GET_ACPI_POWER_STATE_CMD, getAcpiPowerState),
      (GET_DEVICE_GUID_CMD, getDeviceGuid),
      (RESET_WATCHDOG_TIMER_CMD, resetWatchdogTimer),
      (SET_WATCHDOG_TIMER_CMD, setWatchdogTimer),
      (GET_WATCHDOG_TIMER_CMD, getWatchdogTimer),
      (SET_BMC_GLOBAL_ENABLES_CMD, setBmcGlobalEnables),
      (GET_BMC_GLOBAL_ENABLES_CMD, getBmcGlobalEnables),
      (CLEAR_MSG_FLAGS_CMD, clearMsgFlags),
      (GET_MSG_FLAGS_CMD, getMsgFlagsCmd),
      (ENABLE_MESSAGE_CHANNEL_RCV_CMD, enableMessageChannelRcv),
      (GET_MSG_CMD, getMsg),
      (SEND_MSG_CMD, sendMsg),
      (READ_EVENT_MSG_BUFFER_CMD, readEventMsgBuffer),
      (GET_BT_INTERFACE_CAPABILITIES_CMD, getBtInterfaceCapabilties),
      (GET_SYSTEM_GUID_CMD, getSystemGuid),
      (GET_CHANNEL_AUTH_CAPABILITIES_CMD, getChannelAuthCapabilties),
      (GET_SESSION_CHALLENGE_CMD, getSessionChallenge),
      (ACTIVATE_SESSION_CMD, activateSession),
      (SET_SESSION_PRIVILEGE_CMD, setSessionPrivilege),
      (CLOSE_SESSION_CMD, closeSession),
      (GET_SESSION_INFO_CMD, getSessionInfo),
      (GET_AUTHCODE_CMD, getAuthcode),
      (SET_CHANNEL_ACCESS_CMD, setChannelAccess),
      (GET_CHANNEL_ACCESS_CMD, getChannelAccess),
      (GET_CHANNEL_INFO_CMD, getChannelInfo),
      (SET_USER_ACCESS_CMD, setUserAccess),
      (GET_USER_ACCESS_CMD, getUserAccess),
      (SET_USER_NAME_CMD, setUserName),
      (GET_USER_NAME_CMD, getUserName),
      (SET_USER_PASSWORD_CMD, setUserPassword),
      (ACTIVATE_PAYLOAD_CMD, activatePayload),
      (DEACTIVATE_PAYLOAD_CMD, deavtivatePayload),
      (GET_PAYLOAD_ACTIVATION_STATUS_CMD, getPayloadActivationStatus),
      (GET_PAYLOAD_INSTANCE_INFO_CMD, getPayloadInstanceInfo),
      (SET_USER_PAYLOAD_ACCESS_CMD, setUserPayloadAccess),
      (GET_USER_PAYLOAD_ACCESS_CMD, getUserPayloadAccess),
      (GET_CHANNEL_PAYLOAD_SUPPORT_CMD, getChannelPayloadSupport),
      (GET_CHANNEL_PAYLOAD_VERSION_CMD, getChannelPayloadVersion),
      (GET_CHANNEL_OEM_PAYLOAD_INFO_CMD, getChannelOemPayloadInfo),
      (MASTER_READ_WRITE_CMD, masterReadWrite),
      (GET_CHANNEL_CIPHER_SUITES_CMD, getChannelCipherSuites),
      (SUSPEND_RESUME_PAYLOAD_ENCRYPTION_CMD, suspendResumePayloadEncryption),
      (SET_CHANNEL_SECURITY_KEY_CMD, setChannelSecurityKey),
      (GET_SYSTEM_INTERFACE_CAPABILITIES_CMD, getSystemInterfaceCapabilities)]"

definition appNetfn :: handler where
  "appNetfn env msg w = call (appProcessors (rm_cmd (m_message msg))) env msg w"

definition storageProcessors :: "u8 \<Rightarrow> handler option" where
  "storageProcessors = map_of
     [(GET_FRU_INVENTORY_AREA_INFO_CMD, getFruInventoryAreaInfo),
      (READ_FRU_DATA_CMD, readFruData),
      (WRITE_FRU_DATA_CMD, writeFruData),
      (GET_SDR_REPOSITORY_INFO_CMD, getSdrRepositoryInfo),
      (GET_SDR_REPOSITORY_ALLOC_INFO_CMD, getSdrRepositoryAllocInfo),
      (RESERVE_SDR_REPOSITORY_CMD, reserveSdrRepository),
      (GET_SDR_CMD, getSdr),
      (ADD_SDR_CMD, addSdr),
      (PARTIAL_ADD_SDR_CMD, partialAddSdr),
      (DELETE_SDR_CMD, deleteSdr),
      (CLEAR_SDR_REPOSITORY_CMD, clearSdrRepository),
      (GET_SDR_REPOSITORY_TIME_CMD, getSdrRepositoryTime),
      (SET_SDR_REPOSITORY_TIME_CMD, setSdrRepositoryTime),
      (ENTER_SDR_REPOSITORY_UPDATE_CMD, enterSdrRepositoryUpdate),
      (EXIT_SDR_REPOSITORY_UPDATE_CMD, exitSdrRepositoryUpdate),
      (RUN_INITIALIZATION_AGENT_CMD, runInitializationAgent),
      (GET_SEL_INFO_CMD, getSelInfo),
      (GET_SEL_ALLOCATION_INFO_CMD, getSelAllocationInfo),
      (RESERVE_SEL_CMD, reserveSel),
      (GET_SEL_ENTRY_CMD, getSelEntry),
      (ADD_SEL_ENTRY_CMD, addSelEntry),
      (PARTIAL_ADD_SEL_ENTRY_CMD, partialAddSelEntry),
      (DELETE_SEL_ENTRY_CMD, deleteSelEntry),
      (CLEAR_SEL_CMD, clearSel),
      (GET_SEL_TIME_CMD, getSelTime),
      (SET_SEL_TIME_CMD, setSelTime),
      (GET_AUXILIARY_LOG_STATUS_CMD, getAuxiliaryLogStatus),
      (SET_AUXILIARY_LOG_STATUS_CMD, setAuxiliaryLogStatus)]"

definition storageNetfn :: handler where
  "storageNetfn env msg w = call (storageProcessors (rm_cmd (m_message msg))) env msg w"

definition netfuncProcessors :: "u8 \<Rightarrow> handler option" where
  "netfuncProcessors = map_of
     [(CHASSIS_NETFN, chassisNetfn),
      (BRIDGE_NETFN, bridgeNetfn),
      (SENSOR_EVENT_NETFN, sensorEventNetfn),
      (APP_NETFN, appNetfn),
      (FIRMWARE_NETFN, firmwareNetfn),
      (STORAGE_NETFN, storageNetfn),
      (TRANSPORT_NETFN, transportNetfn),
      (GROUP_EXTENSION_NETFN, groupExtensionNetfn),
      (OEM_GROUP_NETFN, oemGroupNetfn)]"

definition ipmiHandleMsg :: handler where
  "ipmiHandleMsg env msg w =
     (if m_dataLen msg < 5 then Inr w
      else
        case ipmiParseMsg (msg\<lparr>m_channel := l_chanNum (w_lan w)\<rparr>) w of
          (msg, w) \<Rightarrow>
            if m_authtype msg = IPMI_AUTHTYPE_RMCP_PLUS then Inr w
            else call (netfuncProcessors (rm_netfn (m_message msg))) env msg w)"

section \<open>What a request may do\<close>

definition world_inv :: "world \<Rightarrow> bool" where
  "world_inv w \<longleftrightarrow> lan_inv (w_lan w) \<and> sel_inv (mc_sel (w_mc w)) \<and> sdr_inv (mc_mainSdrs (w_mc w))"

definition served :: "nat \<Rightarrow> world \<Rightarrow> world \<Rightarrow> bool" where
  "served addr w w' \<longleftrightarrow> (world_inv w \<longrightarrow> world_inv w') \<and> replies addr w w' \<and>
     w_card w' = w_card w \<and> w_ctx w' = w_ctx w \<and> mc_sensors (w_mc w') = mc_sensors (w_mc w)"

lemma served_refl [simp]: "served addr w w"
  by (simp add: served_def)

lemma served_app:
  "rsp_frame addr w w' \<Longrightarrow> (lan_inv (w_lan w) \<Longrightarrow> lan_inv (w_lan w')) \<Longrightarrow> served addr w w'"
  by (simp add: served_def world_inv_def rsp_frame_def)

lemma served_sel: "sel_frame addr w w' \<Longrightarrow> served addr w w'"
  by (auto simp: served_def world_inv_def sel_frame_def rsp_step_def rsp_frame_def replies_def)

lemma sel_inv_add_time [simp]: "sel_inv (sl\<lparr>sl_lastAddTime := t\<rparr>) = sel_inv sl"
  by (simp add: sel_inv_def)

lemma served_sdr: "sdr_frame addr w w' \<Longrightarrow> served addr w w'"
  by (auto simp: served_def world_inv_def sdr_frame_def rsp_step_def rsp_frame_def replies_def)

definition handler_ok :: "handler \<Rightarrow> bool" where
  "handler_ok h \<longleftrightarrow> (\<forall>env msg w w'. h env msg w = Inr w' \<longrightarrow> served (m_remoteAddr msg) w w')"

definition handler_total :: "handler \<Rightarrow> bool" where
  "handler_total h \<longleftrightarrow> (\<forall>env msg w. world_inv w \<longrightarrow> (\<exists>w'. h env msg w = Inr w'))"

lemma handler_totalD: "handler_total h \<Longrightarrow> world_inv w \<Longrightarrow> \<exists>w'. h env msg w = Inr w'"
  by (simp add: handler_total_def)

lemma stub_ok: "(\<And>env msg w. h env msg w = Inr w) \<Longrightarrow> handler_ok h"
  by (simp add: handler_ok_def)

lemma stub_total: "(\<And>env msg w. h env msg w = Inr w) \<Longrightarrow> handler_total h"
  by (simp add: handler_total_def)

lemma app_ok:
  "handler_ok getSystemGuid" "handler_ok getChannelCipherSuites" "handler_ok getChannelAuthCapabilties"
  "handler_ok getSessionChallenge" "handler_ok activateSession" "handler_ok setSessionPrivilege" "handler_ok closeSession"
  unfolding handler_ok_def
  by (blast intro: served_app app_frame activateSession_frame closeSession_frame simple_app_lan_inv
      activateSession_lan_inv setSessionPrivilege_lan_inv closeSession_lan_inv)+

lemma storage_ok:
  "handler_ok getSelInfo" "handler_ok reserveSel" "handler_ok getSelEntry" "handler_ok addSelEntry" "handler_ok clearSel"
  "handler_ok getSdrRepositoryInfo" "handler_ok reserveSdrRepository" "handler_ok getSdr" "handler_ok addSdr"
  "handler_ok clearSdrRepository" "handler_ok getSensorReading"
  unfolding handler_ok_def
  by (blast intro: served_sel served_sdr sel_command_frame sdr_command_frame addSdr_frame getSensorReading_step)+

lemmas replies_total [simp] = returnErr_total returnRspData_total

lemma app_total:
  "handler_total getSystemGuid" "handler_total getChannelCipherSuites" "handler_total getChannelAuthCapabilties"
  "handler_total getSessionChallenge" "handler_total activateSession" "handler_total setSessionPrivilege"
  by (auto simp: handler_total_def app_defs Let_def split: option.split)

lemma sel_bytes_total: "7 \<le> length d \<Longrightarrow> \<exists>b. sel_bytes r t d now = Inr b"
  by (simp add: sel_bytes_def)

lemma addToSel_total: "7 \<le> length d \<Longrightarrow> \<exists>sl' e r. addToSel t d now sl = Inr (sl', e, r)"
  using sel_bytes_total by (fastforce simp: addToSel_def Let_def split: prod.split option.split)

lemma storage_total:
  "handler_total getSelInfo" "handler_total reserveSel" "handler_total addSelEntry" "handler_total clearSel"
  "handler_total getSdrRepositoryInfo" "handler_total reserveSdrRepository" "handler_total clearSdrRepository"
  "handler_total getSensorReading"
proof -
  show "handler_total getSelInfo" "handler_total reserveSel" "handler_total clearSel"
    "handler_total getSdrRepositoryInfo" "handler_total reserveSdrRepository" "handler_total clearSdrRepository"
    "handler_total getSensorReading"
    by (simp_all add: handler_total_def getSelInfo_def reserveSel_def clearSel_def getSdrRepositoryInfo_def
        reserveSdrRepository_def clearSdrRepository_def getSensorReading_def Let_def split: option.split)
  show "handler_total addSelEntry"
    unfolding handler_total_def
  proof (intro allI impI)
    fix env :: goenv and msg :: msgT and w :: world
    obtain sl e r where "addToSel (arr (m_data msg) (m_dataStart msg + 2))
        (gslice (m_data msg) (m_dataStart msg + 3) (m_dataStart msg + 16)) (g_now env) (mc_sel (w_mc w)) = Inr (sl, e, r)"
      using addToSel_total [of "gslice (m_data msg) (m_dataStart msg + 3) (m_dataStart msg + 16)"] by fastforce
    then show "\<exists>w'. addSelEntry env msg w = Inr w'" by (simp add: addSelEntry_def Let_def)
  qed
qed

section \<open>The contract of a table\<close>

locale command_table =
  fixes table :: "u8 \<Rightarrow> handler option" and risky :: "u8 set"
  assumes serves: "table c = Some h \<Longrightarrow> handler_ok h"
    and returns: "table c = Some h \<Longrightarrow> c \<notin> risky \<Longrightarrow> handler_total h"
begin

lemma call_served: "call (table c) env msg w = Inr w' \<Longrightarrow> served (m_remoteAddr msg) w w'"
  using serves [of c] by (cases "table c") (simp_all add: handler_ok_def)

lemma call_returns: "c \<in> dom table \<Longrightarrow> c \<notin> risky \<Longrightarrow> world_inv w \<Longrightarrow> \<exists>w'. call (table c) env msg w = Inr w'"
  using returns [of c] by (auto simp: handler_total_def)

lemma call_unknown: "c \<notin> dom table \<Longrightarrow> call (table c) env msg w = Inl NilFunctionCall"
  by (simp add: domIff)

text \<open>A handler that only looks its command up in the table keeps the contract.\<close>

lemma processor_ok: "(\<And>env msg w. h env msg w = call (table (rm_cmd (m_message msg))) env msg w) \<Longrightarrow> handler_ok h"
  using call_served by (simp add: handler_ok_def)

end

lemma table_ok: "list_all P (map snd kvs) \<Longrightarrow> map_of kvs c = Some h \<Longrightarrow> P h"
  by (force simp: list_all_iff dest: map_of_SomeD)

lemma table_total:
  assumes "list_all (\<lambda>(k, h). k \<in> risky \<or> P h) kvs" "map_of kvs c = Some h" "c \<notin> risky"
  shows "P h"
  using assms by (auto simp: list_all_iff dest!: map_of_SomeD)

lemmas oks = app_ok storage_ok
lemmas totals = app_total storage_total

interpretation chassis: command_table chassisProcessors "{}"
proof
  show "handler_ok h" if "chassisProcessors c = Some h" for c h
    using that unfolding chassisProcessors_def
    by (elim table_ok [rotated]) (simp add: stub_ok stubs)
  show "handler_total h" if "chassisProcessors c = Some h" for c h
    using that unfolding chassisProcessors_def
    by (elim table_ok [rotated]) (simp add: stub_total stubs)
qed

interpretation sensor: command_table sensorProcessors "{}"
proof
  show "handler_ok h" if "sensorProcessors c = Some h" for c h
    using that unfolding sensorProcessors_def
    by (elim table_ok [rotated]) (simp add: stub_ok stubs oks)
  show "handler_total h" if "sensorProcessors c = Some h" for c h
    using that unfolding sensorProcessors_def
    by (elim table_ok [rotated]) (simp add: stub_total stubs totals)
qed

interpretation app: command_table appProcessors "{CLOSE_SESSION_CMD}"
proof
  show "handler_ok h" if "appProcessors c = Some h" for c h
    using that unfolding appProcessors_def
    by (elim table_ok [rotated]) (simp add: stub_ok stubs oks)
  show "handler_total h" if "appProcessors c = Some h" "c \<notin> {CLOSE_SESSION_CMD}" for c h
    by (rule table_total [OF _ that(1) [unfolded appProcessors_def] that(2)]) (simp add: stub_total stubs totals)
qed

interpretation storage: command_table storageProcessors "{GET_SDR_CMD, ADD_SDR_CMD, GET_SEL_ENTRY_CMD}"
proof
  show "handler_ok h" if "storageProcessors c = Some h" for c h
    using that unfolding storageProcessors_def
    by (elim table_ok [rotated]) (simp add: stub_ok stubs oks)
  show "handler_total h" if "storageProcessors c = Some h" "c \<notin> {GET_SDR_CMD, ADD_SDR_CMD, GET_SEL_ENTRY_CMD}" for c h
    by (rule table_total [OF _ that(1) [unfolded storageProcessors_def] that(2)]) (simp add: stub_total stubs totals)
qed

interpretation netfn: command_table netfuncProcessors "{CHASSIS_NETFN, SENSOR_EVENT_NETFN, APP_NETFN, STORAGE_NETFN}"
proof
  show "handler_ok h" if "netfuncProcessors c = Some h" for c h
    using that unfolding netfuncProcessors_def
    by (elim table_ok [rotated])
      (simp add: stub_ok stubs chassis.processor_ok [OF chassisNetfn_def] sensor.processor_ok [OF sensorEventNetfn_def]
        app.processor_ok [OF appNetfn_def] storage.processor_ok [OF storageNetfn_def])
  show "handler_total h" if "netfuncProcessors c = Some h"
    "c \<notin> {CHASSIS_NETFN, SENSOR_EVENT_NETFN, APP_NETFN, STORAGE_NETFN}" for c h
    by (rule table_total [OF _ that(1) [unfolded netfuncProcessors_def] that(2)]) (simp add: stub_total stubs)
qed

section \<open>Which commands can unlist a sensor\<close>

text \<open>Only clearing the repository takes the record of a sensor away.\<close>

definition handler_keeps :: "handler \<Rightarrow> bool" where
  "handler_keeps h \<longleftrightarrow> (\<forall>env msg w w'. h env msg w = Inr w' \<longrightarrow> sensors_listed (w_mc w) \<longrightarrow> sensors_listed (w_mc w'))"

lemma sensors_listed_mono:
  assumes "mc_sensors mc' = mc_sensors mc"
    and "\<And>lun n. find_sensor lun n (r_sdrs (mc_mainSdrs mc)) \<noteq> None \<Longrightarrow> find_sensor lun n (r_sdrs (mc_mainSdrs mc')) \<noteq> None"
    and "sensors_listed mc"
  shows "sensors_listed mc'"
proof -
  have "find_sensor (of_nat lun) (of_nat n) (r_sdrs (mc_mainSdrs mc')) \<noteq> None"
    if "(lun, n) \<in> set poll_order" "mc_sensors mc' lun n \<noteq> None" for lun n
    using assms(1,3) that by (intro assms(2)) (auto simp: sensors_listed_def)
  then show ?thesis by (auto simp: sensors_listed_def)
qed

lemma stub_keeps: "(\<And>env msg w. h env msg w = Inr w) \<Longrightarrow> handler_keeps h"
  by (simp add: handler_keeps_def)

lemma app_keeps:
  "handler_keeps getSystemGuid" "handler_keeps getChannelCipherSuites" "handler_keeps getChannelAuthCapabilties"
  "handler_keeps getSessionChallenge" "handler_keeps activateSession" "handler_keeps setSessionPrivilege"
  "handler_keeps closeSession"
proof -
  have "sensors_listed (w_mc w')" if "rsp_frame a w w'" "sensors_listed (w_mc w)" for a w w'
    using that by (simp add: rsp_frame_def)
  then show "handler_keeps getSystemGuid" "handler_keeps getChannelCipherSuites" "handler_keeps getChannelAuthCapabilties"
    "handler_keeps getSessionChallenge" "handler_keeps activateSession" "handler_keeps setSessionPrivilege"
    "handler_keeps closeSession"
    unfolding handler_keeps_def by (meson app_frame activateSession_frame closeSession_frame)+
qed

lemma sel_frame_keeps:
  "sel_frame a w w' \<Longrightarrow> sensors_listed (w_mc w) \<Longrightarrow> sensors_listed (w_mc w')"
  by (rule sensors_listed_mono [of _ "w_mc w"]) (auto simp: sel_frame_def rsp_step_def rsp_frame_def)

lemma reply_mc:
  "returnErr msg s e w = Inr w' \<Longrightarrow> w_mc w' = w_mc w" "returnRspData msg s d n w = Inr w' \<Longrightarrow> w_mc w' = w_mc w"
  by (auto dest: returnErr_frame returnRspData_frame simp: rsp_frame_def)

lemma find_sensor_append_Some: "find_sensor lun n es = Some i \<Longrightarrow> find_sensor lun n (es @ [e]) = Some i"
  by (simp add: find_sensor_def find_from_append)

lemma addSdr_keeps: "handler_keeps addSdr"
  unfolding handler_keeps_def
proof (intro allI impI)
  fix env :: goenv and msg :: msgT and w w' :: world
  assume run: "addSdr env msg w = Inr w'" and listed: "sensors_listed (w_mc w)"
  show "sensors_listed (w_mc w')"
  proof (rule sensors_listed_mono [OF _ _ listed])
    show "mc_sensors (w_mc w') = mc_sensors (w_mc w)"
      using served_sdr [OF addSdr_frame [OF run]] by (simp add: served_def)
    show "find_sensor lun n (r_sdrs (mc_mainSdrs (w_mc w'))) \<noteq> None"
      if "find_sensor lun n (r_sdrs (mc_mainSdrs (w_mc w))) \<noteq> None" for lun n
      using run that unfolding addSdr_eq Let_def
      by (auto split: option.splits if_splits dest!: reply_mc simp: append_sdr_def find_sensor_append_Some)
  qed
qed

lemma storage_keeps:
  "handler_keeps getSelInfo" "handler_keeps reserveSel" "handler_keeps getSelEntry" "handler_keeps addSelEntry"
  "handler_keeps clearSel" "handler_keeps getSdrRepositoryInfo" "handler_keeps reserveSdrRepository"
  "handler_keeps getSdr" "handler_keeps getSensorReading"
proof -
  show "handler_keeps getSelInfo" "handler_keeps reserveSel" "handler_keeps getSelEntry" "handler_keeps addSelEntry"
    "handler_keeps clearSel"
    unfolding handler_keeps_def by (meson sel_frame_keeps sel_command_frame)+
  have same: "sensors_listed (mc\<lparr>mc_mainSdrs := reserve_sdrs (mc_mainSdrs mc)\<rparr>) = sensors_listed mc" for mc
    by (simp add: sensors_listed_def reserve_sdrs_def)
  show "handler_keeps getSdrRepositoryInfo" "handler_keeps reserveSdrRepository" "handler_keeps getSdr"
    "handler_keeps getSensorReading"
    by (auto simp: handler_keeps_def getSdrRepositoryInfo_def reserveSdrRepository_def getSdr_def getSensorReading_def
        Let_def set_sdrs_def same split: if_splits option.splits dest!: reply_mc)
qed

lemmas keeps = app_keeps addSdr_keeps storage_keeps

locale listed_table = command_table +
  fixes clearing :: "u8 set"
  assumes keeps_listed: "table c = Some h \<Longrightarrow> c \<notin> clearing \<Longrightarrow> handler_keeps h"
begin

lemma call_keeps:
  "call (table c) env msg w = Inr w' \<Longrightarrow> c \<notin> clearing \<Longrightarrow> sensors_listed (w_mc w) \<Longrightarrow> sensors_listed (w_mc w')"
  using keeps_listed [of c] by (cases "table c") (auto simp: handler_keeps_def)

lemma processor_keeps:
  "clearing = {} \<Longrightarrow> (\<And>env msg w. h env msg w = call (table (rm_cmd (m_message msg))) env msg w) \<Longrightarrow> handler_keeps h"
  using call_keeps by (auto simp: handler_keeps_def)

end

interpretation chassis: listed_table chassisProcessors "{}" "{}"
proof
  show "handler_keeps h" if "chassisProcessors c = Some h" for c h
    using that unfolding chassisProcessors_def
    by (elim table_ok [rotated]) (simp add: stub_keeps stubs)
qed

interpretation sensor: listed_table sensorProcessors "{}" "{}"
proof
  show "handler_keeps h" if "sensorProcessors c = Some h" for c h
    using that unfolding sensorProcessors_def
    by (elim table_ok [rotated]) (simp add: stub_keeps stubs keeps)
qed

interpretation app: listed_table appProcessors "{CLOSE_SESSION_CMD}" "{}"
proof
  show "handler_keeps h" if "appProcessors c = Some h" for c h
    using that unfolding appProcessors_def
    by (elim table_ok [rotated]) (simp add: stub_keeps stubs keeps)
qed

interpretation storage: listed_table storageProcessors "{GET_SDR_CMD, ADD_SDR_CMD, GET_SEL_ENTRY_CMD}" "{CLEAR_SDR_REPOSITORY_CMD}"
proof
  show "handler_keeps h" if "storageProcessors c = Some h" "c \<notin> {CLEAR_SDR_REPOSITORY_CMD}" for c h
    by (rule table_total [OF _ that(1) [unfolded storageProcessors_def] that(2)]) (simp add: stub_keeps stubs keeps)
qed

interpretation netfn: listed_table netfuncProcessors "{CHASSIS_NETFN, SENSOR_EVENT_NETFN, APP_NETFN, STORAGE_NETFN}" "{STORAGE_NETFN}"
proof
  show "handler_keeps h" if "netfuncProcessors c = Some h" "c \<notin> {STORAGE_NETFN}" for c h
    by (rule table_total [OF _ that(1) [unfolded netfuncProcessors_def] that(2)])
      (simp add: stub_keeps stubs chassis.processor_keeps [OF refl chassisNetfn_def]
        sensor.processor_keeps [OF refl sensorEventNetfn_def] app.processor_keeps [OF refl appNetfn_def])
qed

section \<open>One datagram\<close>

text \<open>The message that a datagram turns into, and what its parsing sends (a presence pong).\<close>

definition parsed :: "nat \<Rightarrow> u8 list \<Rightarrow> world \<Rightarrow> msgT \<times> world" where
  "parsed addr pkt w = ipmiParseMsg ((received addr pkt)\<lparr>m_channel := l_chanNum (w_lan w)\<rparr>) w"

lemma asfPing_served: "served (m_remoteAddr msg) w (asfPing msg w)"
  by (simp add: asfPing_def Let_def served_def world_inv_def replies_def pong_ok putUint32_def)

lemma first_entries:
  "netfuncProcessors 0 = Some chassisNetfn" "chassisProcessors 0 = Some getChassisCapabilities"
  by (simp_all add: netfuncProcessors_def chassisProcessors_def protodefs)

lemma parsed_cases:
  obtains (ping) "parsed addr pkt w = ((received addr pkt)\<lparr>m_channel := l_chanNum (w_lan w)\<rparr>,
      asfPing ((received addr pkt)\<lparr>m_channel := l_chanNum (w_lan w)\<rparr>) w)"
  | (request) m where "parsed addr pkt w = (m, w)" "m_remoteAddr m = addr" "m_authtype m \<noteq> IPMI_AUTHTYPE_RMCP_PLUS"
proof -
  let ?m = "(received addr pkt)\<lparr>m_channel := l_chanNum (w_lan w)\<rparr>"
  have z: "m_authtype ?m = 0" "(0 :: u8) \<noteq> IPMI_AUTHTYPE_RMCP_PLUS" "m_remoteAddr ?m = addr" "m_dataStart ?m = 0"
    by (simp_all add: received_def protodefs)
  have r: "m_remoteAddr (ipmiParseRmcpMsg ?m) = addr"
    using z by (simp add: ipmiParseRmcpMsg_def Let_def)
  have a: "m_authtype (ipmiParseRmcpMsg ?m) \<noteq> IPMI_AUTHTYPE_RMCP_PLUS" if "arr (m_data ?m) 4 \<noteq> IPMI_AUTHTYPE_RMCP_PLUS"
    using z that by (simp add: ipmiParseRmcpMsg_def Let_def) (simp add: protodefs)
  have p: "parsed addr pkt w = (if arr (m_data ?m) 3 = 6 then (?m, asfPing ?m w)
      else if arr (m_data ?m) 3 = 7 \<and> arr (m_data ?m) 4 \<noteq> IPMI_AUTHTYPE_RMCP_PLUS then (ipmiParseRmcpMsg ?m, w)
      else (?m, w))"
    using z(4) by (simp add: parsed_def ipmiParseMsg_def Let_def)
  show ?thesis
  proof (cases "arr (m_data ?m) 3 = 6")
    case True
    with p show ?thesis by (intro ping) simp
  next
    case other: False
    show ?thesis
    proof (cases "arr (m_data ?m) 3 = 7 \<and> arr (m_data ?m) 4 \<noteq> IPMI_AUTHTYPE_RMCP_PLUS")
      case True
      then have "m_authtype (ipmiParseRmcpMsg ?m) \<noteq> IPMI_AUTHTYPE_RMCP_PLUS" using a by simp
      with True other r p show ?thesis by (intro request [of "ipmiParseRmcpMsg ?m"]) simp_all
    next
      case False
      with other z have "parsed addr pkt w = (?m, w)" unfolding p by (simp only: if_False)
      with z show ?thesis by (intro request [of ?m]) simp_all
    qed
  qed
qed

text \<open>Handling a datagram is looking up the command of the parsed message.\<close>

lemma handle_request:
  assumes "5 \<le> length pkt" "parsed addr pkt w = (m, w)" "m_authtype m \<noteq> IPMI_AUTHTYPE_RMCP_PLUS"
  shows "ipmiHandleMsg env (received addr pkt) w = call (netfuncProcessors (rm_netfn (m_message m))) env m w"
proof -
  have "\<not> m_dataLen (received addr pkt) < 5"
    using assms(1) by (simp add: received_def MAX_MSG_DATA_def)
  with assms(2,3) show ?thesis by (simp add: ipmiHandleMsg_def parsed_def)
qed

lemma handle_ping:
  assumes "5 \<le> length pkt" "parsed addr pkt w = ((received addr pkt)\<lparr>m_channel := x\<rparr>, w')"
  shows "ipmiHandleMsg env (received addr pkt) w = Inr w'"
proof -
  have "\<not> m_dataLen (received addr pkt) < 5"
    using assms(1) by (simp add: received_def MAX_MSG_DATA_def)
  with assms(2) show ?thesis
    by (simp add: ipmiHandleMsg_def parsed_def received_def first_entries zero_rmcp_message_def
        chassisNetfn_def stubs protodefs)
qed

lemma handle_short: "length pkt < 5 \<Longrightarrow> ipmiHandleMsg env (received addr pkt) w = Inr w"
  by (simp add: ipmiHandleMsg_def received_def min_less_iff_disj)

lemma handle_served:
  assumes "ipmiHandleMsg env (received addr pkt) w = Inr w'"
  shows "served addr w w'"
proof (cases "length pkt < 5")
  case True
  with assms show ?thesis by (simp add: handle_short)
next
  case False
  then have len: "5 \<le> length pkt" by simp
  show ?thesis
  proof (cases rule: parsed_cases [of addr pkt w])
    case ping
    let ?m = "(received addr pkt)\<lparr>m_channel := l_chanNum (w_lan w)\<rparr>"
    from handle_ping [OF len ping, of env] assms have "w' = asfPing ?m w" by simp
    with asfPing_served [of ?m w] show ?thesis by (simp add: received_def)
  next
    case (request m)
    with handle_request [OF len request(1,3), of env] assms netfn.call_served [of _ env m w w'] show ?thesis by simp
  qed
qed

text \<open>A request of the client goes to its handler.\<close>

lemma handle_client:
  assumes "unat cmdLen < 235" "netFn < 64" "rsLun < 4" "rqLun < 4"
    and pkt: "pkt = clientBuildMsg cmdData cmdLen reqLen sseq sid rsLun netFn rqLun rqSeq cmd"
    and m: "m = parsed_client (l_chanNum (w_lan w)) addr pkt sseq sid rsLun netFn rqLun rqSeq cmd"
  shows "parsed addr pkt w = (m, w)" "5 \<le> length pkt"
    "ipmiHandleMsg env (received addr pkt) w = call (netfuncProcessors netFn) env m w"
proof -
  show p: "parsed addr pkt w = (m, w)"
    unfolding parsed_def m pkt by (rule client_parse [OF assms(1-4)])
  show len: "5 \<le> length pkt" by (simp add: pkt clientBuildMsg_eq assms(1))
  have "m_authtype m \<noteq> IPMI_AUTHTYPE_RMCP_PLUS" "rm_netfn (m_message m) = netFn"
    by (simp_all add: m parsed_client_def protodefs)
  with handle_request [OF len p, of env] show "ipmiHandleMsg env (received addr pkt) w = call (netfuncProcessors netFn) env m w"
    by simp
qed

lemma netfn_entries:
  "netfuncProcessors CHASSIS_NETFN = Some chassisNetfn" "netfuncProcessors SENSOR_EVENT_NETFN = Some sensorEventNetfn"
  "netfuncProcessors APP_NETFN = Some appNetfn" "netfuncProcessors STORAGE_NETFN = Some storageNetfn"
  by (simp_all add: netfuncProcessors_def protodefs)

lemma app_entries:
  "appProcessors GET_CHANNEL_AUTH_CAPABILITIES_CMD = Some getChannelAuthCapabilties"
  "appProcessors GET_SESSION_CHALLENGE_CMD = Some getSessionChallenge"
  "appProcessors ACTIVATE_SESSION_CMD = Some activateSession"
  "appProcessors SET_SESSION_PRIVILEGE_CMD = Some setSessionPrivilege"
  "appProcessors CLOSE_SESSION_CMD = Some closeSession"
  by (simp_all add: appProcessors_def protodefs)

lemma storage_entries:
  "storageProcessors ADD_SDR_CMD = Some addSdr" "storageProcessors GET_SDR_CMD = Some getSdr"
  by (simp_all add: storageProcessors_def protodefs)

definition demo_request :: "u32 \<Rightarrow> u8 \<Rightarrow> u8 \<Rightarrow> u8 list \<Rightarrow> u8 list" where
  "demo_request sid netFn cmd d = clientBuildMsg d (of_nat (length d)) 0 0 sid 0 netFn 0 1 cmd"

definition demo_server :: world where
  "demo_server = set_sel demo_sel demo_world"

lemma demo_server_inv:
  "lan_inv (w_lan demo_server)" "sel_inv (mc_sel (w_mc demo_server))" "sdr_inv (mc_mainSdrs (w_mc demo_server))"
  using lan_inv_init demo_sel_inv
  by (simp_all add: demo_server_def demo_world_def zero_mc_def zero_sdrs_def sdr_inv_empty)

lemma length_demo_request: "length d < 200 \<Longrightarrow> length (demo_request sid netFn cmd d) = length d + 21"
  by (simp add: demo_request_def clientBuildMsg_eq unat_of_nat)

lemma handle_demo:
  assumes "length d < 200" "netFn < 64" "pkt = demo_request sid netFn cmd d"
    and "m = parsed_client (l_chanNum (w_lan w)) 7 pkt 0 sid 0 netFn 0 1 cmd"
  shows "parsed 7 pkt w = (m, w)" "5 \<le> length pkt"
    "ipmiHandleMsg env (received 7 pkt) w = call (netfuncProcessors netFn) env m w"
proof -
  have len: "unat (of_nat (length d) :: u8) < 235" using assms(1) by (simp add: unat_of_nat)
  have "(0 :: u8) < 4" by simp
  from handle_client [OF len assms(2) this this assms(3) [unfolded demo_request_def] assms(4)]
  show "parsed 7 pkt w = (m, w)" "5 \<le> length pkt"
    "ipmiHandleMsg env (received 7 pkt) w = call (netfuncProcessors netFn) env m w" .
qed

section \<open>Properties\<close>

text \<open>C19: Every datagram is served within bounds. Whatever bytes arrive, if the daemon does not panic it
  sends at most one datagram, to the sender; it keeps the invariants of the session table, the event
  log and the SDR repository; and it leaves the card number, the client's context and the
  sensors alone.\<close>

theorem handle_serves:
  assumes "ipmiHandleMsg env (received addr pkt) w = Inr w'"
  shows "(w_sent w' = w_sent w \<or> (\<exists>rsp. w_sent w' = w_sent w @ [(addr, rsp)])) \<and>
    (lan_inv (w_lan w) \<and> sel_inv (mc_sel (w_mc w)) \<and> sdr_inv (mc_mainSdrs (w_mc w)) \<longrightarrow>
     lan_inv (w_lan w') \<and> sel_inv (mc_sel (w_mc w')) \<and> sdr_inv (mc_mainSdrs (w_mc w'))) \<and>
    w_card w' = w_card w \<and> w_ctx w' = w_ctx w \<and> mc_sensors (w_mc w') = mc_sensors (w_mc w)"
  using handle_served [OF assms] by (auto simp: served_def replies_def world_inv_def)

theorem handle_serves_witness:
  "\<exists>w'. ipmiHandleMsg demo_env (received 7 (demo_request 0 APP_NETFN GET_CHANNEL_AUTH_CAPABILITIES_CMD [0xE, 3])) demo_server
      = Inr w' \<and> lan_inv (w_lan w') \<and> sel_inv (mc_sel (w_mc w')) \<and> w_card w' = w_card demo_server"
proof -
  let ?pkt = "demo_request 0 APP_NETFN GET_CHANNEL_AUTH_CAPABILITIES_CMD [0xE, 3]"
  have "length [0xE, 3 :: u8] < 200" "APP_NETFN < 64" by (simp_all add: protodefs)
  note run = handle_demo(3) [OF this refl refl, where w = demo_server]
  obtain w' where w': "ipmiHandleMsg demo_env (received 7 ?pkt) demo_server = Inr w'"
    using handler_totalD [OF app_total(3)] demo_server_inv
    by (fastforce simp: run netfn_entries appNetfn_def app_entries parsed_client_def world_inv_def)
  with handle_serves [OF w'] demo_server_inv show ?thesis by blast
qed

text \<open>C8: Which requests can kill the daemon. In a state that satisfies the invariants, a datagram that
  makes the daemon panic is an RMCP message whose network function or command is in no table, or it
  is one of four commands: Close Session, Get SDR, Add SDR or Get SEL Entry.\<close>

theorem handle_panics_only:
  assumes inv: "lan_inv (w_lan w)" "sel_inv (mc_sel (w_mc w))" "sdr_inv (mc_mainSdrs (w_mc w))"
    and panic: "ipmiHandleMsg env (received addr pkt) w = Inl e"
    and m: "m = fst (parsed addr pkt w)" "f = rm_netfn (m_message m)" "c = rm_cmd (m_message m)"
  shows "f \<notin> dom netfuncProcessors \<or> f = CHASSIS_NETFN \<and> c \<notin> dom chassisProcessors \<or>
    f = SENSOR_EVENT_NETFN \<and> c \<notin> dom sensorProcessors \<or>
    f = APP_NETFN \<and> (c \<notin> dom appProcessors \<or> c = CLOSE_SESSION_CMD) \<or>
    f = STORAGE_NETFN \<and> (c \<notin> dom storageProcessors \<or> c \<in> {GET_SDR_CMD, ADD_SDR_CMD, GET_SEL_ENTRY_CMD})"
proof -
  have wi: "world_inv w" using inv by (simp add: world_inv_def)
  have len: "5 \<le> length pkt" using panic handle_short [of pkt env addr w] by (cases "length pkt < 5") auto
  show ?thesis
  proof (cases rule: parsed_cases [of addr pkt w])
    case ping
    with handle_ping [OF len ping, of env] panic show ?thesis by simp
  next
    case (request m')
    then have m': "m' = m" using m(1) by simp
    have run: "call (netfuncProcessors f) env m w = Inl e"
      using handle_request [OF len request(1,3), of env] panic m(2) m' by simp
    have unknown: "c' \<notin> dom t \<or> c' \<in> r" if "command_table t r" "call (t c') env m w = Inl e" for t r c'
      using command_table.call_returns [OF that(1) _ _ wi, of c' env m] that(2) by force
    have "f \<notin> dom netfuncProcessors \<or> f \<in> {CHASSIS_NETFN, SENSOR_EVENT_NETFN, APP_NETFN, STORAGE_NETFN}"
      by (rule unknown [OF netfn.command_table_axioms run])
    then show ?thesis
      using run netfn_entries unknown [OF chassis.command_table_axioms, of c] unknown [OF sensor.command_table_axioms, of c]
        unknown [OF app.command_table_axioms, of c] unknown [OF storage.command_table_axioms, of c]
      by (elim disjE insertE emptyE)
        (simp_all add: chassisNetfn_def sensorEventNetfn_def appNetfn_def storageNetfn_def m(3) [symmetric])
  qed
qed


theorem handle_panics_only_witness:
  "\<exists>e. ipmiHandleMsg demo_env (received 7 (demo_request 6 APP_NETFN CLOSE_SESSION_CMD [1, 2, 3, 4])) demo_server = Inl e \<and>
     CLOSE_SESSION_CMD \<in> dom appProcessors"
proof -
  let ?pkt = "demo_request 6 APP_NETFN CLOSE_SESSION_CMD [1, 2, 3, 4]"
  let ?m = "parsed_client (l_chanNum (w_lan demo_server)) 7 ?pkt 0 6 0 APP_NETFN 0 1 CLOSE_SESSION_CMD"
  have h: "length [1, 2, 3, 4 :: u8] < 200" "APP_NETFN < 64" by (simp_all add: protodefs)
  note p = handle_demo(1) [OF h refl refl, where w = demo_server]
    and run = handle_demo(3) [OF h refl refl, where w = demo_server] and len = handle_demo(2) [OF h refl refl]
  have "sidToSession 6 (w_lan demo_server) = None" by code_simp
  then have panic: "ipmiHandleMsg demo_env (received 7 ?pkt) demo_server = Inl NilDereference"
    by (simp add: run length_demo_request netfn_entries appNetfn_def app_entries parsed_client_def closeSession_def Let_def)
  have "rm_netfn (m_message ?m) = APP_NETFN" "rm_cmd (m_message ?m) = CLOSE_SESSION_CMD" "?m = fst (parsed 7 ?pkt demo_server)"
    using p by (simp_all add: parsed_client_def)
  with handle_panics_only [OF demo_server_inv panic, of ?m APP_NETFN CLOSE_SESSION_CMD] panic
  show ?thesis by (auto simp: app_entries)
qed

text \<open>C32: An unknown command kills the daemon. A datagram of the message class 7 whose network function has
  no processor, or whose command is missing from the table of its network function (chassis, sensor,
  application or storage), calls a nil function, in every state, without any session.\<close>

theorem unknown_command_panics:
  assumes "5 \<le> length pkt" "parsed addr pkt w = (m, w)" "m_authtype m \<noteq> IPMI_AUTHTYPE_RMCP_PLUS"
    and "f = rm_netfn (m_message m)" "c = rm_cmd (m_message m)"
    and "f \<notin> dom netfuncProcessors \<or> f = CHASSIS_NETFN \<and> c \<notin> dom chassisProcessors \<or>
      f = SENSOR_EVENT_NETFN \<and> c \<notin> dom sensorProcessors \<or> f = APP_NETFN \<and> c \<notin> dom appProcessors \<or>
      f = STORAGE_NETFN \<and> c \<notin> dom storageProcessors"
  shows "ipmiHandleMsg env (received addr pkt) w = Inl NilFunctionCall"
proof -
  have "call (netfuncProcessors f) env m w = Inl NilFunctionCall"
    using assms(6) netfn_entries netfn.call_unknown chassis.call_unknown sensor.call_unknown app.call_unknown storage.call_unknown
    by (elim disjE conjE)
      (simp_all add: chassisNetfn_def sensorEventNetfn_def appNetfn_def storageNetfn_def assms(5) [symmetric])
  then show ?thesis using handle_request [OF assms(1-3), of env] assms(4) by simp
qed

text \<open>Get Chassis Status (command 1), which every IPMI tool sends, is such a command.\<close>

theorem unknown_command_panics_witness:
  "ipmiHandleMsg demo_env (received 7 (demo_request 0 CHASSIS_NETFN 1 [])) demo_server = Inl NilFunctionCall"
proof -
  have h: "length ([] :: u8 list) < 200" "CHASSIS_NETFN < 64" by (simp_all add: protodefs)
  note p = handle_demo(1) [OF h refl refl, where w = demo_server]
    and run = handle_demo(3) [OF h refl refl, where w = demo_server] and len = handle_demo(2) [OF h refl refl]
  have "1 \<notin> dom chassisProcessors" by (simp add: chassisProcessors_def protodefs)
  then show ?thesis
    by (intro unknown_command_panics [OF len p _ refl refl]) (simp_all add: parsed_client_def protodefs)
qed

end
