(* ===== verification/Handshake.thy ===== *)
theory Handshake
  imports Dispatch
begin

text \<open>
  The client and the server put together: the management module's daemon as the network of a line
  card's client. Every request the client writes is handled by \<open>ipmiHandleMsg\<close>; the datagram it
  sends, if any, is what the client reads.
\<close>

section \<open>The server as a network\<close>

text \<open>
  Where the server panics or sends nothing, the exchange fails as if the read had returned an error.
  The program's read would wait for ever instead; the properties below are of exchanges
  that the server answers.
\<close>

definition server_net :: "goenv \<Rightarrow> nat \<Rightarrow> world net" where
  "server_net env addr w pkt =
     (case ipmiHandleMsg env (received addr pkt) w of
        Inl e \<Rightarrow> (ReadError, w)
      | Inr w' \<Rightarrow> (if length (w_sent w) < length (w_sent w') then Reply (snd (last (w_sent w'))) else ReadError, w'))"

text \<open>What the client reads in a response without authentication.\<close>

lemma reply_reads:
  assumes "s_authtype s = IPMI_AUTHTYPE_NONE" and d: "d = rsp_packet msg s rsp"
  shows "clientBasicMsgCheck d" "arr d 13 = ucast (p_dataLen rsp + 7)" "arr d 19 = p_cmd rsp"
    "i < unat (p_dataLen rsp) \<Longrightarrow> arr d (20 + i) = arr (rsp_payload rsp) i"
    "length d = unat (p_dataLen rsp) + 21"
proof -
  let ?m = "m_message msg"
  let ?h = "rsp_header s rsp"
  let ?addr = "[rm_rqAddr ?m, push_bit 2 (p_netfn rsp) OR rm_rqLun ?m]"
  let ?b = "?addr @ [ipmiChecksum ?addr 2 0]
    @ [rm_rsAddr ?m, push_bit 2 (rm_rqSeq ?m) OR rm_rsLun ?m, p_cmd rsp]"
  let ?c = "rsp_payload rsp @ [ipmiChecksum (rsp_payload rsp) (unat (p_dataLen rsp))
      (- ipmiChecksum [rm_rsAddr ?m, push_bit 2 (rm_rqSeq ?m) OR rm_rsLun ?m, p_cmd rsp] 3 0)]"
  have lens: "length ?h = 14" "length (?h @ ?b) = 20" using assms(1) by (simp_all add: length_rsp_header)
  have d': "d = ?h @ ?b @ ?c" by (simp add: d rsp_packet_def rsp_message_def Let_def)
  have "arr d k = arr ?h k" if "k < 14" for k
    using that lens(1) unfolding d' by (simp add: arr_def nth_append)
  note h = this [of 0] this [of 2] this [of 3] this [of 13]
  show "clientBasicMsgCheck d" "arr d 13 = ucast (p_dataLen rsp + 7)"
    using h assms(1) by (simp_all add: clientBasicMsgCheck_def rsp_header_def putUint32_def)
  have "arr d (14 + 5) = p_cmd rsp"
    unfolding d' by (subst arr_parts [OF lens(1)]) simp
  then show "arr d 19 = p_cmd rsp" by simp
  show "arr d (20 + i) = arr (rsp_payload rsp) i" if "i < unat (p_dataLen rsp)"
  proof -
    have d2: "d = (?h @ ?b) @ ?c" by (simp only: d' append_assoc)
    have "arr d (20 + i) = arr ?c i" unfolding d2 by (rule arr_parts [OF lens(2)])
    then show ?thesis using that by (simp add: arr_def nth_append)
  qed
  show "length d = unat (p_dataLen rsp) + 21"
    using assms(1) by (simp add: d rsp_packet_def length_rsp_header length_rsp_message)
qed

text \<open>One request that is answered at the first try.\<close>

lemma exchange_answered:
  assumes run: "ipmiHandleMsg env (received addr pkt) w = Inr w'" and sent: "w_sent w' = w_sent w @ [(addr, rsp)]"
    and size: "length rsp \<le> 1000" and parse: "p rsp ctx = (True, ctx')"
  shows "try_exchange MAX_RETRIES (server_net env addr) pkt p ctx (Some w) = Inr (True, ctx', Some w')"
proof -
  have "server_net env addr w pkt = (Reply rsp, w')"
    using run sent by (simp add: server_net_def)
  then have "ipmiReqRsp (server_net env addr) pkt p ctx (Some w) = Inr (True, ctx', Some w')"
    using size parse by (simp add: ipmiReqRsp_def MAX_MSG_RETURN_DATA_def)
  then show ?thesis by (simp add: MAX_RETRIES_def numeral_3_eq_3)
qed

section \<open>The server's side of the four requests\<close>

lemma serve_app:
  assumes "unat cmdLen < 235" "appProcessors cmd = Some h"
    and "pkt = clientBuildMsg cmdData cmdLen reqLen sseq sid 0 APP_NETFN 0 rqSeq cmd"
    and "m = parsed_client (l_chanNum (w_lan w)) addr pkt sseq sid 0 APP_NETFN 0 rqSeq cmd"
  shows "ipmiHandleMsg env (received addr pkt) w = h env m w"
proof -
  have "APP_NETFN < 64" "(0 :: u8) < 4" by (simp_all add: protodefs)
  from handle_client(3) [OF assms(1) this(1,2,2) assms(3,4), of env] assms(2,4) show ?thesis
    by (simp add: netfn_entries appNetfn_def parsed_client_def)
qed

lemma sid_zero_unlisted:
  assumes "table_wf l"
  shows "sidToSession 0 l = None"
proof -
  have "i = 0" if "valid_slot i" "s_active (l_sessions l ! i)" "s_sid (l_sessions l ! i) = 0" for i
    using table_wfD(3) [OF assms that(1)] that of_nat_slot_eq [of i 0]
    by (auto simp: session_fits_def sid_index_def valid_slot_def protodefs)
  then show ?thesis
    using sidToSession_iff [OF assms, of 0] by (cases "sidToSession 0 l") (auto simp: valid_slot_def)
qed

text \<open>A response outside any session, and one on an open session.\<close>

lemma reply_sessionless:
  assumes "table_wf (w_lan w)" "m_sid m = 0" "length d = n" "n \<le> 900"
  obtains rsp where "returnRspData m None d n w = Inr (send_to (m_remoteAddr m) (rsp_packet m dummy_session rsp) w)"
    "rsp_payload rsp = d" "p_cmd rsp = rm_cmd (m_message m)" "p_dataLen rsp = of_nat n"
proof
  let ?rsp = "\<lparr>p_netfn = rm_netfn (m_message m) OR 1, p_cmd = rm_cmd (m_message m), p_dataLen = of_nat n, p_data = gslice d 0 n\<rparr>"
  have "rsp_session m None (w_lan w) = Some (Local dummy_session)"
    using assms(1,2) by (simp add: rsp_session_def sid_zero_unlisted)
  then show "returnRspData m None d n w = Inr (send_to (m_remoteAddr m) (rsp_packet m dummy_session ?rsp) w)"
    using assms(4) by (simp add: returnRspData_def returnRsp_small unat_of_nat Let_def)
  show "rsp_payload ?rsp = d" using assms(3,4) by (intro rsp_payload_list) simp_all
qed simp_all

lemma reply_in_session:
  assumes "m_sid m \<noteq> 0" "\<not> s_rmcpplus (l_sessions (w_lan w) ! i)" "length d = n" "n \<le> 900"
  obtains rsp where "returnRspData m (Some (Slot i)) d n w =
      Inr (send_to (m_remoteAddr m) (rsp_packet m (l_sessions (w_lan w) ! i) rsp)
        (w\<lparr>w_lan := put_session i ((l_sessions (w_lan w) ! i)
          \<lparr>s_xmitSeq := next_xmitSeq (s_xmitSeq (l_sessions (w_lan w) ! i))\<rparr>) (w_lan w)\<rparr>))"
    "rsp_payload rsp = d" "p_cmd rsp = rm_cmd (m_message m)" "p_dataLen rsp = of_nat n"
proof
  let ?rsp = "\<lparr>p_netfn = rm_netfn (m_message m) OR 1, p_cmd = rm_cmd (m_message m), p_dataLen = of_nat n, p_data = gslice d 0 n\<rparr>"
  have "rsp_session m (Some (Slot i)) (w_lan w) = Some (Slot i)"
    using assms(1,2) by (simp add: rsp_session_def)
  then show "returnRspData m (Some (Slot i)) d n w =
      Inr (send_to (m_remoteAddr m) (rsp_packet m (l_sessions (w_lan w) ! i) ?rsp)
        (w\<lparr>w_lan := put_session i ((l_sessions (w_lan w) ! i)
          \<lparr>s_xmitSeq := next_xmitSeq (s_xmitSeq (l_sessions (w_lan w) ! i))\<rparr>) (w_lan w)\<rparr>))"
    using assms(4) by (simp add: returnRspData_def returnRsp_small unat_of_nat Let_def)
  show "rsp_payload ?rsp = d" using assms(3,4) by (intro rsp_payload_list) simp_all
qed simp_all

text \<open>The reads of the client on a response whose completion code is 0.\<close>

lemma reply_good:
  assumes "s_authtype s = IPMI_AUTHTYPE_NONE" "0 < unat (p_dataLen rsp)" "arr (rsp_payload rsp) 0 = 0"
  shows "rsp_good (ucast (p_dataLen rsp + 7)) (p_cmd rsp) (rsp_packet msg s rsp)"
  using reply_reads(1-3) [OF assms(1) refl, of msg rsp] reply_reads(4) [OF assms(1) refl assms(2), where msg = msg] assms(3)
  by (simp add: rsp_good_def)

lemma reply_uint32:
  assumes "s_authtype s = IPMI_AUTHTYPE_NONE" "j + 4 \<le> unat (p_dataLen rsp)"
  shows "getUint32 (rsp_packet msg s rsp) (20 + j) = getUint32 (rsp_payload rsp) j"
proof -
  have "arr (rsp_packet msg s rsp) (20 + k) = arr (rsp_payload rsp) k" if "k < j + 4" for k
    using reply_reads(4) [OF assms(1) refl] that assms(2) by simp
  note this [of j] this [of "j + 1"] this [of "j + 2"] this [of "j + 3"]
  then show ?thesis by (simp add: getUint32_def add.assoc)
qed

lemma dummy_authtype [simp]: "s_authtype dummy_session = IPMI_AUTHTYPE_NONE"
  by (simp add: dummy_session_def)

lemma not_sessionless_client [simp]: "\<not> sessionless_with_auth (parsed_client c a p q sid l f r s cmd)"
  by (simp add: sessionless_with_auth_def parsed_client_def zero_rmcp_session_def protodefs)

lemma parsed_client_fields [simp]:
  "m_sid (parsed_client c a p q sid l f r s cmd) = sid"
  "m_authtype (parsed_client c a p q sid l f r s cmd) = 0"
  "m_remoteAddr (parsed_client c a p q sid l f r s cmd) = a"
  "m_data (parsed_client c a p q sid l f r s cmd) = p"
  "m_dataStart (parsed_client c a p q sid l f r s cmd) = 20"
  "m_dataLen (parsed_client c a p q sid l f r s cmd) = length p"
  "rm_cmd (m_message (parsed_client c a p q sid l f r s cmd)) = cmd"
  "rs_sid (m_session (parsed_client c a p q sid l f r s cmd)) = sid"
  by (simp_all add: parsed_client_def)

lemma caps_served:
  assumes inv: "lan_inv (w_lan w)" and pkt: "pkt = fst (gcacBuildMsg 9 ctx)"
  obtains rsp where "ipmiHandleMsg env (received addr pkt) w = Inr (send_to addr rsp w)" "length rsp \<le> 1000"
    "\<And>c. gcacParseRsp rsp c = (True, c)"
proof -
  let ?m = "parsed_client (l_chanNum (w_lan w)) addr pkt 0 0 0 APP_NETFN 0 (c_rqSeq ctx) GET_CHANNEL_AUTH_CAPABILITIES_CMD"
  let ?d = "[0, 1, 0x17, 0x6, 0, 0, 0, 0, 0] :: u8 list"
  note p = pkt [unfolded gcacBuildMsg_def fst_conv]
  have d: "arr pkt (20 + i) = arr [0x0E, 3] i" if "i < 2" for i
    unfolding p using that by (intro client_data) simp_all
  have run: "ipmiHandleMsg env (received addr pkt) w = getChannelAuthCapabilties env ?m w"
    by (rule serve_app [OF _ app_entries(1) p refl]) simp
  have "getChannelAuthCapabilties env ?m w = returnRspData ?m None ?d 9 w"
    using d [of 0] d [of 1] lan_invD(4,5) [OF inv]
    by (simp add: getChannelAuthCapabilties_def protodefs)
  moreover obtain rsp where rsp: "returnRspData ?m None ?d 9 w = Inr (send_to addr (rsp_packet ?m dummy_session rsp) w)"
    "rsp_payload rsp = ?d" "p_cmd rsp = GET_CHANNEL_AUTH_CAPABILITIES_CMD" "p_dataLen rsp = 9"
    by (rule reply_sessionless [OF lan_invD(1) [OF inv], of ?m ?d 9]) simp_all
  ultimately show ?thesis
    using run reply_good [OF dummy_authtype, of rsp ?m] reply_reads(5) [OF dummy_authtype refl, of ?m rsp]
    by (intro that [of "rsp_packet ?m dummy_session rsp"]) (simp_all add: gcacParseRsp_def)
qed

lemma client_user:
  assumes "pkt = fst (gscBuildMsg n ctx)"
  shows "gslice pkt 21 37 = u_username user2" "arr pkt 20 = 0"
proof -
  have d: "arr pkt (20 + i) = arr ([0] @ PLAT_USERNAME @ replicate 9 0) i" if "i < 17" for i
    unfolding assms gscBuildMsg_def fst_conv using that by (intro client_data) simp_all
  from d [of 0] show "arr pkt 20 = 0" by simp
  show "gslice pkt 21 37 = u_username user2"
  proof (rule nth_equalityI)
    fix i assume "i < length (gslice pkt 21 37)"
    then have i: "i < 16" by simp
    then have "gslice pkt 21 37 ! i = arr ([0] @ PLAT_USERNAME @ replicate 9 0) (Suc i)"
      using d [of "Suc i"] by simp
    also have "\<dots> = u_username user2 ! i"
      using i by (simp add: PLAT_USERNAME_def arr_def)
    finally show "gslice pkt 21 37 ! i = u_username user2 ! i" .
  qed simp
qed

lemma find_user2:
  assumes "lan_inv l"
  shows "findUser (u_username user2) True a l = Some 2"
proof -
  have "[1..<65] = 1 # 2 # [3..<65 :: nat]" by (simp add: upt_rec)
  moreover have "hd (u_username user2) \<noteq> hd (u_username user1)" by simp
  then have "u_username user2 \<noteq> u_username user1" by metis
  ultimately show ?thesis
    using lan_invD(3) [OF assms] by (simp add: findUser_def MAX_USERS_def)
qed

lemma challenge_served:
  assumes inv: "lan_inv (w_lan w)" and room: "l_activeSessions (w_lan w) < 16" and pkt: "pkt = fst (gscBuildMsg 0x18 ctx)"
  obtains rsp where "ipmiHandleMsg env (received addr pkt) w =
      Inr (send_to addr rsp (w\<lparr>w_lan := (w_lan w)\<lparr>l_nextChallSeq := l_nextChallSeq (w_lan w) + 1\<rparr>\<rparr>))"
    "length rsp \<le> 1000"
    "\<And>c. gscParseRsp rsp c = (True, c\<lparr>c_tempSessionId := mk_temp_sid (l_nextChallSeq (w_lan w)) 2,
       c_challengeStr := gslice rsp 25 41\<rparr>)"
proof -
  let ?m = "parsed_client (l_chanNum (w_lan w)) addr pkt 0 0 0 APP_NETFN 0 (c_rqSeq ctx) GET_SESSION_CHALLENGE_CMD"
  let ?sid = "mk_temp_sid (l_nextChallSeq (w_lan w)) 2"
  let ?d = "[0] @ putUint32 ?sid @ [0, 1, 2, 3, 4, 5, 6, 7, 8, 9, 0xa, 0xb, 0xc, 0xd, 0xe, 0xf]"
  let ?w = "w\<lparr>w_lan := (w_lan w)\<lparr>l_nextChallSeq := l_nextChallSeq (w_lan w) + 1\<rparr>\<rparr>"
  note p = pkt [unfolded gscBuildMsg_def fst_conv] and user = client_user [OF pkt]
  have run: "ipmiHandleMsg env (received addr pkt) w = getSessionChallenge env ?m w"
    by (rule serve_app [OF _ app_entries(2) p refl]) simp
  have "getSessionChallenge env ?m w = returnRspData ?m None ?d 21 ?w"
    using user find_user2 [OF inv, of 0] lan_invD(3) [OF inv] room [folded not_le]
    by (simp add: getSessionChallenge_def MAX_SESSIONS_def)
  moreover have "lan_inv (w_lan ?w)" using inv by simp
  then have wf: "table_wf (w_lan ?w)" by (rule lan_invD)
  obtain rsp where rsp: "returnRspData ?m None ?d 21 ?w = Inr (send_to addr (rsp_packet ?m dummy_session rsp) ?w)"
    "rsp_payload rsp = ?d" "p_cmd rsp = GET_SESSION_CHALLENGE_CMD" "p_dataLen rsp = 21"
    by (rule reply_sessionless [OF wf, of ?m ?d 21]) simp_all
  have "getUint32 (rsp_packet ?m dummy_session rsp) (20 + 1) = ?sid"
    using reply_uint32 [OF dummy_authtype, of 1 rsp ?m] rsp(2,4) getUint32_put [of "[0]" ?sid] by simp
  ultimately show ?thesis
    using run rsp reply_good [OF dummy_authtype, of rsp ?m] reply_reads(5) [OF dummy_authtype refl, of ?m rsp]
    by (intro that [of "rsp_packet ?m dummy_session rsp"]) (simp_all add: gscParseRsp_def)
qed

lemma client_uint32:
  assumes "unat cmdLen < 235" "j + 4 \<le> unat cmdLen"
  shows "getUint32 (clientBuildMsg cmdData cmdLen reqLen sseq sid rsLun netFn rqLun rqSeq cmd) (20 + j) = getUint32 cmdData j"
proof -
  let ?d = "clientBuildMsg cmdData cmdLen reqLen sseq sid rsLun netFn rqLun rqSeq cmd"
  have "arr ?d (20 + k) = arr cmdData k" if "k < j + 4" for k
    using that assms by (intro client_data) simp_all
  note this [of j] this [of "j + 1"] this [of "j + 2"] this [of "j + 3"]
  then show ?thesis by (simp add: getUint32_def add.assoc)
qed

lemma getUint32_at: "length xs = n \<Longrightarrow> getUint32 (xs @ putUint32 x @ ys) n = x"
  using getUint32_put by blast

lemma activate_rsp_reads:
  "getUint32 (activate_rsp s) 2 = s_sid s" "getUint32 (activate_rsp s) 6 = s_recvSeq s"
  "arr (activate_rsp s) 10 = s_maxPriv s" "arr (activate_rsp s) 0 = 0"
proof -
  show "getUint32 (activate_rsp s) 2 = s_sid s"
    unfolding activate_rsp_def by (rule getUint32_at) simp
  have a: "activate_rsp s = ([0, s_authtype s] @ putUint32 (s_sid s)) @ putUint32 (s_recvSeq s) @ [s_maxPriv s]"
    by (simp add: activate_rsp_def)
  show "getUint32 (activate_rsp s) 6 = s_recvSeq s"
    unfolding a by (rule getUint32_at) simp
  have "arr (([0, s_authtype s] @ putUint32 (s_sid s) @ putUint32 (s_recvSeq s)) @ [s_maxPriv s]) (10 + 0) = arr [s_maxPriv s] 0"
    by (rule arr_parts) simp
  then show "arr (activate_rsp s) 10 = s_maxPriv s" by (simp add: activate_rsp_def)
qed (simp add: activate_rsp_def)

lemma activate_served:
  fixes env q
  assumes inv: "lan_inv (w_lan w)" and room: "l_activeSessions (w_lan w) < 16"
    and temp: "c_tempSessionId ctx = mk_temp_sid q 2" and i: "findFreeSession (w_lan w) = Some i"
    and pkt: "pkt = fst (asBuildMsg 0x1D ctx)"
  defines "s \<equiv> opened env 0 INITIAL_OUTBOUND_SEQ 3 user2 i (w_lan w)"
  obtains rsp where "ipmiHandleMsg env (received addr pkt) w =
      Inr (send_to addr rsp (w\<lparr>w_lan := open_session env 0 INITIAL_OUTBOUND_SEQ 3 user2 i (w_lan w)\<rparr>))"
    "length rsp \<le> 1000"
    "\<And>c. asParseRsp rsp c = (True, c\<lparr>c_sessionId := s_sid s, c_sessionSeq := s_recvSeq s, c_maxPrivLevel := 3\<rparr>)"
proof -
  let ?m = "parsed_client (l_chanNum (w_lan w)) addr pkt 0 (c_tempSessionId ctx) 0 APP_NETFN 0 (c_rqSeq ctx) ACTIVATE_SESSION_CMD"
  let ?chall = "[0, 3] @ gslice (c_challengeStr ctx) 0 16"
  note p = pkt [unfolded asBuildMsg_def fst_conv]
  have run: "ipmiHandleMsg env (received addr pkt) w = activateSession env ?m w"
    by (rule serve_app [OF _ app_entries(3) p refl]) simp
  have d: "arr pkt 20 = 0" "arr pkt 21 = 3" "length pkt = 43"
    unfolding p
    by (subst client_data [where i = 0, simplified] client_data [where i = 1, simplified], simp, simp, simp)+
      (simp add: clientBuildMsg_eq)
  have "getUint32 pkt (20 + 18) = INITIAL_OUTBOUND_SEQ"
    unfolding p by (subst client_uint32) (use getUint32_put [of ?chall INITIAL_OUTBOUND_SEQ "[]"] in simp_all)
  then have seq: "getUint32 pkt 38 = INITIAL_OUTBOUND_SEQ" by simp
  have user: "drop_bit 1 (c_tempSessionId ctx) AND USER_MASK = 2" "c_tempSessionId ctx AND 1 = 1"
    unfolding temp by (simp_all only: temp_sid_odd) (use temp_sid_user [of 2 q] in simp)
  have granted: "activation_granted ?m (w_lan w)"
    using d seq user room lan_invD(3) [OF inv]
    by (simp add: activation_granted_def INITIAL_OUTBOUND_SEQ_def Let_def)
  have opens: "opened_by env ?m i (w_lan w) = open_session env 0 INITIAL_OUTBOUND_SEQ 3 user2 i (w_lan w)"
    using d seq user lan_invD(3) [OF inv] by (simp add: opened_by_def)
  have "i < length (l_sessions (w_lan w))"
    using findFreeSession_SomeD(1) [OF i] table_wfD(1) [OF lan_invD(1) [OF inv]] by (simp add: valid_slot_def protodefs)
  then have slot: "l_sessions (opened_by env ?m i (w_lan w)) ! i = s"
    by (simp add: opens open_session_eq s_def)
  obtain rsp where rsp: "activateSession env ?m w = Inr (send_to addr (rsp_packet ?m (temp_session ?m) rsp)
      (w\<lparr>w_lan := opened_by env ?m i (w_lan w)\<rparr>))" "rsp_payload rsp = activate_rsp s"
    "p_cmd rsp = ACTIVATE_SESSION_CMD" "p_dataLen rsp = 11"
    using activateSession_granted [OF granted i, of env] unfolding slot by auto
  have a: "s_authtype (temp_session ?m) = IPMI_AUTHTYPE_NONE" by (simp add: temp_session_def protodefs)
  let ?d = "rsp_packet ?m (temp_session ?m) rsp"
  have "getUint32 ?d (20 + 2) = s_sid s" "getUint32 ?d (20 + 6) = s_recvSeq s" "arr ?d (20 + 10) = 3"
    using reply_uint32 [OF a, of 2 rsp ?m] reply_uint32 [OF a, of 6 rsp ?m] reply_reads(4) [OF a refl, of 10 rsp ?m] rsp(2,4)
    by (simp_all add: activate_rsp_reads s_def opened_def)
  then show ?thesis
    using run rsp(1) [unfolded opens] rsp(2-4) reply_good [OF a, of rsp ?m] reply_reads(5) [OF a refl, of ?m rsp]
    by (intro that [of ?d]) (simp_all add: asParseRsp_def activate_rsp_reads)
qed

lemma privilege_served:
  assumes inv: "lan_inv (w_lan w)" and i: "sidToSession (c_sessionId ctx) (w_lan w) = Some i"
    and auth: "s_authtype (l_sessions (w_lan w) ! i) = IPMI_AUTHTYPE_NONE"
    and priv: "c_maxPrivLevel ctx = 3" "s_maxPriv (l_sessions (w_lan w) ! i) = 3"
    and pkt: "pkt = fst (sspBuildMsg 8 ctx)"
  obtains rsp x where "ipmiHandleMsg env (received addr pkt) w =
      Inr (send_to addr rsp (w\<lparr>w_lan := put_session i ((l_sessions (w_lan w) ! i)\<lparr>s_priv := 3, s_xmitSeq := x\<rparr>) (w_lan w)\<rparr>))"
    "length rsp \<le> 1000" "\<And>c. sspParseRsp rsp c = (True, c\<lparr>c_privLevel := 3\<rparr>)"
proof -
  let ?m = "parsed_client (l_chanNum (w_lan w)) addr pkt (c_sessionSeq ctx) (c_sessionId ctx) 0 APP_NETFN 0 (c_rqSeq ctx) SET_SESSION_PRIVILEGE_CMD"
  let ?s = "(l_sessions (w_lan w) ! i)\<lparr>s_priv := 3\<rparr>"
  let ?w = "w\<lparr>w_lan := put_session i ?s (w_lan w)\<rparr>"
  note p = pkt [unfolded sspBuildMsg_def fst_conv]
  note wf = lan_invD(1) [OF inv]
  have run: "ipmiHandleMsg env (received addr pkt) w = setSessionPrivilege env ?m w"
    by (rule serve_app [OF _ app_entries(4) p refl]) simp
  have d: "arr pkt 20 = 3" "pkt \<noteq> []"
    unfolding p by (subst client_data [where i = 0, simplified]; simp add: priv) (simp add: clientBuildMsg_eq client_head_def)
  have slot: "valid_slot i" "s_active (l_sessions (w_lan w) ! i)" using i by (simp_all add: sidToSession_iff wf)
  then have len: "i < length (l_sessions (w_lan w))"
    using table_wfD(1) [OF wf] by (simp add: valid_slot_def protodefs)
  have plain: "\<not> s_rmcpplus (l_sessions (w_lan w) ! i)"
    using lan_invD(7) [OF inv slot] by (simp add: session_ok_def)
  have sid: "c_sessionId ctx \<noteq> 0" using i sid_zero_unlisted [OF wf] by auto
  have set: "setSessionPrivilege env ?m w = returnRspData ?m (Some (Slot i)) [0, 3] 2 ?w"
    using d i priv by (simp add: setSessionPrivilege_def IPMI_PRIVILEGE_CALLBACK_def)
  obtain rsp where rsp: "returnRspData ?m (Some (Slot i)) [0, 3] 2 ?w = Inr (send_to addr (rsp_packet ?m ?s rsp)
      (?w\<lparr>w_lan := put_session i (?s\<lparr>s_xmitSeq := next_xmitSeq (s_xmitSeq ?s)\<rparr>) (w_lan ?w)\<rparr>))"
    "rsp_payload rsp = [0, 3]" "p_cmd rsp = SET_SESSION_PRIVILEGE_CMD" "p_dataLen rsp = 2"
    by (rule reply_in_session [of ?m ?w i "[0, 3]" 2]) (use sid plain len in simp_all)
  have a: "s_authtype ?s = IPMI_AUTHTYPE_NONE" using auth by simp
  have "put_session i x (put_session i y l) = put_session i x l" for x y l by (simp add: put_session_def)
  then show ?thesis
    using run set rsp reply_good [OF a, of rsp ?m] reply_reads(5) [OF a refl, of ?m rsp]
      reply_reads(4) [OF a refl, of 1 rsp ?m]
    by (intro that [of "rsp_packet ?m ?s rsp" "next_xmitSeq (s_xmitSeq ?s)"]) (simp_all add: sspParseRsp_def)
qed

section \<open>The stages of the set-up\<close>

text \<open>A state of the client whose request the server answers to its liking.\<close>

lemma establish_step:
  assumes run: "ipmiHandleMsg env (received addr (fst (cs_buildmsg st (cs_reqLen st) ctx))) w = Inr (send_to addr rsp v)"
    and sent: "w_sent v = w_sent w" and size: "length rsp \<le> 1000"
    and parse: "cs_parsersp st rsp (snd (cs_buildmsg st (cs_reqLen st) ctx)) = (True, ctx')"
  shows "establish (server_net env addr) (st # sts) ctx (Some w) =
    establish (server_net env addr) sts ctx' (Some (send_to addr rsp v))"
  using exchange_answered [OF run _ size, where p = "cs_parsersp st"] parse sent
  by (cases "cs_buildmsg st (cs_reqLen st) ctx") simp

lemma stage_challenge:
  assumes inv: "lan_inv (w_lan w)" and room: "l_activeSessions (w_lan w) < 16"
  obtains c2 w2 q n where "establish (server_net env addr) stateTable ctx (Some w) =
      establish (server_net env addr) (drop 2 stateTable) c2 (Some w2)"
    "c_tempSessionId c2 = mk_temp_sid q 2" "w_lan w2 = (w_lan w)\<lparr>l_nextChallSeq := n\<rparr>" "w_mc w2 = w_mc w"
    "w_card w2 = w_card w" "length (w_sent w2) = length (w_sent w) + 2"
proof -
  let ?c1 = "snd (gcacBuildMsg 9 ctx)"
  obtain r1 where 1: "ipmiHandleMsg env (received addr (fst (gcacBuildMsg 9 ctx))) w = Inr (send_to addr r1 w)"
    "length r1 \<le> 1000" "\<And>c. gcacParseRsp r1 c = (True, c)"
    using caps_served [OF inv refl] by blast
  let ?w1 = "send_to addr r1 w"
  have s1: "lan_inv (w_lan ?w1)" "l_activeSessions (w_lan ?w1) < 16" using inv room by simp_all
  obtain r2 where 2: "ipmiHandleMsg env (received addr (fst (gscBuildMsg 0x18 ?c1))) ?w1 =
      Inr (send_to addr r2 (?w1\<lparr>w_lan := (w_lan ?w1)\<lparr>l_nextChallSeq := l_nextChallSeq (w_lan ?w1) + 1\<rparr>\<rparr>))"
    "length r2 \<le> 1000"
    "\<And>c. gscParseRsp r2 c = (True, c\<lparr>c_tempSessionId := mk_temp_sid (l_nextChallSeq (w_lan ?w1)) 2, c_challengeStr := gslice r2 25 41\<rparr>)"
    using challenge_served [OF s1 refl] by blast
  let ?w2 = "send_to addr r2 (?w1\<lparr>w_lan := (w_lan ?w1)\<lparr>l_nextChallSeq := l_nextChallSeq (w_lan ?w1) + 1\<rparr>\<rparr>)"
  let ?c2 = "(snd (gscBuildMsg 0x18 ?c1))\<lparr>c_tempSessionId := mk_temp_sid (l_nextChallSeq (w_lan ?w1)) 2, c_challengeStr := gslice r2 25 41\<rparr>"
  have "establish (server_net env addr) stateTable ctx (Some w) = establish (server_net env addr) (drop 1 stateTable) ?c1 (Some ?w1)"
    unfolding stateTable_def by (subst establish_step [where v = w and rsp = r1 and ctx' = ?c1]) (simp_all add: 1)
  also have "\<dots> = establish (server_net env addr) (drop 2 stateTable) ?c2 (Some ?w2)"
    unfolding stateTable_def using 2 by (simp add: establish_step del: establish.simps)
  finally show ?thesis by (rule that) simp_all
qed

lemma open_session_fields [simp]:
  "l_activeSessions (open_session env a x p u i l) = l_activeSessions l + 1"
  by (simp add: open_session_eq)

lemma stage_activate:
  assumes inv: "lan_inv (w_lan w)" and room: "l_activeSessions (w_lan w) < 16"
    and temp: "c_tempSessionId ctx = mk_temp_sid q 2"
  obtains c3 w3 i where "establish (server_net env addr) (drop 2 stateTable) ctx (Some w) =
      establish (server_net env addr) (drop 3 stateTable) c3 (Some w3)"
    "lan_inv (w_lan w3)" "sidToSession (c_sessionId c3) (w_lan w) = None" "sidToSession (c_sessionId c3) (w_lan w3) = Some i"
    "\<And>sid. sid \<noteq> c_sessionId c3 \<Longrightarrow> sidToSession sid (w_lan w3) = sidToSession sid (w_lan w)"
    "s_authtype (l_sessions (w_lan w3) ! i) = IPMI_AUTHTYPE_NONE" "s_maxPriv (l_sessions (w_lan w3) ! i) = 3"
    "s_userid (l_sessions (w_lan w3) ! i) = 2" "c_maxPrivLevel c3 = 3"
    "l_activeSessions (w_lan w3) = l_activeSessions (w_lan w) + 1" "w_mc w3 = w_mc w" "w_card w3 = w_card w"
    "length (w_sent w3) = length (w_sent w) + 1"
proof -
  obtain i where i: "findFreeSession (w_lan w) = Some i"
    using free_slot_exists [OF inv] room by (auto simp: word_less_nat_alt)
  let ?s = "opened env 0 INITIAL_OUTBOUND_SEQ 3 user2 i (w_lan w)"
  let ?v = "w\<lparr>w_lan := open_session env 0 INITIAL_OUTBOUND_SEQ 3 user2 i (w_lan w)\<rparr>"
  obtain rsp where run: "ipmiHandleMsg env (received addr (fst (asBuildMsg 0x1D ctx))) w = Inr (send_to addr rsp ?v)"
    "length rsp \<le> 1000"
    "\<And>c. asParseRsp rsp c = (True, c\<lparr>c_sessionId := s_sid ?s, c_sessionSeq := s_recvSeq ?s, c_maxPrivLevel := 3\<rparr>)"
    using activate_served [OF inv room temp i refl] by blast
  let ?c3 = "(snd (asBuildMsg 0x1D ctx))\<lparr>c_sessionId := s_sid ?s, c_sessionSeq := s_recvSeq ?s, c_maxPrivLevel := 3\<rparr>"
  have "i < length (l_sessions (w_lan w))"
    using findFreeSession_SomeD(1) [OF i] table_wfD(1) [OF lan_invD(1) [OF inv]] by (simp add: valid_slot_def protodefs)
  then have slot: "l_sessions (w_lan (send_to addr rsp ?v)) ! i = ?s" by (simp add: open_session_eq)
  have "lan_inv (open_session env 0 INITIAL_OUTBOUND_SEQ 3 (l_users (w_lan w) ! 2) i (w_lan w))"
    using inv lan_invD(3) [OF inv] i room by (intro open_session_lan_inv) (simp_all add: word_less_nat_alt)
  then have inv': "lan_inv (w_lan (send_to addr rsp ?v))" using lan_invD(3) [OF inv] by simp
  have "establish (server_net env addr) (drop 2 stateTable) ctx (Some w) =
      establish (server_net env addr) (drop 3 stateTable) ?c3 (Some (send_to addr rsp ?v))"
    unfolding stateTable_def using run by (simp add: establish_step del: establish.simps)
  then show ?thesis
    using inv' slot open_session_lookup [OF inv i] opened_unlisted [OF inv i]
    by (intro that [of ?c3 "send_to addr rsp ?v" i]) (simp_all add: opened_def protodefs)
qed

lemma stage_privilege:
  assumes inv: "lan_inv (w_lan w)" and i: "sidToSession (c_sessionId ctx) (w_lan w) = Some i"
    and "s_authtype (l_sessions (w_lan w) ! i) = IPMI_AUTHTYPE_NONE" "s_maxPriv (l_sessions (w_lan w) ! i) = 3"
    "c_maxPrivLevel ctx = 3"
  obtains c4 w4 where "establish (server_net env addr) (drop 3 stateTable) ctx (Some w) = Inr (c4, Some w4)"
    "c_sessionId c4 = c_sessionId ctx" "c_privLevel c4 = 3" "s_priv (l_sessions (w_lan w4) ! i) = 3"
    "s_userid (l_sessions (w_lan w4) ! i) = s_userid (l_sessions (w_lan w) ! i)"
    "\<And>sid. sidToSession sid (w_lan w4) = sidToSession sid (w_lan w)"
    "l_activeSessions (w_lan w4) = l_activeSessions (w_lan w)" "w_mc w4 = w_mc w" "w_card w4 = w_card w"
    "length (w_sent w4) = length (w_sent w) + 1" "lan_inv (w_lan w4)"
    "s_authtype (l_sessions (w_lan w4) ! i) = IPMI_AUTHTYPE_NONE"
proof -
  note wf = lan_invD(1) [OF inv]
  let ?t = "l_sessions (w_lan w) ! i"
  obtain rsp x where run: "ipmiHandleMsg env (received addr (fst (sspBuildMsg 8 ctx))) w =
      Inr (send_to addr rsp (w\<lparr>w_lan := put_session i (?t\<lparr>s_priv := 3, s_xmitSeq := x\<rparr>) (w_lan w)\<rparr>))"
    "length rsp \<le> 1000" "\<And>c. sspParseRsp rsp c = (True, c\<lparr>c_privLevel := 3\<rparr>)"
    using privilege_served [OF inv i assms(3,5,4) refl] by metis
  let ?v = "w\<lparr>w_lan := put_session i (?t\<lparr>s_priv := 3, s_xmitSeq := x\<rparr>) (w_lan w)\<rparr>"
  have slot: "valid_slot i" "s_active ?t" "s_sid ?t = c_sessionId ctx" using i by (simp_all add: sidToSession_iff wf)
  then have len: "i < length (l_sessions (w_lan w))" using table_wfD(1) [OF wf] by (simp add: valid_slot_def protodefs)
  then have at: "l_sessions (w_lan ?v) ! i = ?t\<lparr>s_priv := 3, s_xmitSeq := x\<rparr>" by simp
  have look: "sidToSession sid (w_lan ?v) = sidToSession sid (w_lan w)" for sid
    using len by (cases "unat (drop_bit 1 sid AND SESSION_MASK) = i") (auto simp: sidToSession_def Let_def)
  have est: "establish (server_net env addr) (drop 3 stateTable) ctx (Some w) =
      Inr ((snd (sspBuildMsg 8 ctx))\<lparr>c_privLevel := 3\<rparr>, Some (send_to addr rsp ?v))"
    unfolding stateTable_def using run by (simp add: establish_step del: establish.simps(2))
  have "session_ok (w_lan w) (?t\<lparr>s_priv := 3, s_xmitSeq := x\<rparr>)"
    using lan_invD(7) [OF inv slot(1,2)] assms(4) by (simp add: session_ok_def protodefs)
  then have "lan_inv (w_lan ?v)" using lan_inv_update [OF inv slot(1,2)] slot(2) by simp
  then show ?thesis
    by (intro that [OF est]) (use look at assms(3) in \<open>simp_all add: sspBuildMsg_def\<close>)
qed

section \<open>A server without a free slot\<close>

lemma refusal_sessionless:
  assumes "table_wf (w_lan w)" "m_sid m = 0"
  obtains rsp where "returnErr m None e w = Inr (send_to (m_remoteAddr m) (rsp_packet m dummy_session rsp) w)"
    "p_dataLen rsp = 1"
proof
  let ?rsp = "\<lparr>p_netfn = rm_netfn (m_message m) OR 1, p_cmd = rm_cmd (m_message m), p_dataLen = 1, p_data = [e]\<rparr>"
  have "rsp_session m None (w_lan w) = Some (Local dummy_session)"
    using assms by (simp add: rsp_session_def sid_zero_unlisted)
  then show "returnErr m None e w = Inr (send_to (m_remoteAddr m) (rsp_packet m dummy_session ?rsp) w)"
    by (simp add: returnErr_def returnRsp_small Let_def)
qed simp

lemma challenge_refused:
  assumes inv: "lan_inv (w_lan w)" and full: "l_activeSessions (w_lan w) = 16" and pkt: "pkt = fst (gscBuildMsg 0x18 ctx)"
  obtains rsp where "ipmiReqRsp (server_net env addr) pkt gscParseRsp c (Some w) = Inr (False, c, Some (send_to addr rsp w))"
proof -
  let ?m = "parsed_client (l_chanNum (w_lan w)) addr pkt 0 0 0 APP_NETFN 0 (c_rqSeq ctx) GET_SESSION_CHALLENGE_CMD"
  note p = pkt [unfolded gscBuildMsg_def fst_conv] and user = client_user [OF pkt]
  have run: "ipmiHandleMsg env (received addr pkt) w = getSessionChallenge env ?m w"
    by (rule serve_app [OF _ app_entries(2) p refl]) simp
  have "getSessionChallenge env ?m w = returnErr ?m None IPMI_OUT_OF_SPACE_CC w"
    using user find_user2 [OF inv, of 0] lan_invD(3) [OF inv] full
    by (simp add: getSessionChallenge_def MAX_SESSIONS_def)
  moreover obtain rsp where rsp: "returnErr ?m None IPMI_OUT_OF_SPACE_CC w = Inr (send_to addr (rsp_packet ?m dummy_session rsp) w)"
    "p_dataLen rsp = 1"
    by (rule refusal_sessionless [OF lan_invD(1) [OF inv], of ?m]) simp_all
  ultimately have "server_net env addr w pkt = (Reply (rsp_packet ?m dummy_session rsp), send_to addr (rsp_packet ?m dummy_session rsp) w)"
    using run by (simp add: server_net_def)
  moreover have "arr (rsp_packet ?m dummy_session rsp) 13 = 8" "length (rsp_packet ?m dummy_session rsp) = 22"
    using reply_reads(2,5) [OF dummy_authtype refl, of ?m rsp] rsp(2) by simp_all
  ultimately show ?thesis
    by (intro that [of "rsp_packet ?m dummy_session rsp"])
      (simp add: ipmiReqRsp_def gscParseRsp_def rsp_good_def MAX_MSG_RETURN_DATA_def)
qed

lemma tries_refused:
  assumes "lan_inv (w_lan w)" "l_activeSessions (w_lan w) = 16" "pkt = fst (gscBuildMsg 0x18 ctx)"
  shows "\<exists>w'. try_exchange k (server_net env addr) pkt gscParseRsp c (Some w) = Inr (False, c, Some w')"
  using assms(1,2)
proof (induction k arbitrary: w)
  case (Suc k)
  obtain rsp where "ipmiReqRsp (server_net env addr) pkt gscParseRsp c (Some w) = Inr (False, c, Some (send_to addr rsp w))"
    using challenge_refused [OF Suc.prems assms(3), of env addr c] by blast
  with Suc.IH [of "send_to addr rsp w"] Suc.prems show ?case by simp
qed simp

lemma handshake:
  assumes inv: "lan_inv (w_lan w)" and room: "l_activeSessions (w_lan w) < 16"
  obtains ctx' w' i where "ipmiEstablishSession (server_net env addr) ctx (Some w) = Inr (ctx', Some w')"
    "sidToSession (c_sessionId ctx') (w_lan w) = None" "sidToSession (c_sessionId ctx') (w_lan w') = Some i"
    "s_userid (l_sessions (w_lan w') ! i) = 2" "s_priv (l_sessions (w_lan w') ! i) = IPMI_PRIVILEGE_OPERATOR"
    "c_privLevel ctx' = IPMI_PRIVILEGE_OPERATOR"
    "\<And>sid. sid \<noteq> c_sessionId ctx' \<Longrightarrow> sidToSession sid (w_lan w') = sidToSession sid (w_lan w)"
    "l_activeSessions (w_lan w') = l_activeSessions (w_lan w) + 1" "w_mc w' = w_mc w" "w_card w' = w_card w"
    "length (w_sent w') = length (w_sent w) + 4" "lan_inv (w_lan w')"
    "s_authtype (l_sessions (w_lan w') ! i) = IPMI_AUTHTYPE_NONE"
proof -
  obtain c2 w2 q n where 2: "establish (server_net env addr) stateTable ctx (Some w) =
      establish (server_net env addr) (drop 2 stateTable) c2 (Some w2)" "c_tempSessionId c2 = mk_temp_sid q 2"
    "w_lan w2 = (w_lan w)\<lparr>l_nextChallSeq := n\<rparr>" "w_mc w2 = w_mc w" "w_card w2 = w_card w" "length (w_sent w2) = length (w_sent w) + 2"
    using stage_challenge [OF inv room, of env addr ctx] by blast
  have s2: "lan_inv (w_lan w2)" "l_activeSessions (w_lan w2) < 16" using inv room by (simp_all add: 2(3))
  have look2: "sidToSession sid (w_lan w2) = sidToSession sid (w_lan w)" for sid
    by (simp add: 2(3) sidToSession_def Let_def)
  obtain c3 w3 i where 3: "establish (server_net env addr) (drop 2 stateTable) c2 (Some w2) =
      establish (server_net env addr) (drop 3 stateTable) c3 (Some w3)"
    "lan_inv (w_lan w3)" "sidToSession (c_sessionId c3) (w_lan w2) = None" "sidToSession (c_sessionId c3) (w_lan w3) = Some i"
    "\<And>sid. sid \<noteq> c_sessionId c3 \<Longrightarrow> sidToSession sid (w_lan w3) = sidToSession sid (w_lan w2)"
    "s_authtype (l_sessions (w_lan w3) ! i) = IPMI_AUTHTYPE_NONE" "s_maxPriv (l_sessions (w_lan w3) ! i) = 3"
    "s_userid (l_sessions (w_lan w3) ! i) = 2" "c_maxPrivLevel c3 = 3"
    "l_activeSessions (w_lan w3) = l_activeSessions (w_lan w2) + 1" "w_mc w3 = w_mc w2" "w_card w3 = w_card w2"
    "length (w_sent w3) = length (w_sent w2) + 1"
    using stage_activate [OF s2 2(2), of env addr] by blast
  obtain c4 w4 where 4: "establish (server_net env addr) (drop 3 stateTable) c3 (Some w3) = Inr (c4, Some w4)"
    "c_sessionId c4 = c_sessionId c3" "c_privLevel c4 = 3" "s_priv (l_sessions (w_lan w4) ! i) = 3"
    "s_userid (l_sessions (w_lan w4) ! i) = s_userid (l_sessions (w_lan w3) ! i)"
    "\<And>sid. sidToSession sid (w_lan w4) = sidToSession sid (w_lan w3)"
    "l_activeSessions (w_lan w4) = l_activeSessions (w_lan w3)" "w_mc w4 = w_mc w3" "w_card w4 = w_card w3"
    "length (w_sent w4) = length (w_sent w3) + 1" "lan_inv (w_lan w4)" "s_authtype (l_sessions (w_lan w4) ! i) = IPMI_AUTHTYPE_NONE"
    using stage_privilege [OF 3(2,4,6,7,9), of env addr] by blast
  have "ipmiEstablishSession (server_net env addr) ctx (Some w) = Inr (c4, Some w4)"
    by (simp only: ipmiEstablishSession_def 2(1) 3(1) 4(1))
  then show ?thesis
    using 2(3-6) 3(3-5,8,10-13) 4(2-12) look2
    by (intro that [of c4 w4 i]) (simp_all add: IPMI_PRIVILEGE_OPERATOR_def)
qed

section \<open>Properties\<close>

text \<open>C5: The client and the server agree on the session set-up. When a line card runs its session set-up
  against a management module that runs this daemon, with a sound session table and a free slot, then
  it succeeds: every request is answered at the first try, so the server sends four datagrams. The
  client ends with a session id that the server did not know before and now finds in a session of user
  2 at OPERATOR level, which is also the level the client remembers; the other session ids find what
  they found before, exactly one more session is open, and the management controller is untouched.\<close>

theorem client_server_handshake:
  assumes inv: "lan_inv (w_lan w)" and room: "l_activeSessions (w_lan w) < 16"
  shows "\<exists>ctx' w' i. ipmiEstablishSession (server_net env addr) ctx (Some w) = Inr (ctx', Some w') \<and>
    sidToSession (c_sessionId ctx') (w_lan w) = None \<and> sidToSession (c_sessionId ctx') (w_lan w') = Some i \<and>
    s_userid (l_sessions (w_lan w') ! i) = 2 \<and> s_priv (l_sessions (w_lan w') ! i) = IPMI_PRIVILEGE_OPERATOR \<and>
    c_privLevel ctx' = IPMI_PRIVILEGE_OPERATOR \<and>
    (\<forall>sid. sid \<noteq> c_sessionId ctx' \<longrightarrow> sidToSession sid (w_lan w') = sidToSession sid (w_lan w)) \<and>
    l_activeSessions (w_lan w') = l_activeSessions (w_lan w) + 1 \<and> w_mc w' = w_mc w \<and>
    length (w_sent w') = length (w_sent w) + 4"
  by (rule handshake [OF assms, of env addr ctx]) blast

theorem client_server_handshake_witness:
  "\<exists>ctx' w'. ipmiEstablishSession (server_net demo_env 7) init_clientCtx (Some demo_server) = Inr (ctx', Some w') \<and>
     l_activeSessions (w_lan w') = 1 \<and> length (w_sent w') = 4"
proof -
  have "l_activeSessions (w_lan demo_server) = 0" "w_sent demo_server = []"
    by (simp_all add: demo_server_def demo_world_def set_sel_def)
  with client_server_handshake [OF demo_server_inv(1), of demo_env 7 init_clientCtx] show ?thesis by auto
qed

text \<open>C22: A full server ends the line card. When all 16 sessions of the management module are open, the
  set-up of a line card gets no challenge in any of its tries, and the line card's daemon panics.\<close>

theorem full_server_refuses:
  assumes inv: "lan_inv (w_lan w)" and full: "l_activeSessions (w_lan w) = 16"
  shows "ipmiEstablishSession (server_net env addr) ctx (Some w) =
    Inl (PanicCall ''ipmiClient can't progress past state'')"
proof -
  let ?c1 = "snd (gcacBuildMsg 9 ctx)"
  obtain r1 where 1: "ipmiHandleMsg env (received addr (fst (gcacBuildMsg 9 ctx))) w = Inr (send_to addr r1 w)"
    "length r1 \<le> 1000" "\<And>c. gcacParseRsp r1 c = (True, c)"
    using caps_served [OF inv refl] by blast
  have "ipmiEstablishSession (server_net env addr) ctx (Some w) =
      establish (server_net env addr) (drop 1 stateTable) ?c1 (Some (send_to addr r1 w))"
    unfolding ipmiEstablishSession_def stateTable_def
    by (subst establish_step [where v = w and rsp = r1 and ctx' = ?c1]) (simp_all add: 1)
  moreover obtain w' where "try_exchange MAX_RETRIES (server_net env addr) (fst (gscBuildMsg 0x18 ?c1)) gscParseRsp
      (snd (gscBuildMsg 0x18 ?c1)) (Some (send_to addr r1 w)) = Inr (False, snd (gscBuildMsg 0x18 ?c1), Some w')"
    using tries_refused [of "send_to addr r1 w"] inv full by fastforce
  ultimately show ?thesis
    by (cases "gscBuildMsg 0x18 ?c1") (simp add: stateTable_def)
qed

text \<open>A session table filled by 16 activations of user 2.\<close>

definition fill_slot :: "lanservT \<Rightarrow> lanservT" where
  "fill_slot l = (case findFreeSession l of None \<Rightarrow> l | Some i \<Rightarrow> open_session demo_env 0 1 3 (l_users l ! 2) i l)"

lemma fill_slots:
  "n \<le> 16 \<Longrightarrow> lan_inv ((fill_slot ^^ n) init_lanserv) \<and> unat (l_activeSessions ((fill_slot ^^ n) init_lanserv)) = n"
proof (induction n)
  case 0
  show ?case by (simp add: lan_inv_init)
next
  case (Suc n)
  let ?l = "(fill_slot ^^ n) init_lanserv"
  have IH: "lan_inv ?l" "unat (l_activeSessions ?l) = n" and n: "n < 16" using Suc by simp_all
  then obtain i where i: "findFreeSession ?l = Some i" using free_slot_exists [OF IH(1)] by auto
  have "lan_inv (open_session demo_env 0 1 3 (l_users ?l ! 2) i ?l)"
    using IH n i lan_invD(3) [OF IH(1)] by (intro open_session_lan_inv) simp_all
  moreover have "fill_slot ?l = open_session demo_env 0 1 3 (l_users ?l ! 2) i ?l"
    using i by (simp only: fill_slot_def option.case)
  ultimately show ?case using IH(2) n by (simp add: unat_succ_small)
qed

definition full_server :: world where
  "full_server = demo_world\<lparr>w_lan := (fill_slot ^^ 16) init_lanserv\<rparr>"

theorem full_server_refuses_witness:
  "lan_inv (w_lan full_server) \<and> l_activeSessions (w_lan full_server) = 16 \<and>
   ipmiEstablishSession (server_net demo_env 7) init_clientCtx (Some full_server) =
     Inl (PanicCall ''ipmiClient can't progress past state'')"
proof -
  have h: "lan_inv (w_lan full_server)" "l_activeSessions (w_lan full_server) = 16"
    using fill_slots [of 16] by (simp_all add: full_server_def word_unat_eq_iff)
  with full_server_refuses [OF h] show ?thesis by blast
qed

text \<open>C18: Every answer of the server is well formed. Whatever datagram \<open>ipmiHandleMsg\<close> handles, what it sends back is a
  presence pong of 28 bytes, or an RMCP frame of class 7: a header of 14 bytes (30 with
  authentication) whose last byte is the length of what follows modulo 256, and two blocks that each
  sum to zero with their checksum.\<close>

theorem responses_valid:
  assumes "ipmiHandleMsg env (received addr pkt) w = Inr w'" "w_sent w' = w_sent w @ [(to, rsp)]"
  shows "arr rsp 3 = 6 \<and> length rsp = 28 \<or>
    (\<exists>hdr b1 b2. rsp = hdr @ b1 @ b2 \<and> arr rsp 3 = 7 \<and> length hdr \<in> {14, 30} \<and> length b1 = 3 \<and>
       sum_list b1 = 0 \<and> sum_list b2 = 0 \<and> last hdr = of_nat (length b1 + length b2))"
proof -
  have "pkt_ok rsp" using handle_served [OF assms(1)] assms(2) by (auto simp: served_def replies_def)
  then show ?thesis unfolding pkt_ok_def wire_valid_def by blast
qed

theorem responses_valid_witness:
  "\<exists>w' rsp. ipmiHandleMsg demo_env (received 7 (fst (gcacBuildMsg 9 init_clientCtx))) demo_server = Inr w' \<and>
     w_sent w' = w_sent demo_server @ [(7, rsp)] \<and> (arr rsp 3 = 6 \<or> arr rsp 3 = 7)"
proof -
  obtain rsp where
    run: "ipmiHandleMsg demo_env (received 7 (fst (gcacBuildMsg 9 init_clientCtx))) demo_server = Inr (send_to 7 rsp demo_server)"
    by (rule caps_served [OF demo_server_inv(1) refl])
  have "w_sent (send_to 7 rsp demo_server) = w_sent demo_server @ [(7, rsp)]" by simp
  from responses_valid [OF run this] run this show ?thesis by blast
qed

end
