(* ===== verification/Bmc.thy ===== *)
theory Bmc
  imports Sensor_Cmds Sel_Log
begin

text \<open>
  The start of the management controller (\<open>bmc.go\<close>): adding a sensor, adding a full sensor record
  (which a line card also sends to the management module), and \<open>bmcInit\<close> with its four simulated
  sensors and three events. A slice's capacity is taken to be its length; \<open>bmcInit\<close> never asks
  for more.
\<close>

definition sensorAdd :: "u8 \<Rightarrow> u8 \<Rightarrow> u8 \<Rightarrow> u8 \<Rightarrow> u8 \<Rightarrow> mcT \<Rightarrow> mcT go" where
  "sensorAdd bmc lun num stype code mc =
     (if 4 \<le> unat lun \<or> 255 \<le> unat num then Inl IndexOutOfRange
      else Inr (set_sensor (unat lun) (unat num)
        (zero_sensor\<lparr>n_mc := bmc, n_lun := lun, n_num := num, n_sensorType := stype,
           n_eventReadingCode := code, n_enabled := True, n_eventStatus := 0,
           n_eventsEnabled := True, n_scanningEnabled := True\<rparr>) mc))"

text \<open>The second half of \<open>mainSdrAdd\<close>: linking the record and sending it to the management module.\<close>

definition put_main_sdr :: "'n net \<Rightarrow> u32 \<Rightarrow> sdrT \<Rightarrow> world \<times> 'n option \<Rightarrow> (world \<times> 'n option) go" where
  "put_main_sdr net now newSdr = (\<lambda>(w, conn).
     let w = w\<lparr>w_mc := addSdrEntry now newSdr (w_mc w)\<rparr> in
     if w_card w > 0 then
       (case addSdrBuildMsg newSdr (w_ctx w) of
          (msgData, ctx) \<Rightarrow>
            go_bind (try_exchange MAX_RETRIES net msgData addSdrParseRsp ctx conn) (\<lambda>(done, ctx, conn).
              if done then Inr (w\<lparr>w_ctx := ctx\<rparr>, conn)
              else Inl (PanicCall ''ipmiClient add-sdr to MM'')))
     else Inr (w, conn))"

definition mainSdrAdd ::
  "'n net \<Rightarrow> u32 \<Rightarrow> u8 \<Rightarrow> u16 \<Rightarrow> u8 \<Rightarrow> u8 \<Rightarrow> u8 \<Rightarrow> u8 \<Rightarrow> u8 \<Rightarrow> u8 \<Rightarrow> u8 \<Rightarrow> u8 \<Rightarrow> u8 \<Rightarrow> u8 \<Rightarrow> u8 \<Rightarrow> u8 \<Rightarrow>
   u16 \<Rightarrow> u16 \<Rightarrow> u16 \<Rightarrow> u8 \<Rightarrow> u8 \<Rightarrow> u8 \<Rightarrow> u8 \<Rightarrow> u8 \<Rightarrow> u8 \<Rightarrow> u8 \<Rightarrow> u8 \<Rightarrow> u8 \<Rightarrow> u8 \<Rightarrow> u8 \<Rightarrow> u8 \<Rightarrow> u8 \<Rightarrow> u8 \<Rightarrow> u8 \<Rightarrow>
   u8 \<Rightarrow> u8 \<Rightarrow> u8 \<Rightarrow> u8 \<Rightarrow> u8 \<Rightarrow> u8 \<Rightarrow> u8 \<Rightarrow> u8 \<Rightarrow> u8 \<Rightarrow> u8 \<Rightarrow> u8 \<Rightarrow> u8 \<Rightarrow> u8 \<Rightarrow> u8 list \<Rightarrow>
   world \<times> 'n option \<Rightarrow> (world \<times> 'n option) go" where
  "mainSdrAdd net now bmc recordId sdrVers recordType recordLength sensorOwnerId sensorOwnerLun
     sensorNum entityId entityInstance sensorInit sensorCaps sensorType eventCode assLthrMask
     deassHthrMask drStRdMask sensorUnits1 sensorUnits2 sensorUnits3 linear m mTol b bAcc accDir
     rexpBexp anlogFlags nomReading normMax normMin sensorMax sensorMin upperNcThr upperCrThr
     upperNcrThr lowerNrThr lowerCrThr lowerNcrThr pgThrHyst ngThrHyst res1 res2 oem idStrLghtCode
     idStr = (\<lambda>(w, conn).
     let r = mc_mainSdrs (w_mc w) in
     if r_nextFreeEntryId r \<ge> r_maxSdrCount r then Inr (w, conn)
     else
       let newId = r_nextFreeEntryId r;
           w = set_sdrs (r\<lparr>r_nextFreeEntryId := newId + 1\<rparr>) w;
           idStrLength = unat (idStrLghtCode AND 0x1F)
       in if idStrLength > length idStr then Inl SliceBoundsOutOfRange
          else put_main_sdr net now
            (zero_sdr\<lparr>d_recordId := newId, d_length := 48 + (idStrLghtCode AND 0x1F) + 5,
               d_enabled := True, d_eventsEnabled := True, d_scanningEnabled := True,
               d_eventStatus := 0, d_lun := sensorOwnerLun, d_sensNum := sensorNum,
               d_data := fill 64
                 (putUint16 newId @
                  [sdrVers, recordType, recordLength, sensorOwnerId, sensorOwnerLun, sensorNum,
                   entityId, entityInstance, sensorInit, sensorCaps, sensorType, eventCode]
                  @ putUint16 assLthrMask @ putUint16 deassHthrMask @ putUint16 drStRdMask @
                  [sensorUnits1, sensorUnits2, sensorUnits3, linear, m, mTol, b, bAcc, accDir,
                   rexpBexp, anlogFlags, nomReading, normMax, normMin, sensorMax, sensorMin,
                   upperNcThr, upperCrThr, upperNcrThr, lowerNrThr, lowerCrThr, lowerNcrThr,
                   pgThrHyst, ngThrHyst, res1, res2, oem, idStrLghtCode]
                  @ take idStrLength idStr)\<rparr>)
            (w, conn))"

text \<open>The bytes of the sensor names behind the card's digit.\<close>

definition name_temp :: "u8 list" where "name_temp = [0x44, 0x4A, 0x74, 0x65, 0x6D, 0x70]"
definition name_voltage :: "u8 list" where
  "name_voltage = [0x4D, 0x58, 0x76, 0x6F, 0x6C, 0x74, 0x61, 0x67, 0x65]"
definition name_current :: "u8 list" where
  "name_current = [0x4D, 0x58, 0x63, 0x75, 0x72, 0x72, 0x65, 0x6E, 0x74]"
definition name_fan :: "u8 list" where
  "name_fan = [0x46, 0x58, 0x66, 0x61, 0x6E, 0x72, 0x65, 0x61, 0x64]"

definition selRecord :: "u8 \<Rightarrow> u8 list" where
  "selRecord event = [0x01, 0x00, 0x02, 0x00, 0x00, 0x00, 0x00, 0x20, 0x00, 0x04, 0x01, 0x11,
     event, 0x00, 0x00, 0x00]"

definition add_sensor :: "u8 \<Rightarrow> u8 \<Rightarrow> u8 \<Rightarrow> u8 \<Rightarrow> u8 \<Rightarrow> world \<times> 'n option \<Rightarrow> (world \<times> 'n option) go" where
  "add_sensor bmc lun num stype code = (\<lambda>(w, conn).
     go_bind (sensorAdd bmc lun num stype code (w_mc w)) (\<lambda>mc. Inr (w\<lparr>w_mc := mc\<rparr>, conn)))"

definition log_event :: "u8 \<Rightarrow> u8 list \<Rightarrow> u32 \<Rightarrow> world \<times> 'n option \<Rightarrow> (world \<times> 'n option) go" where
  "log_event recordType recordData now = (\<lambda>(w, conn).
     go_bind (addToSel recordType recordData now (mc_sel (w_mc w))) (\<lambda>(sl, err, recordId).
       Inr (set_sel sl w, conn)))"

definition init_mc :: "mcT \<Rightarrow> mcT" where
  "init_mc mc = mc\<lparr>mc_bmcIpmb := 0x20, mc_deviceId := 0, mc_hasDeviceSdrs := False,
     mc_deviceRevision := 1, mc_majorFwRev := 1, mc_minorFwRev := 1,
     mc_deviceSupport := IPMI_DEVID_SDR_REPOSITORY_DEV OR IPMI_DEVID_SENSOR_DEV,
     mc_mfgId := [0, 0, 1], mc_productId := [0, 0],
     mc_mainSdrs := (mc_mainSdrs mc)\<lparr>r_flags := IPMI_SDR_RESERVE_SDR_SUPPORTED,
       r_maxSdrCount := 2000, r_nextFreeEntryId := 1\<rparr>,
     mc_sel := (mc_sel mc)\<lparr>sl_maxCount := 1000, sl_nextEntry := 1\<rparr>\<rparr>"

definition bmcInit :: "'n net \<Rightarrow> u32 \<Rightarrow> world \<times> 'n option \<Rightarrow> (world \<times> 'n option) go" where
  "bmcInit net now = (\<lambda>(w, conn).
     let card = w_card w; base = 16 * card; w = w\<lparr>w_mc := init_mc (w_mc w)\<rparr> in
     go_bind (add_sensor 0x20 0 (1 + base) 1 1 (w, conn)) (\<lambda>st.
     go_bind (mainSdrAdd net now 0x20 0x0001 0x51 1 0x32 0x20 0 (1 + base)
                3 card 0x67 0x88 1 1 0xC00F
                0xC07F 0x3838 0 1 0 0
                1 0 0 0 0 0 3 0x60
                0xB0 0 0xB0 0 0xA0 0x90 0x66 0
                0 0 0 0 0 0 0 0xC7 ((0x30 + card) # name_temp) st) (\<lambda>st.
     go_bind (add_sensor 0x20 0 (2 + base) 2 1 st) (\<lambda>st.
     go_bind (mainSdrAdd net now 0x20 0x0002 0x51 1 0x35 0x20 0 (2 + base)
                3 card 0x67 0x88 2 1 0xC00F
                0xC07F 0x3838 0 4 0 0
                1 0 0 0 0 0 3 0
                0 0x0D 0x10 0x0C 0x0F 0x0E 0x0D 0
                0 0 0 0 0 0 0 0xCA ((0x30 + card) # name_voltage) st) (\<lambda>st.
     go_bind (add_sensor 0x20 0 (3 + base) 3 1 st) (\<lambda>st.
     go_bind (mainSdrAdd net now 0x20 0x0003 0x51 1 0x35 0x20 0 (3 + base)
                3 card 0x67 0x88 3 1 0xC00F
                0xC07F 0x3838 0 5 0 0
                1 0 0 0 0 0 3 0
                0 3 6 5 7 6 5 0
                0 0 0 0 0 0 0 0xCA ((0x30 + card) # name_current) st) (\<lambda>st.
     go_bind (add_sensor 0x20 0 (4 + base) 4 1 st) (\<lambda>st.
     go_bind (mainSdrAdd net now 0x20 0x0004 0x51 1 0x35 0x20 0 (4 + base)
                3 card 0x67 0x88 4 1 0xC00F
                0xC07F 0x3838 4 0x12 0x0A 0
                1 0 0 0 0 0 3 0
                0 0x28 0x50 0x32 0x46 0x3C 0 0
                0 0 0 0 0 0 0 0xCA ((0x30 + card) # name_fan) st) (\<lambda>st.
     go_bind (log_event 2 (selRecord 1) now st) (\<lambda>st.
     go_bind (log_event 2 (selRecord 2) now st) (\<lambda>st.
     log_event 2 (selRecord 3) now st)))))))))))"

section \<open>The records of the start\<close>

lemma put_main_sdr_cases:
  assumes "w_card w > 0 \<longrightarrow> conn \<noteq> None"
  shows "(w_card w > 0 \<and> put_main_sdr net now e (w, conn) = Inl (PanicCall ''ipmiClient add-sdr to MM'')) \<or>
    (\<exists>c conn'. put_main_sdr net now e (w, conn) = Inr (w\<lparr>w_mc := addSdrEntry now e (w_mc w), w_ctx := c\<rparr>, conn') \<and>
       (conn = None \<longleftrightarrow> conn' = None))"
proof (cases "w_card w > 0")
  case False
  have "w\<lparr>w_mc := addSdrEntry now e (w_mc w), w_ctx := w_ctx w\<rparr> = w\<lparr>w_mc := addSdrEntry now e (w_mc w)\<rparr>" by simp
  with False show ?thesis by (auto simp: put_main_sdr_def intro!: exI [of _ "w_ctx w"])
next
  case True
  then obtain n where n: "conn = Some n" using assms by auto
  obtain msg ctx where b: "addSdrBuildMsg e (w_ctx w) = (msg, ctx)" by fastforce
  obtain ok c n' where t: "try_exchange MAX_RETRIES net msg addSdrParseRsp ctx (Some n) = Inr (ok, c, Some n')"
    using try_exchange_total [of MAX_RETRIES net msg addSdrParseRsp ctx n] by blast
  with True n b show ?thesis by (cases ok) (auto simp: put_main_sdr_def)
qed

definition main_adder ::
  "'n net \<Rightarrow> u32 \<Rightarrow> u8 \<Rightarrow> (world \<times> 'n option \<Rightarrow> (world \<times> 'n option) go) \<Rightarrow> bool" where
  "main_adder net now num add \<longleftrightarrow> (\<forall>w conn r. r = mc_mainSdrs (w_mc w) \<longrightarrow> r_nextFreeEntryId r < r_maxSdrCount r \<longrightarrow>
     (\<exists>e. add (w, conn) = put_main_sdr net now e (set_sdrs (r\<lparr>r_nextFreeEntryId := r_nextFreeEntryId r + 1\<rparr>) w, conn) \<and>
        sdr_ok e \<and> d_recordId e = r_nextFreeEntryId r \<and> d_lun e = 0 \<and> d_sensNum e = num))"

lemma mainSdrAdd_adder:
  assumes "unat (idStrLghtCode AND 0x1F) \<le> length idStr" "unat (idStrLghtCode AND 0x1F) \<le> 11"
  shows "main_adder net now num (mainSdrAdd net now a1 a2 a3 a4 a5 a6 0 num a9 a10 a11 a12 a13 a14 a15 a16 a17 a18 a19
    a20 a21 a22 a23 a24 a25 a26 a27 a28 a29 a30 a31 a32 a33 a34 a35 a36 a37 a38 a39 a40 a41 a42 a43 a44 idStrLghtCode idStr)"
proof -
  have "unat (48 + (idStrLghtCode AND 0x1F) + 5) \<le> 64"
    using assms(2) by (simp add: unat_word_ariths)
  with assms(1) show ?thesis
    by (auto simp: main_adder_def mainSdrAdd_def Let_def sdr_ok_def zero_sdr_def not_le [symmetric])
qed

definition bmc_state :: "u8 list \<Rightarrow> world \<Rightarrow> bool" where
  "bmc_state nums w \<longleftrightarrow> sdr_inv (mc_mainSdrs (w_mc w)) \<and> r_maxSdrCount (mc_mainSdrs (w_mc w)) = 2000 \<and>
     r_nextFreeEntryId (mc_mainSdrs (w_mc w)) = of_nat (length nums) + 1 \<and>
     r_sdrCount (mc_mainSdrs (w_mc w)) = of_nat (length nums) \<and>
     map d_lun (r_sdrs (mc_mainSdrs (w_mc w))) = map (\<lambda>n. 0) nums \<and>
     map d_sensNum (r_sdrs (mc_mainSdrs (w_mc w))) = nums \<and>
     (\<forall>lun num. mc_sensors (w_mc w) lun num \<noteq> None \<longleftrightarrow> lun = 0 \<and> num \<in> unat ` set nums)"

lemma bmc_state_listed:
  assumes "bmc_state nums w"
  shows "sensors_listed (w_mc w)"
proof -
  let ?es = "r_sdrs (mc_mainSdrs (w_mc w))"
  have "find_sensor 0 n ?es \<noteq> None" if n: "n \<in> set nums" for n
  proof -
    obtain i where "i < length nums" "nums ! i = n" using n by (auto simp: in_set_conv_nth)
    moreover have "length ?es = length nums" "map d_lun ?es = map (\<lambda>n. 0) nums" "map d_sensNum ?es = nums"
      using assms by (auto simp: bmc_state_def dest: map_eq_imp_length_eq)
    ultimately have "?es ! i \<in> set ?es" "d_lun (?es ! i) = 0" "d_sensNum (?es ! i) = n"
      by (simp_all, metis nth_map, metis nth_map)
    then show ?thesis by (auto simp: find_sensor_simps)
  qed
  then show ?thesis
    using assms by (auto simp: sensors_listed_def bmc_state_def)
qed

lemma install_sensor:
  assumes st: "bmc_state nums w" and num: "num \<notin> set nums" "num \<noteq> 255" and room: "length nums < 100"
    and link: "w_card w > 0 \<longrightarrow> conn \<noteq> None" and add: "main_adder net now num add"
  shows "(w_card w > 0 \<and> go_bind (add_sensor bmc 0 num t c (w, conn)) add = Inl (PanicCall ''ipmiClient add-sdr to MM'')) \<or>
    (\<exists>w' conn'. go_bind (add_sensor bmc 0 num t c (w, conn)) add = Inr (w', conn') \<and> bmc_state (nums @ [num]) w' \<and>
       (conn = None \<longleftrightarrow> conn' = None) \<and> w_card w' = w_card w \<and> w_lan w' = w_lan w \<and> w_sent w' = w_sent w \<and>
       (\<exists>t. mc_sel (w_mc w') = (mc_sel (w_mc w))\<lparr>sl_lastAddTime := t\<rparr>))"
proof -
  have "unat num \<noteq> unat (255 :: u8)" using num(2) by (simp only: word_unat_eq_iff [symmetric]) simp
  then have num': "unat num < 255" using unat_u8_less [of num] by simp
  then obtain s where s: "add_sensor bmc 0 num t c (w, conn) = Inr (w\<lparr>w_mc := set_sensor 0 (unat num) s (w_mc w)\<rparr>, conn)"
    by (auto simp: add_sensor_def sensorAdd_def)
  let ?w = "w\<lparr>w_mc := set_sensor 0 (unat num) s (w_mc w)\<rparr>" and ?r = "mc_mainSdrs (w_mc w)"
  have "(of_nat (length nums) + 1 :: u16) < 2000"
    using room by (simp add: word_less_nat_alt unat_word_ariths unat_of_nat)
  then have "r_nextFreeEntryId (mc_mainSdrs (w_mc ?w)) < r_maxSdrCount (mc_mainSdrs (w_mc ?w))"
    using st by (simp add: bmc_state_def)
  with add obtain e where e: "add (?w, conn) = put_main_sdr net now e (set_sdrs (?r\<lparr>r_nextFreeEntryId := r_nextFreeEntryId ?r + 1\<rparr>) ?w, conn)"
    "sdr_ok e" "d_recordId e = r_nextFreeEntryId ?r" "d_lun e = 0" "d_sensNum e = num"
    unfolding main_adder_def by fastforce
  let ?w1 = "set_sdrs (?r\<lparr>r_nextFreeEntryId := r_nextFreeEntryId ?r + 1\<rparr>) ?w"
  have "bmc_state (nums @ [num]) (?w1\<lparr>w_mc := addSdrEntry now e (w_mc ?w1), w_ctx := x\<rparr>)" for x
    using st sdr_inv_append [OF _ e(2,3)] e(4,5) num'
    by (auto simp: bmc_state_def addSdrEntry_def append_sdr_def set_sdrs_def set_sensor_def)
  with put_main_sdr_cases [of ?w1 conn net now e] link s e(1) show ?thesis
    by (auto simp: addSdrEntry_def)
qed

section \<open>The whole start\<close>

lemma go_bind_assoc: "go_bind (go_bind m f) g = go_bind m (\<lambda>x. go_bind (f x) g)"
  by (cases m) simp_all

text \<open>
  Where the start from \<open>w0\<close> has got to: a line card may have panicked for want of an answer;
  otherwise the sensors \<open>nums\<close> are installed and \<open>k\<close> events logged.
\<close>

definition booted :: "world \<Rightarrow> 'n option \<Rightarrow> u8 list \<Rightarrow> nat \<Rightarrow> (world \<times> 'n option) go \<Rightarrow> bool" where
  "booted w0 conn0 nums k res \<longleftrightarrow>
     w_card w0 > 0 \<and> res = Inl (PanicCall ''ipmiClient add-sdr to MM'') \<or>
     (\<exists>w conn. res = Inr (w, conn) \<and> bmc_state nums w \<and> (conn0 = None \<longleftrightarrow> conn = None) \<and>
        w_card w = w_card w0 \<and> w_lan w = w_lan w0 \<and> w_sent w = w_sent w0 \<and>
        sel_inv (mc_sel (w_mc w)) \<and> sl_count (mc_sel (w_mc w)) = of_nat k)"

lemma booted_install:
  assumes "booted w0 conn0 nums k m" "num \<notin> set nums" "num \<noteq> 255" "length nums < 100"
    "w_card w0 > 0 \<longrightarrow> conn0 \<noteq> None" "main_adder net now num add"
  shows "booted w0 conn0 (nums @ [num]) k (go_bind (go_bind m (add_sensor bmc 0 num t c)) add)"
proof (cases m)
  case (Inl e)
  with assms(1) show ?thesis by (simp add: booted_def)
next
  case (Inr st)
  then obtain w conn where w: "m = Inr (w, conn)" "bmc_state nums w" "conn0 = None \<longleftrightarrow> conn = None"
    "w_card w = w_card w0" "w_lan w = w_lan w0" "w_sent w = w_sent w0"
    "sel_inv (mc_sel (w_mc w))" "sl_count (mc_sel (w_mc w)) = of_nat k"
    using assms(1) by (auto simp: booted_def)
  have sel: "sel_inv (sl\<lparr>sl_lastAddTime := x\<rparr>) = sel_inv sl" for sl x
    by (simp add: sel_inv_def)
  have "w_card w > 0 \<longrightarrow> conn \<noteq> None" using assms(5) w(3,4) by simp
  from install_sensor [OF w(2) assms(2-4) this assms(6), of bmc t c] w sel show ?thesis
    unfolding booted_def by auto
qed

lemma booted_event:
  assumes "booted w0 conn0 nums k m" "k < 1000" "7 \<le> length d"
  shows "booted w0 conn0 nums (Suc k) (go_bind m (log_event t d now))"
proof (cases m)
  case (Inl e)
  with assms(1) show ?thesis by (simp add: booted_def)
next
  case (Inr st)
  then obtain w conn where w: "m = Inr (w, conn)" "bmc_state nums w" "conn0 = None \<longleftrightarrow> conn = None"
    "w_card w = w_card w0" "w_lan w = w_lan w0" "w_sent w = w_sent w0"
    "sel_inv (mc_sel (w_mc w))" "sl_count (mc_sel (w_mc w)) = of_nat k"
    using assms(1) by (auto simp: booted_def)
  have "sl_count (mc_sel (w_mc w)) < 1000"
    using w(8) assms(2) by (simp add: word_less_nat_alt unat_of_nat)
  from addToSel_room [OF w(7) this assms(3), of t now] obtain sl where
    sl: "addToSel t d now (mc_sel (w_mc w)) = Inr (sl, 0, sl_nextEntry (mc_sel (w_mc w)))"
      "sl_count sl = sl_count (mc_sel (w_mc w)) + 1" by auto
  have "sel_inv sl" by (rule addToSel_inv [OF w(7) sl(1) assms(3)])
  moreover have "bmc_state nums (set_sel sl w)" using w(2) by (simp add: bmc_state_def)
  ultimately show ?thesis
    using w sl unfolding booted_def by (auto simp: log_event_def add.commute)
qed

lemma booted_start:
  assumes "w_mc w = zero_mc" "w1 = w\<lparr>w_mc := init_mc (w_mc w)\<rparr>"
  shows "booted w conn [] 0 (Inr (w1, conn))"
proof -
  have "sel_inv (zero_sel\<lparr>sl_maxCount := 1000, sl_nextEntry := 1\<rparr>)"
    by (simp add: sel_inv_def zero_sel_def)
  moreover have "mc_sel (w_mc w1) = zero_sel\<lparr>sl_maxCount := 1000, sl_nextEntry := 1\<rparr>"
    using assms by (simp add: init_mc_def zero_mc_def)
  moreover have "bmc_state [] w1"
    using assms by (simp add: bmc_state_def init_mc_def zero_mc_def zero_sdrs_def sdr_inv_def)
  ultimately show ?thesis
    using assms by (auto simp: booted_def zero_sel_def)
qed

definition sensor_nums :: "u8 \<Rightarrow> u8 list" where
  "sensor_nums chassis = [1 + 16 * chassis, 2 + 16 * chassis, 3 + 16 * chassis, 4 + 16 * chassis]"

lemma sensor_nums_low: "unat (k + 16 * c :: u8) mod 16 = unat k mod 16"
  by (simp add: unat_word_ariths mod_mod_cancel mod_simps)

lemmas booted_first = booted_install [where m = "Inr st" for st, unfolded go_bind_simps(2)]

lemma bmcInit_booted:
  assumes "w_mc w = zero_mc" "w_card w > 0 \<longrightarrow> conn \<noteq> None"
  shows "booted w conn (sensor_nums (w_card w)) 3 (bmcInit net now (w, conn))"
proof -
  let ?c = "w_card w"
  let ?b = "16 * ?c"
  have low: "x \<noteq> y" if "unat (x :: u8) mod 16 \<noteq> unat y mod 16" for x y using that by auto
  have ne: "1 + ?b \<noteq> 255" "2 + ?b \<noteq> 255" "3 + ?b \<noteq> 255" "4 + ?b \<noteq> 255"
    by (rule low, simp add: sensor_nums_low)+
  have new: "2 + ?b \<notin> set ([] @ [1 + ?b])" "3 + ?b \<notin> set (([] @ [1 + ?b]) @ [2 + ?b])"
    "4 + ?b \<notin> set ((([] @ [1 + ?b]) @ [2 + ?b]) @ [3 + ?b])"
    by simp_all
  have fits: "unat (0xC7 AND 0x1F :: u8) \<le> length ((0x30 + ?c) # name_temp)" "unat (0xC7 AND 0x1F :: u8) \<le> 11"
    "unat (0xCA AND 0x1F :: u8) \<le> length ((0x30 + ?c) # name_voltage)" "unat (0xCA AND 0x1F :: u8) \<le> 11"
    "unat (0xCA AND 0x1F :: u8) \<le> length ((0x30 + ?c) # name_current)"
    "unat (0xCA AND 0x1F :: u8) \<le> length ((0x30 + ?c) # name_fan)"
    by (simp_all add: name_temp_def name_voltage_def name_current_def name_fan_def)
  have rec: "7 \<le> length (selRecord x)" for x by (simp add: selRecord_def)
  have "booted w conn (((([] @ [1 + ?b]) @ [2 + ?b]) @ [3 + ?b]) @ [4 + ?b]) (Suc (Suc (Suc 0))) (bmcInit net now (w, conn))"
    unfolding bmcInit_def Let_def prod.case go_bind_assoc [symmetric]
    by (intro booted_event booted_first booted_install booted_start [OF assms(1) refl] new ne assms(2) rec;
        (rule mainSdrAdd_adder; rule fits)?) simp_all
  then show ?thesis by (simp add: sensor_nums_def numeral_3_eq_3)
qed

text \<open>Without a connection a line card does not get past its first record.\<close>

lemma bmcInit_unconnected:
  assumes "w_mc w = zero_mc" "w_card w > 0"
  shows "bmcInit net now (w, None) = Inl NilDereference"
proof -
  have "put_main_sdr net now e (v, None) = Inl NilDereference" if "w_card v > 0" for v e
    using that by (simp add: put_main_sdr_def MAX_RETRIES_def numeral_3_eq_3 ipmiReqRsp_def split: prod.split)
  moreover have "\<not> 255 \<le> unat (1 + 16 * w_card w)"
  proof -
    have "unat (1 + 16 * w_card w) mod 16 \<noteq> 15" using sensor_nums_low [of 1 "w_card w"] by simp
    then have "unat (1 + 16 * w_card w) \<noteq> 255" by auto
    then show ?thesis using unat_u8_less [of "1 + 16 * w_card w"] by linarith
  qed
  moreover have "\<not> (2000 :: u16) \<le> 1" by (simp add: word_le_nat_alt)
  ultimately show ?thesis
    using assms
    by (simp add: bmcInit_def Let_def add_sensor_def sensorAdd_def mainSdrAdd_def init_mc_def zero_mc_def zero_sdrs_def
        name_temp_def)
qed

section \<open>Properties\<close>

text \<open>C21: What the start of the management controller establishes. From the zero state, and on a line card
  with an open connection, \<open>bmcInit\<close> either panics because the management module did not accept a
  record (only on a line card), or it ends with: exactly the sensors 1 to 4 plus 16 times the card
  number of logical unit 0 installed; four records, of these sensors in this order, with consecutive
  ids from 1; three events in the log; and the invariants of repository and log. On the management module it never
  panics. Sessions and sent datagrams are untouched.\<close>

theorem bmcInit_establishes:
  assumes "w_mc w = zero_mc" "w_card w > 0 \<longrightarrow> conn \<noteq> None"
  shows "w_card w > 0 \<and> bmcInit net now (w, conn) = Inl (PanicCall ''ipmiClient add-sdr to MM'') \<or>
    (\<exists>w' conn'. bmcInit net now (w, conn) = Inr (w', conn') \<and>
       map d_sensNum (r_sdrs (mc_mainSdrs (w_mc w'))) = sensor_nums (w_card w) \<and>
       map d_recordId (r_sdrs (mc_mainSdrs (w_mc w'))) = [1, 2, 3, 4] \<and>
       map d_lun (r_sdrs (mc_mainSdrs (w_mc w'))) = [0, 0, 0, 0] \<and>
       (\<forall>lun num. mc_sensors (w_mc w') lun num \<noteq> None \<longleftrightarrow> lun = 0 \<and> num \<in> unat ` set (sensor_nums (w_card w))) \<and>
       sensors_listed (w_mc w') \<and> sl_count (mc_sel (w_mc w')) = 3 \<and>
       sdr_inv (mc_mainSdrs (w_mc w')) \<and> sel_inv (mc_sel (w_mc w')) \<and>
       (conn = None \<longleftrightarrow> conn' = None) \<and> w_card w' = w_card w \<and> w_lan w' = w_lan w \<and> w_sent w' = w_sent w)"
proof -
  have facts: "map d_recordId (r_sdrs (mc_mainSdrs (w_mc w'))) = [1, 2, 3, 4] \<and>
      map d_sensNum (r_sdrs (mc_mainSdrs (w_mc w'))) = sensor_nums (w_card w) \<and>
      map d_lun (r_sdrs (mc_mainSdrs (w_mc w'))) = [0, 0, 0, 0] \<and>
      (\<forall>lun num. mc_sensors (w_mc w') lun num \<noteq> None \<longleftrightarrow> lun = 0 \<and> num \<in> unat ` set (sensor_nums (w_card w))) \<and>
      sensors_listed (w_mc w') \<and> sdr_inv (mc_mainSdrs (w_mc w'))"
    if st: "bmc_state (sensor_nums (w_card w)) w'" for w'
  proof -
    let ?r = "mc_mainSdrs (w_mc w')"
    have nums: "map d_sensNum (r_sdrs ?r) = sensor_nums (w_card w)" "sdr_inv ?r"
      using st by (simp_all add: bmc_state_def)
    then have "length (r_sdrs ?r) = 4" by (auto simp: sensor_nums_def dest: arg_cong [where f = length])
    moreover have "r_nextFreeEntryId ?r = 5" using st by (simp add: bmc_state_def sensor_nums_def)
    ultimately have "map d_recordId (r_sdrs ?r) = [1, 2, 3, 4]"
      using nums(2) by (simp add: sdr_inv_def upt_rec)
    moreover have "map d_lun (r_sdrs ?r) = [0, 0, 0, 0]"
      "\<forall>lun num. mc_sensors (w_mc w') lun num \<noteq> None \<longleftrightarrow> lun = 0 \<and> num \<in> unat ` set (sensor_nums (w_card w))"
      using st by (auto simp: bmc_state_def sensor_nums_def)
    ultimately show ?thesis using nums bmc_state_listed [OF st] by blast
  qed
  from bmcInit_booted [OF assms, of net now] show ?thesis
    unfolding booted_def by (auto dest!: facts)
qed

theorem bmcInit_establishes_witness:
  "\<exists>w' conn'. bmcInit demo_net 9 (demo_world, None) = Inr (w', conn') \<and>
     map d_sensNum (r_sdrs (mc_mainSdrs (w_mc w'))) = [1, 2, 3, 4] \<and> mc_sensors (w_mc w') 0 3 \<noteq> None"
  using bmcInit_establishes [of demo_world None demo_net 9] by (auto simp: demo_world_def sensor_nums_def)

end
