(* ===== verification/Daemon.thy ===== *)
theory Daemon
  imports Dispatch Bmc
begin

text \<open>
  The daemon as a state machine: \<open>Ipmigod\<close> (connect to the management module, start the management
  controller, serve) and its two loops. The program reads datagrams and runs the sensor poll in
  two goroutines that share the state without locks; the model takes every datagram and every poll
  as one step and leaves their order open. A failed read arrives as an empty datagram. The dialled
  connection (\<open>None\<close> for an error) and the network behind it are parameters.
\<close>

section \<open>Start\<close>

definition ipmiMMConnect ::
  "'n net \<Rightarrow> 'n option \<Rightarrow> clientContextT \<Rightarrow> (clientContextT \<times> 'n option) option go" where
  "ipmiMMConnect net dialled ctx =
     (case dialled of
        None \<Rightarrow> Inr None
      | Some n \<Rightarrow> go_bind (ipmiEstablishSession net ctx (Some n)) (\<lambda>r. Inr (Some r)))"

definition Ipmigod :: "'n net \<Rightarrow> 'n option \<Rightarrow> u32 \<Rightarrow> bool \<Rightarrow> int \<Rightarrow> (world \<times> 'n option) go" where
  "Ipmigod net dialled now mmCardMode cardNum =
     (let w = \<lparr>w_lan = init_lanserv, w_mc = zero_mc, w_card = word_of_int cardNum,
               w_ctx = init_clientCtx, w_sent = []\<rparr>
      in if mmCardMode then bmcInit net now (w, None)
         else go_bind (ipmiMMConnect net dialled (w_ctx w)) (\<lambda>r.
           case r of
             None \<Rightarrow> Inl (PanicCall ''Problem initializing UDP channel to MM'')
           | Some (ctx, conn) \<Rightarrow> bmcInit net now (w\<lparr>w_ctx := ctx\<rparr>, conn)))"

section \<open>Steps and runs\<close>

datatype event =
    Datagram goenv nat "u8 list"
  | Tick "nat \<Rightarrow> nat \<Rightarrow> u8"

inductive daemon_step :: "'n net \<Rightarrow> world \<times> 'n option \<Rightarrow> event \<Rightarrow> (world \<times> 'n option) go \<Rightarrow> bool" for net where
  serve: "ipmiHandleMsg env (received addr pkt) w = Inr w' \<Longrightarrow>
    daemon_step net (w, conn) (Datagram env addr pkt) (Inr (w', conn))"
| crash: "ipmiHandleMsg env (received addr pkt) w = Inl e \<Longrightarrow>
    daemon_step net (w, conn) (Datagram env addr pkt) (Inl e)"
| poll: "pollSensors rnd net w conn = r \<Longrightarrow> daemon_step net (w, conn) (Tick rnd) r"

inductive_cases datagramE: "daemon_step net (w, conn) (Datagram env addr pkt) r"
inductive_cases tickE: "daemon_step net (w, conn) (Tick rnd) r"
inductive_simps daemon_step_simps: "daemon_step net (w, conn) (Datagram env addr pkt) r"
  "daemon_step net (w, conn) (Tick rnd) r"

inductive daemon_run :: "'n net \<Rightarrow> event list \<Rightarrow> world \<times> 'n option \<Rightarrow> bool" for net where
  boot: "Ipmigod net dialled now mmCardMode cardNum = Inr st \<Longrightarrow> daemon_run net [] st"
| more: "daemon_run net evs st \<Longrightarrow> daemon_step net st ev (Inr st') \<Longrightarrow> daemon_run net (evs @ [ev]) st'"

text \<open>The network function and command of a datagram, and the events that clear the repository.\<close>

definition command_of :: "u8 list \<Rightarrow> rmcp_messageT" where
  "command_of pkt = (let m = received 0 pkt in
     if arr (m_data m) 3 = 7 \<and> arr (m_data m) 4 \<noteq> IPMI_AUTHTYPE_RMCP_PLUS
     then m_message (ipmiParseRmcpMsg m) else m_message m)"

fun clears :: "event \<Rightarrow> bool" where
  "clears (Datagram env addr pkt) \<longleftrightarrow> rm_netfn (command_of pkt) = STORAGE_NETFN \<and>
     rm_cmd (command_of pkt) = CLEAR_SDR_REPOSITORY_CMD"
| "clears (Tick rnd) \<longleftrightarrow> False"

text \<open>The datagrams that came from an address, and those sent to it.\<close>

fun comes_from :: "nat \<Rightarrow> event \<Rightarrow> bool" where
  "comes_from x (Datagram env addr pkt) \<longleftrightarrow> addr = x"
| "comes_from x (Tick rnd) \<longleftrightarrow> False"

definition sent_to :: "nat \<Rightarrow> world \<Rightarrow> nat" where
  "sent_to x w = length (filter (\<lambda>(addr, pkt). addr = x) (w_sent w))"

section \<open>Every step\<close>

lemma parsed_command: "m_message (fst (parsed addr pkt w)) = command_of pkt"
proof -
  have zero: "m_dataStart (received a pkt) = 0" for a by (simp add: received_def)
  have "m_message (ipmiParseRmcpMsg ((received addr pkt)\<lparr>m_channel := c\<rparr>)) = m_message (ipmiParseRmcpMsg (received 0 pkt))" for c
    by (simp add: ipmiParseRmcpMsg_def received_def Let_def)
  then show ?thesis
    by (auto simp: parsed_def command_of_def ipmiParseMsg_def Let_def zero) (simp_all add: received_def)
qed

lemma command_keeps:
  assumes run: "call (netfuncProcessors (rm_netfn (m_message m))) env m w = Inr w'"
    and no: "\<not> (rm_netfn (m_message m) = STORAGE_NETFN \<and> rm_cmd (m_message m) = CLEAR_SDR_REPOSITORY_CMD)"
    and listed: "sensors_listed (w_mc w)"
  shows "sensors_listed (w_mc w')"
proof (cases "rm_netfn (m_message m) = STORAGE_NETFN")
  case False
  with netfn.call_keeps [OF run _ listed] show ?thesis by simp
next
  case True
  with run have "call (storageProcessors (rm_cmd (m_message m))) env m w = Inr w'"
    by (simp add: netfn_entries storageNetfn_def)
  from storage.call_keeps [OF this _ listed] True no show ?thesis by simp
qed

lemma handle_keeps:
  assumes run: "ipmiHandleMsg env (received addr pkt) w = Inr w'" and no: "\<not> clears (Datagram env addr pkt)"
    and listed: "sensors_listed (w_mc w)"
  shows "sensors_listed (w_mc w')"
proof (cases "length pkt < 5")
  case True
  with run listed show ?thesis by (simp add: handle_short)
next
  case False
  then have len: "5 \<le> length pkt" by simp
  show ?thesis
  proof (cases rule: parsed_cases [of addr pkt w])
    case ping
    have "w_mc (asfPing m w) = w_mc w" for m by (simp add: asfPing_def Let_def)
    with handle_ping [OF len ping, of env] run listed show ?thesis by simp
  next
    case (request m)
    have "m_message m = command_of pkt" using parsed_command [of addr pkt w] request(1) by simp
    with handle_request [OF len request(1,3), of env] run no listed command_keeps [of m env w w'] show ?thesis by simp
  qed
qed

definition state_inv :: "world \<times> 'n option \<Rightarrow> bool" where
  "state_inv st \<longleftrightarrow> world_inv (fst st) \<and> (w_card (fst st) > 0 \<longrightarrow> snd st \<noteq> None)"

lemma poll_state_inv:
  assumes "state_inv (w, conn)" "pollSensors rnd net w conn = Inr (w', conn')"
  shows "state_inv (w', conn') \<and> sensors_listed (w_mc w') = sensors_listed (w_mc w) \<and> w_sent w' = w_sent w \<and>
    w_lan w' = w_lan w"
proof -
  obtain v' where "poll_from rnd net poll_order (0, w, conn) = Inr (v', w', conn')"
    using assms(2) by (auto simp: pollSensors_def)
  then have f: "poll_frame w w'" "conn = None \<longleftrightarrow> conn' = None"
    using poll_from_frame assms(1) by (fastforce simp: state_inv_def)+
  with assms(1) sensors_listed_frame [OF f(1)] show ?thesis
    by (auto simp: state_inv_def world_inv_def poll_frame_def)
qed

lemma step_state_inv:
  assumes "daemon_step net st ev (Inr st')" "state_inv st"
  shows "state_inv st' \<and> (sensors_listed (w_mc (fst st)) \<longrightarrow> \<not> clears ev \<longrightarrow> sensors_listed (w_mc (fst st'))) \<and>
    sent_to x (fst st') \<le> sent_to x (fst st) + (if comes_from x ev then 1 else 0)"
  using assms
proof (cases rule: daemon_step.cases)
  case (serve env addr pkt w w' conn)
  with handle_served [OF serve(4)] handle_keeps [OF serve(4)] assms(2) show ?thesis
    by (auto simp: state_inv_def served_def replies_def sent_to_def)
next
  case (poll rnd w conn)
  obtain w' conn' where "st' = (w', conn')" by fastforce
  with poll poll_state_inv [of w conn rnd net w' conn'] assms(2) show ?thesis by (auto simp: sent_to_def)
qed

lemma start_state_inv:
  assumes "Ipmigod net dialled now mmCardMode cardNum = Inr (w, conn)"
  shows "state_inv (w, conn) \<and> sensors_listed (w_mc w) \<and> w_sent w = [] \<and> w_lan w = init_lanserv"
proof -
  let ?w = "\<lparr>w_lan = init_lanserv, w_mc = zero_mc, w_card = word_of_int cardNum, w_ctx = init_clientCtx, w_sent = []\<rparr>"
  obtain ctx conn0 where run: "bmcInit net now (?w\<lparr>w_ctx := ctx\<rparr>, conn0) = Inr (w, conn)"
  proof (cases mmCardMode)
    case True
    with assms show ?thesis by (intro that [of init_clientCtx None]) (simp add: Ipmigod_def)
  next
    case False
    with assms show ?thesis
      by (auto simp: Ipmigod_def ipmiMMConnect_def split: option.splits prod.splits intro: that)
  qed
  have link: "w_card (?w\<lparr>w_ctx := ctx\<rparr>) > 0 \<longrightarrow> conn0 \<noteq> None"
    using run bmcInit_unconnected [of "?w\<lparr>w_ctx := ctx\<rparr>" net now] by (cases conn0) auto
  have "booted (?w\<lparr>w_ctx := ctx\<rparr>) conn0 (sensor_nums (w_card (?w\<lparr>w_ctx := ctx\<rparr>))) 3 (Inr (w, conn))"
    using bmcInit_booted [OF _ link, of net now] run by simp
  then have st: "bmc_state (sensor_nums (word_of_int cardNum)) w" "conn0 = None \<longleftrightarrow> conn = None"
    "w_card w = word_of_int cardNum" "w_lan w = init_lanserv" "w_sent w = []" "sel_inv (mc_sel (w_mc w))"
    by (simp_all add: booted_def)
  then show ?thesis
    using bmc_state_listed [OF st(1)] link lan_inv_init by (simp add: state_inv_def world_inv_def bmc_state_def)
qed

lemma run_state_inv:
  assumes "daemon_run net evs (w, conn)"
  shows "state_inv (w, conn) \<and> ((\<forall>ev \<in> set evs. \<not> clears ev) \<longrightarrow> sensors_listed (w_mc w)) \<and>
    sent_to x w \<le> length (filter (comes_from x) evs)"
  using assms
proof (induction evs "(w, conn)" arbitrary: w conn rule: daemon_run.induct)
  case (boot dialled now mmCardMode cardNum)
  from start_state_inv [OF boot] show ?case by (simp add: sent_to_def)
next
  case (more evs st ev w' conn')
  obtain w conn where st: "st = (w, conn)" by fastforce
  from more.hyps(2) [OF st] have inv: "state_inv (w, conn)" "(\<forall>ev \<in> set evs. \<not> clears ev) \<longrightarrow> sensors_listed (w_mc w)"
    "sent_to x w \<le> length (filter (comes_from x) evs)" by auto
  from step_state_inv [OF more.hyps(3) [unfolded st] inv(1), of x] inv(2,3) show ?case
    by (auto split: if_splits)
qed

text \<open>A management module (card 0) starts without a network and serves.\<close>

lemma demo_boot: "\<exists>w conn. Ipmigod demo_net None 9 True 0 = Inr (w, conn)"
proof -
  let ?w = "\<lparr>w_lan = init_lanserv, w_mc = zero_mc, w_card = 0, w_ctx = init_clientCtx, w_sent = []\<rparr>"
  have "booted ?w None (sensor_nums (w_card ?w)) 3 (bmcInit demo_net 9 (?w, None))"
    by (rule bmcInit_booted) simp_all
  then show ?thesis by (auto simp: booted_def Ipmigod_def)
qed

definition demo_caps :: "u8 list" where
  "demo_caps = demo_request 0 APP_NETFN GET_CHANNEL_AUTH_CAPABILITIES_CMD [0xE, 3]"

lemma demo_served:
  assumes "world_inv w"
  shows "\<exists>w'. ipmiHandleMsg demo_env (received 7 demo_caps) w = Inr w'"
proof -
  have h: "length [0xE, 3 :: u8] < 200" "APP_NETFN < 64" by (simp_all add: protodefs)
  have "handler_total getChannelAuthCapabilties" by (rule app_total)
  from handler_totalD [OF this assms] show ?thesis
    by (simp add: demo_caps_def handle_demo(3) [OF h refl refl] netfn_entries appNetfn_def app_entries parsed_client_def)
qed

lemma demo_caps_keeps: "\<not> clears (Datagram demo_env 7 demo_caps)"
proof -
  have h: "length [0xE, 3 :: u8] < 200" "APP_NETFN < 64" by (simp_all add: protodefs)
  have "rm_netfn (command_of demo_caps) = APP_NETFN"
    unfolding parsed_command [of 7 _ demo_server, symmetric] demo_caps_def handle_demo(1) [OF h refl refl]
    by (simp add: parsed_client_def)
  then show ?thesis by (simp add: protodefs)
qed

lemma demo_run: "\<exists>w conn. daemon_run demo_net [Datagram demo_env 7 demo_caps] (w, conn)"
proof -
  obtain w conn where boot: "Ipmigod demo_net None 9 True 0 = Inr (w, conn)" using demo_boot by blast
  then have "world_inv w" using start_state_inv [OF boot] by (simp add: state_inv_def)
  then obtain w' where "ipmiHandleMsg demo_env (received 7 demo_caps) w = Inr w'" using demo_served by blast
  from daemon_run.more [OF daemon_run.boot [OF boot] serve [OF this]] show ?thesis by auto
qed

section \<open>Properties\<close>

text \<open>C3: The invariants hold in every state the daemon reaches. However it was started (as management
  module or line card), after any sequence of received datagrams and sensor polls, whatever their
  bytes, order and sources of randomness, the session table, the event log and the SDR repository
  are well formed, and a line card still has its connection to the management module.\<close>

theorem reachable_invariants:
  assumes "daemon_run net evs (w, conn)"
  shows "lan_inv (w_lan w) \<and> sel_inv (mc_sel (w_mc w)) \<and> sdr_inv (mc_mainSdrs (w_mc w)) \<and>
    (w_card w > 0 \<longrightarrow> conn \<noteq> None)"
  using run_state_inv [OF assms] by (simp add: state_inv_def world_inv_def)

theorem reachable_invariants_witness:
  "\<exists>w conn. daemon_run demo_net [Datagram demo_env 7 demo_caps] (w, conn) \<and> lan_inv (w_lan w) \<and>
     sel_inv (mc_sel (w_mc w)) \<and> sdr_inv (mc_mainSdrs (w_mc w))"
proof -
  obtain w conn where run: "daemon_run demo_net [Datagram demo_env 7 demo_caps] (w, conn)" using demo_run by blast
  with reachable_invariants [OF run] show ?thesis by blast
qed

text \<open>C4: Sessions are sound in every reachable state. At most 16 are open and the counter is exact; two open
  sessions never share an id; an id is never 0 and never odd (odd ids are the temporary ones); every
  session belongs to user 1 or 2 and runs at least at USER level and at most at the level configured
  for that user: no sequence of requests lifts user 1 above USER, or anyone above ADMIN.\<close>

theorem reachable_sessions:
  assumes "daemon_run net evs (w, conn)"
  shows "unat (l_activeSessions (w_lan w)) = length (filter s_active (l_sessions (w_lan w))) \<and>
    l_activeSessions (w_lan w) \<le> 16 \<and>
    (\<forall>i \<in> {1..MAX_SESSIONS}. \<forall>j \<in> {1..MAX_SESSIONS}.
       s_active (l_sessions (w_lan w) ! i) \<and> s_active (l_sessions (w_lan w) ! j) \<and>
       s_sid (l_sessions (w_lan w) ! i) = s_sid (l_sessions (w_lan w) ! j) \<longrightarrow> i = j) \<and>
    (\<forall>i \<in> {1..MAX_SESSIONS}. s_active (l_sessions (w_lan w) ! i) \<longrightarrow>
       s_sid (l_sessions (w_lan w) ! i) \<noteq> 0 \<and> s_sid (l_sessions (w_lan w) ! i) AND 1 = 0 \<and>
       IPMI_PRIVILEGE_USER \<le> s_priv (l_sessions (w_lan w) ! i) \<and>
       (s_userid (l_sessions (w_lan w) ! i) = 1 \<and> s_priv (l_sessions (w_lan w) ! i) = IPMI_PRIVILEGE_USER \<or>
        s_userid (l_sessions (w_lan w) ! i) = 2 \<and> s_priv (l_sessions (w_lan w) ! i) \<le> IPMI_PRIVILEGE_ADMIN))"
proof -
  let ?l = "w_lan w"
  have inv: "lan_inv ?l" using run_state_inv [OF assms] by (simp add: state_inv_def world_inv_def)
  note wf = lan_invD(1) [OF inv]
  have count: "unat (l_activeSessions ?l) = active_count ?l" "l_activeSessions ?l \<le> 16"
    using lan_invD(2) [OF inv] active_count_le [OF wf] by (simp_all add: word_le_nat_alt)
  have unique: "i = j" if "valid_slot i" "valid_slot j" "s_active (l_sessions ?l ! i)" "s_active (l_sessions ?l ! j)"
    "s_sid (l_sessions ?l ! i) = s_sid (l_sessions ?l ! j)" for i j
    using that sidToSession_iff [OF wf, of "s_sid (l_sessions ?l ! i)" i]
      sidToSession_iff [OF wf, of "s_sid (l_sessions ?l ! i)" j] by simp
  have sound: "s_sid (l_sessions ?l ! i) \<noteq> 0" "s_sid (l_sessions ?l ! i) AND 1 = 0"
    "IPMI_PRIVILEGE_USER \<le> s_priv (l_sessions ?l ! i)"
    "s_userid (l_sessions ?l ! i) = 1 \<and> s_priv (l_sessions ?l ! i) = IPMI_PRIVILEGE_USER \<or>
     s_userid (l_sessions ?l ! i) = 2 \<and> s_priv (l_sessions ?l ! i) \<le> IPMI_PRIVILEGE_ADMIN"
    if i: "valid_slot i" "s_active (l_sessions ?l ! i)" for i
  proof -
    have fits: "session_fits i (l_sessions ?l ! i)" by (rule table_wfD(3) [OF wf i(1)])
    with i(2) show even: "s_sid (l_sessions ?l ! i) AND 1 = 0" by (simp add: session_fits_def)
    have "(of_nat i :: u32) \<noteq> of_nat 0"
      using i(1) of_nat_slot_eq [of i 0] by (simp add: valid_slot_def protodefs)
    with fits i(2) show "s_sid (l_sessions ?l ! i) \<noteq> 0" by (auto simp: session_fits_def sid_index_def)
    have ok: "session_ok ?l (l_sessions ?l ! i)" by (rule lan_invD(7) [OF inv i])
    then show "IPMI_PRIVILEGE_USER \<le> s_priv (l_sessions ?l ! i)" by (auto simp: session_ok_def)
    from ok lan_invD(3) [OF inv]
    show "s_userid (l_sessions ?l ! i) = 1 \<and> s_priv (l_sessions ?l ! i) = IPMI_PRIVILEGE_USER \<or>
      s_userid (l_sessions ?l ! i) = 2 \<and> s_priv (l_sessions ?l ! i) \<le> IPMI_PRIVILEGE_ADMIN"
      by (auto simp: session_ok_def protodefs)
  qed
  show ?thesis
    using count unique sound by (simp add: active_count_def valid_slot_def)
qed


theorem reachable_sessions_witness:
  "\<exists>w conn. daemon_run demo_net [Datagram demo_env 7 demo_caps] (w, conn) \<and> l_activeSessions (w_lan w) \<le> 16"
proof -
  obtain w conn where run: "daemon_run demo_net [Datagram demo_env 7 demo_caps] (w, conn)" using demo_run by blast
  with reachable_sessions [OF run] show ?thesis by blast
qed

text \<open>C15: The poll cannot kill the daemon as long as nobody clears the SDR repository. After any run without a
  Clear SDR Repository request, every poll returns and leaves each sensor with its record; in
  particular, no other request, in whatever number, can take a polled record away.\<close>

theorem poll_survives_run:
  assumes "daemon_run net evs (w, conn)" "\<forall>ev \<in> set evs. \<not> clears ev"
  shows "\<exists>w' conn'. daemon_step net (w, conn) (Tick rnd) (Inr (w', conn')) \<and> sensors_listed (w_mc w')"
proof -
  from run_state_inv [OF assms(1)] assms(2) have inv: "state_inv (w, conn)" "sensors_listed (w_mc w)" by auto
  then obtain w' conn' where "pollSensors rnd net w conn = Inr (w', conn')"
    using pollSensors_ok [of w conn rnd net] by (auto simp: state_inv_def)
  with poll_state_inv [OF inv(1) this] inv(2) show ?thesis by (auto simp: daemon_step_simps)
qed

theorem poll_survives_run_witness:
  "\<exists>w conn w' conn'. daemon_run demo_net [Datagram demo_env 7 demo_caps] (w, conn) \<and>
     daemon_step demo_net (w, conn) (Tick (\<lambda>lun num. 5)) (Inr (w', conn'))"
proof -
  obtain w conn where run: "daemon_run demo_net [Datagram demo_env 7 demo_caps] (w, conn)" using demo_run by blast
  with poll_survives_run [OF run, of "\<lambda>lun num. 5"] demo_caps_keeps show ?thesis by auto
qed

text \<open>C17: The server socket does not amplify. In every run, the daemon has written at most as many datagrams
  on its server socket to an address as it has received from it there: an address that sent
  nothing gets nothing, and a poll answers nobody. (The records and readings that a line card sends as
  a client, unasked, go over its own connection to the management module and are not counted.)\<close>

theorem no_amplification:
  assumes "daemon_run net evs (w, conn)"
  shows "length (filter (\<lambda>(addr, pkt). addr = x) (w_sent w)) \<le> length (filter (comes_from x) evs)"
  using run_state_inv [OF assms] by (simp add: sent_to_def)

theorem no_amplification_witness:
  "\<exists>w conn. daemon_run demo_net [Datagram demo_env 7 demo_caps] (w, conn) \<and>
     length (filter (\<lambda>(addr, pkt). addr = 7) (w_sent w)) \<le> 1 \<and> filter (\<lambda>(addr, pkt). addr = 8) (w_sent w) = []"
proof -
  obtain w conn where run: "daemon_run demo_net [Datagram demo_env 7 demo_caps] (w, conn)" using demo_run by blast
  with no_amplification [OF run, of 7] no_amplification [OF run, of 8] show ?thesis by auto
qed

end
