(* ===== verification/Line_Card.thy ===== *)
theory Line_Card
  imports Handshake Daemon
begin

text \<open>
  A line card and its management module: uploading a record over an open session, and the whole
  start of a line card's daemon against a running daemon on the management module.
\<close>

section \<open>Uploading a record\<close>

text \<open>The client has an open session without authentication on a management module (card 0).\<close>

definition linked :: "clientContextT \<Rightarrow> world \<Rightarrow> bool" where
  "linked ctx w \<longleftrightarrow> lan_inv (w_lan w) \<and> w_card w = 0 \<and>
     (\<exists>i. sidToSession (c_sessionId ctx) (w_lan w) = Some i \<and> s_authtype (l_sessions (w_lan w) ! i) = IPMI_AUTHTYPE_NONE)"

text \<open>A record of sensor \<open>num\<close> that Add SDR takes for a new record, not for a reading.\<close>

definition uploadable :: "u8 \<Rightarrow> sdrT \<Rightarrow> bool" where
  "uploadable num e \<longleftrightarrow> length (d_data e) = 64 \<and> unat (arr (d_data e) 4) \<le> 57 \<and> arr (d_data e) 6 = 0 \<and>
     arr (d_data e) 7 = num \<and> arr (d_data e) 46 = 0"

lemma reply_on_session:
  assumes wf: "table_wf (w_lan w)" and i: "sidToSession (m_sid m) (w_lan w) = Some i"
    and plain: "\<not> s_rmcpplus (l_sessions (w_lan w) ! i)" and "length d = n" "n \<le> 900"
  obtains rsp x where "returnRspData m None d n w =
      Inr (send_to (m_remoteAddr m) (rsp_packet m (l_sessions (w_lan w) ! i) rsp)
        (w\<lparr>w_lan := put_session i ((l_sessions (w_lan w) ! i)\<lparr>s_xmitSeq := x\<rparr>) (w_lan w)\<rparr>))"
    "rsp_payload rsp = d" "p_cmd rsp = rm_cmd (m_message m)" "p_dataLen rsp = of_nat n"
proof
  let ?rsp = "\<lparr>p_netfn = rm_netfn (m_message m) OR 1, p_cmd = rm_cmd (m_message m), p_dataLen = of_nat n, p_data = gslice d 0 n\<rparr>"
  let ?x = "next_xmitSeq (s_xmitSeq (l_sessions (w_lan w) ! i))"
  have "m_sid m \<noteq> 0" using i sid_zero_unlisted [OF wf] by auto
  then have "rsp_session m None (w_lan w) = Some (Slot i)"
    using i plain by (simp add: rsp_session_def)
  then show "returnRspData m None d n w = Inr (send_to (m_remoteAddr m) (rsp_packet m (l_sessions (w_lan w) ! i) ?rsp)
      (w\<lparr>w_lan := put_session i ((l_sessions (w_lan w) ! i)\<lparr>s_xmitSeq := ?x\<rparr>) (w_lan w)\<rparr>))"
    using assms(5) by (simp add: returnRspData_def returnRsp_small unat_of_nat Let_def)
  show "rsp_payload ?rsp = d" using assms(4,5) by (intro rsp_payload_list) simp_all
qed simp_all

lemma serve_add_sdr:
  assumes "pkt = fst (addSdrBuildMsg e ctx)" "length (d_data e) = 64"
    and m: "m = parsed_client (l_chanNum (w_lan w)) addr pkt (c_sessionSeq ctx) (c_sessionId ctx) 0 STORAGE_NETFN 0 (c_rqSeq ctx) ADD_SDR_CMD"
  shows "ipmiHandleMsg env (received addr pkt) w = addSdr env m w" "i < 64 \<Longrightarrow> arr pkt (20 + i) = arr (d_data e) i"
proof -
  have cmd: "gslice (d_data e) 0 64 = d_data e" using gslice_whole [of "d_data e"] assms(2) by simp
  have p: "pkt = clientBuildMsg (d_data e) 64 70 (c_sessionSeq ctx) (c_sessionId ctx) 0 STORAGE_NETFN 0 (c_rqSeq ctx) ADD_SDR_CMD"
    using assms(1,2) cmd by (simp add: addSdrBuildMsg_def)
  have h: "unat (64 :: u8) < 235" "STORAGE_NETFN < 64" "(0 :: u8) < 4" by (simp_all add: protodefs)
  from handle_client(3) [OF h(1,2,3,3) p m, of env] show "ipmiHandleMsg env (received addr pkt) w = addSdr env m w"
    by (simp add: netfn_entries storageNetfn_def m storage_entries)
  show "arr pkt (20 + i) = arr (d_data e) i" if "i < 64"
    unfolding p using that by (intro client_data) simp_all
qed

lemma upload:
  assumes link: "linked ctx w" and e: "uploadable num e" and new: "find_sensor 0 num (r_sdrs (mc_mainSdrs (w_mc w))) = None"
    and pkt: "pkt = fst (addSdrBuildMsg e ctx)"
  obtains w' s where
    "try_exchange MAX_RETRIES (server_net env addr) pkt addSdrParseRsp c (Some w) = Inr (True, c, Some w')" "linked ctx w'"
    "r_sdrs (mc_mainSdrs (w_mc w')) = r_sdrs (mc_mainSdrs (w_mc w)) @ [s]" "d_lun s = 0" "d_sensNum s = num"
    "d_recordId s = r_nextFreeEntryId (mc_mainSdrs (w_mc w))"
    "gslice (d_data s) 2 (unat (arr (d_data e) 4) + 7) = gslice (d_data e) 2 (unat (arr (d_data e) 4) + 7)"
    "l_activeSessions (w_lan w') = l_activeSessions (w_lan w)" "length (w_sent w') = length (w_sent w) + 1"
proof -
  obtain i where inv: "lan_inv (w_lan w)" and i: "sidToSession (c_sessionId ctx) (w_lan w) = Some i"
    and auth: "s_authtype (l_sessions (w_lan w) ! i) = IPMI_AUTHTYPE_NONE" and mm: "w_card w = 0"
    using link by (auto simp: linked_def)
  let ?m = "parsed_client (l_chanNum (w_lan w)) addr pkt (c_sessionSeq ctx) (c_sessionId ctx) 0 STORAGE_NETFN 0 (c_rqSeq ctx) ADD_SDR_CMD"
  let ?r = "mc_mainSdrs (w_mc w)" and ?n = "unat (arr (d_data e) 4)"
  let ?s = "stored_sdr pkt 20 0 ?r"
  let ?v = "w\<lparr>w_mc := (w_mc w)\<lparr>mc_mainSdrs := append_sdr ?s (?r\<lparr>r_nextFreeEntryId := r_nextFreeEntryId ?r + 1\<rparr>),
      mc_sel := (mc_sel (w_mc w))\<lparr>sl_lastAddTime := g_now env\<rparr>\<rparr>\<rparr>"
  have len: "length (d_data e) = 64" using e by (simp add: uploadable_def)
  note serve = serve_add_sdr [OF pkt len refl]
  have d: "arr pkt 24 = arr (d_data e) 4" "arr pkt 26 = 0" "arr pkt 27 = num" "arr pkt 66 = 0"
    using serve(2) [of 4] serve(2) [of 6] serve(2) [of 7] serve(2) [of 46] e by (simp_all add: uploadable_def)
  have n: "unat (arr (d_data e) 4 + 5) = ?n + 5" "?n \<le> 57"
    using e by (simp_all add: uploadable_def unat_word_ariths)
  have run: "ipmiHandleMsg env (received addr pkt) w = returnRspData ?m None ([0] @ putUint16 (r_nextFreeEntryId ?r)) 3 ?v"
    using serve(1) [of env addr w] d n new mm by (simp add: addSdr_eq Let_def)
  have slot: "valid_slot i" "s_active (l_sessions (w_lan w) ! i)" "s_sid (l_sessions (w_lan w) ! i) = c_sessionId ctx"
    using i by (simp_all add: sidToSession_iff lan_invD(1) [OF inv])
  have "\<not> s_rmcpplus (l_sessions (w_lan w) ! i)"
    using lan_invD(7) [OF inv slot(1,2)] by (simp add: session_ok_def)
  then obtain rsp x where rsp: "returnRspData ?m None ([0] @ putUint16 (r_nextFreeEntryId ?r)) 3 ?v =
      Inr (send_to addr (rsp_packet ?m (l_sessions (w_lan w) ! i) rsp)
        (?v\<lparr>w_lan := put_session i ((l_sessions (w_lan w) ! i)\<lparr>s_xmitSeq := x\<rparr>) (w_lan w)\<rparr>))" (is "_ = Inr ?w'")
    "rsp_payload rsp = [0] @ putUint16 (r_nextFreeEntryId ?r)" "p_cmd rsp = ADD_SDR_CMD" "p_dataLen rsp = 3"
    using reply_on_session [of ?v ?m i "[0] @ putUint16 (r_nextFreeEntryId ?r)" 3] i lan_invD(1) [OF inv] by auto
  have "try_exchange MAX_RETRIES (server_net env addr) pkt addSdrParseRsp c (Some w) = Inr (True, c, Some ?w')"
    using reply_good [OF auth, of rsp ?m] reply_reads(5) [OF auth refl, of ?m rsp] rsp(2-4)
    by (intro exchange_answered [OF trans [OF run rsp(1)]]) (simp_all add: addSdrParseRsp_def)
  moreover have "linked ctx ?w'"
  proof -
    have "lan_inv (w_lan ?w')" using returnRspData_lan_inv [OF rsp(1)] inv by simp
    moreover have "sidToSession (c_sessionId ctx) (w_lan ?w') = Some i"
      using returnRspData_sessions(5) [OF rsp(1), of "c_sessionId ctx"] i by simp
    moreover have "i < length (l_sessions (w_lan w))"
      using slot(1) table_wfD(1) [OF lan_invD(1) [OF inv]] by (simp add: valid_slot_def protodefs)
    ultimately show ?thesis using auth mm by (simp add: linked_def)
  qed
  moreover have "gslice (d_data ?s) 2 (?n + 7) = gslice (d_data e) 2 (?n + 7)"
  proof (rule nth_equalityI)
    fix j assume "j < length (gslice (d_data ?s) 2 (?n + 7))"
    then have j: "j < ?n + 5" by simp
    have "arr (putUint16 (r_nextFreeEntryId ?r) @ gslice pkt 22 (27 + ?n) @ replicate (62 - (?n + 5)) 0) (2 + j)
        = arr (gslice pkt 22 (27 + ?n) @ replicate (62 - (?n + 5)) 0) j"
      by (rule arr_parts) simp
    then have "gslice (d_data ?s) 2 (?n + 7) ! j = arr pkt (20 + (2 + j))"
      using j d(1) n arr_gslice [of j "27 + ?n" 22 pkt] by (simp add: stored_sdr_data arr_append)
    then show "gslice (d_data ?s) 2 (?n + 7) ! j = gslice (d_data e) 2 (?n + 7) ! j"
      using j n(2) serve(2) [of "2 + j"] by simp
  qed simp
  ultimately show ?thesis
    using d by (intro that [of ?w' ?s]) (simp_all add: append_sdr_def)
qed

section \<open>The start of a line card\<close>

text \<open>A step of \<open>bmcInit\<close> that adds an uploadable record of a sensor.\<close>

definition upload_adder ::
  "'n net \<Rightarrow> u32 \<Rightarrow> u8 \<Rightarrow> (world \<times> 'n option \<Rightarrow> (world \<times> 'n option) go) \<Rightarrow> bool" where
  "upload_adder net now num add \<longleftrightarrow> (\<forall>w conn r. r = mc_mainSdrs (w_mc w) \<longrightarrow> r_nextFreeEntryId r < r_maxSdrCount r \<longrightarrow>
     (\<exists>e. add (w, conn) = put_main_sdr net now e (set_sdrs (r\<lparr>r_nextFreeEntryId := r_nextFreeEntryId r + 1\<rparr>) w, conn) \<and>
        uploadable num e))"

lemma mainSdrAdd_upload:
  assumes "unat (idStrLghtCode AND 0x1F) \<le> length idStr" "unat recordLength \<le> 57"
  shows "upload_adder net now num (mainSdrAdd net now a1 a2 a3 a4 recordLength a6 0 num a9 a10 a11 a12 a13 a14 a15 a16 a17 a18 a19
    a20 a21 a22 a23 a24 a25 a26 a27 a28 a29 a30 a31 a32 a33 a34 a35 a36 a37 a38 a39 a40 a41 a42 a43 0 idStrLghtCode idStr)"
  using assms
  by (auto simp: upload_adder_def mainSdrAdd_def Let_def uploadable_def putUint16_def not_le [symmetric])

text \<open>
  Where the start of a line card has got to: the sensors \<open>nums\<close> are installed on the card and their
  records have been appended to those the management module had in \<open>wm0\<close>.
\<close>

definition sensor_keys :: "world \<Rightarrow> (u8 \<times> u8) list" where
  "sensor_keys w = map (\<lambda>e. (d_lun e, d_sensNum e)) (r_sdrs (mc_mainSdrs (w_mc w)))"

definition uploaded :: "world \<Rightarrow> u8 list \<Rightarrow> (world \<times> world option) go \<Rightarrow> bool" where
  "uploaded wm0 nums res \<longleftrightarrow> (\<exists>w wm. res = Inr (w, Some wm) \<and> w_card w > 0 \<and> bmc_state nums w \<and>
     linked (w_ctx w) wm \<and> sensor_keys wm = sensor_keys wm0 @ map (\<lambda>n. (0, n)) nums \<and>
     l_activeSessions (w_lan wm) = l_activeSessions (w_lan wm0))"

lemma find_sensor_keys: "find_sensor lun n (r_sdrs (mc_mainSdrs (w_mc w))) = None \<longleftrightarrow> (lun, n) \<notin> set (sensor_keys w)"
  by (auto simp: find_sensor_simps sensor_keys_def in_set_conv_nth)

lemma linked_sid: "c_sessionId ctx' = c_sessionId ctx \<Longrightarrow> linked ctx' w = linked ctx w"
  by (simp add: linked_def)

lemma uploaded_install:
  assumes up: "uploaded wm0 nums m" and num: "num \<notin> set nums" "num \<noteq> 255" "length nums < 100"
    and new: "(0, num) \<notin> set (sensor_keys wm0)"
    and add: "main_adder (server_net env addr) now num add" "upload_adder (server_net env addr) now num add"
  shows "uploaded wm0 (nums @ [num]) (go_bind (go_bind m (add_sensor bmc 0 num t c)) add)"
proof -
  obtain w wm where w: "m = Inr (w, Some wm)" "w_card w > 0" "bmc_state nums w" "linked (w_ctx w) wm"
    "sensor_keys wm = sensor_keys wm0 @ map (\<lambda>n. (0, n)) nums" "l_activeSessions (w_lan wm) = l_activeSessions (w_lan wm0)"
    using up by (auto simp: uploaded_def)
  have "unat num \<noteq> unat (255 :: u8)" using num(2) by (simp only: word_unat_eq_iff [symmetric]) simp
  then obtain s where s: "add_sensor bmc 0 num t c (w, Some wm) = Inr (w\<lparr>w_mc := set_sensor 0 (unat num) s (w_mc w)\<rparr>, Some wm)"
    using unat_u8_less [of num] by (auto simp: add_sensor_def sensorAdd_def)
  let ?w = "w\<lparr>w_mc := set_sensor 0 (unat num) s (w_mc w)\<rparr>" and ?r = "mc_mainSdrs (w_mc w)"
  let ?w1 = "set_sdrs (?r\<lparr>r_nextFreeEntryId := r_nextFreeEntryId ?r + 1\<rparr>) ?w"
  have "(of_nat (length nums) + 1 :: u16) < 2000"
    using num(3) by (simp add: word_less_nat_alt unat_word_ariths unat_of_nat)
  then have "r_nextFreeEntryId (mc_mainSdrs (w_mc ?w)) < r_maxSdrCount (mc_mainSdrs (w_mc ?w))"
    using w(3) by (simp add: bmc_state_def)
  with add(2) obtain e where e: "add (?w, Some wm) = put_main_sdr (server_net env addr) now e (?w1, Some wm)" "uploadable num e"
    unfolding upload_adder_def by fastforce
  let ?ctx = "snd (addSdrBuildMsg e (w_ctx w))"
  have ctx: "c_sessionId ?ctx = c_sessionId (w_ctx w)" by (simp add: addSdrBuildMsg_def Let_def)
  have "find_sensor 0 num (r_sdrs (mc_mainSdrs (w_mc wm))) = None"
    unfolding find_sensor_keys using w(5) num(1) new by auto
  from upload [OF w(4) e(2) this refl, of env addr ?ctx] obtain wm' s' where up':
    "try_exchange MAX_RETRIES (server_net env addr) (fst (addSdrBuildMsg e (w_ctx w))) addSdrParseRsp ?ctx (Some wm) = Inr (True, ?ctx, Some wm')"
    "linked (w_ctx w) wm'" "r_sdrs (mc_mainSdrs (w_mc wm')) = r_sdrs (mc_mainSdrs (w_mc wm)) @ [s']" "d_lun s' = 0" "d_sensNum s' = num"
    "l_activeSessions (w_lan wm') = l_activeSessions (w_lan wm)"
    by metis
  have run: "go_bind (go_bind m (add_sensor bmc 0 num t c)) add =
      Inr (?w1\<lparr>w_mc := addSdrEntry now e (w_mc ?w1), w_ctx := ?ctx\<rparr>, Some wm')"
    using w(1,2) s e(1) up'(1) by (cases "addSdrBuildMsg e (w_ctx w)") (simp add: put_main_sdr_def set_sdrs_def addSdrEntry_def)
  have "w_card w > 0 \<longrightarrow> Some wm \<noteq> None" by simp
  from install_sensor [OF w(3) num this add(1), of bmc t c] w(1) run
  have "bmc_state (nums @ [num]) (?w1\<lparr>w_mc := addSdrEntry now e (w_mc ?w1), w_ctx := ?ctx\<rparr>)" by auto
  moreover have "linked ?ctx wm'" using up'(2) linked_sid [OF ctx] by simp
  ultimately show ?thesis
    using run w(2,5,6) up'(3-6) unfolding uploaded_def by (auto simp: sensor_keys_def)
qed

lemma uploaded_event:
  assumes up: "uploaded wm0 nums m" and d: "7 \<le> length d"
  shows "uploaded wm0 nums (go_bind m (log_event t d now))"
proof -
  obtain w wm where w: "m = Inr (w, Some wm)" "w_card w > 0" "bmc_state nums w" "linked (w_ctx w) wm"
    "sensor_keys wm = sensor_keys wm0 @ map (\<lambda>n. (0, n)) nums" "l_activeSessions (w_lan wm) = l_activeSessions (w_lan wm0)"
    using up by (auto simp: uploaded_def)
  obtain sl e r where "addToSel t d now (mc_sel (w_mc w)) = Inr (sl, e, r)" using addToSel_total [OF d] by blast
  moreover have "bmc_state nums (set_sel sl w)" for sl using w(3) by (simp add: bmc_state_def)
  moreover have "w_ctx (set_sel sl w) = w_ctx w" for sl by (simp add: set_sel_def)
  ultimately show ?thesis using w by (auto simp: uploaded_def log_event_def)
qed

lemmas uploaded_first = uploaded_install [where m = "Inr st" for st, unfolded go_bind_simps(2)]

lemma bmcInit_uploaded:
  assumes mc: "w_mc w = zero_mc" and card: "w_card w > 0" and link: "linked (w_ctx w) wm"
    and new: "\<forall>n \<in> set (sensor_nums (w_card w)). (0, n) \<notin> set (sensor_keys wm)"
  shows "uploaded wm (sensor_nums (w_card w)) (bmcInit (server_net env addr) now (w, Some wm))"
proof -
  let ?c = "w_card w"
  let ?b = "16 * ?c"
  have low: "x \<noteq> y" if "unat (x :: u8) mod 16 \<noteq> unat y mod 16" for x y using that by auto
  have ne: "1 + ?b \<noteq> 255" "2 + ?b \<noteq> 255" "3 + ?b \<noteq> 255" "4 + ?b \<noteq> 255"
    by (rule low, simp add: sensor_nums_low)+
  have distinct: "2 + ?b \<notin> set ([] @ [1 + ?b])" "3 + ?b \<notin> set (([] @ [1 + ?b]) @ [2 + ?b])"
    "4 + ?b \<notin> set ((([] @ [1 + ?b]) @ [2 + ?b]) @ [3 + ?b])"
    by simp_all
  have keys: "(0, 1 + ?b) \<notin> set (sensor_keys wm)" "(0, 2 + ?b) \<notin> set (sensor_keys wm)"
    "(0, 3 + ?b) \<notin> set (sensor_keys wm)" "(0, 4 + ?b) \<notin> set (sensor_keys wm)"
    using new by (simp_all add: sensor_nums_def)
  have fits: "unat (0xC7 AND 0x1F :: u8) \<le> length ((0x30 + ?c) # name_temp)" "unat (0xC7 AND 0x1F :: u8) \<le> 11"
    "unat (0xCA AND 0x1F :: u8) \<le> length ((0x30 + ?c) # name_voltage)" "unat (0xCA AND 0x1F :: u8) \<le> 11"
    "unat (0xCA AND 0x1F :: u8) \<le> length ((0x30 + ?c) # name_current)"
    "unat (0xCA AND 0x1F :: u8) \<le> length ((0x30 + ?c) # name_fan)"
    "unat (0x32 :: u8) \<le> 57" "unat (0x35 :: u8) \<le> 57"
    by (simp_all add: name_temp_def name_voltage_def name_current_def name_fan_def)
  have rec: "7 \<le> length (selRecord x)" for x by (simp add: selRecord_def)
  have "bmc_state [] (w\<lparr>w_mc := init_mc (w_mc w)\<rparr>)"
    using mc by (simp add: bmc_state_def init_mc_def zero_mc_def zero_sdrs_def sdr_inv_def)
  then have start: "uploaded wm [] (Inr (w\<lparr>w_mc := init_mc (w_mc w)\<rparr>, Some wm))"
    using card link by (simp add: uploaded_def)
  have "uploaded wm (((([] @ [1 + ?b]) @ [2 + ?b]) @ [3 + ?b]) @ [4 + ?b]) (bmcInit (server_net env addr) now (w, Some wm))"
    unfolding bmcInit_def Let_def prod.case go_bind_assoc [symmetric]
    by (intro uploaded_event uploaded_first uploaded_install start distinct ne keys rec;
        (rule mainSdrAdd_adder mainSdrAdd_upload; rule fits)?) simp_all
  then show ?thesis by (simp add: sensor_nums_def)
qed

section \<open>Properties\<close>

text \<open>C2: A line card comes up against its management module. The daemon of a line card, started against a
  management module that runs the daemon with a sound session table, a free session and no records for
  the card's four sensors, connects, opens its session and starts: it never panics, the card ends
  with the records of its sensors 1 to 4 plus 16 times its number, the management module has got
  exactly these four records behind its own, in order, one more session is open, and the card's
  session id is known to the management module.\<close>

theorem line_card_start:
  assumes inv: "lan_inv (w_lan wm)" and room: "l_activeSessions (w_lan wm) < 16" and mm: "w_card wm = 0"
    and card: "(word_of_int cardNum :: u8) > 0"
    and new: "\<forall>n \<in> set (sensor_nums (word_of_int cardNum)). find_sensor 0 n (r_sdrs (mc_mainSdrs (w_mc wm))) = None"
  shows "\<exists>w wm'. Ipmigod (server_net env addr) (Some wm) now False cardNum = Inr (w, Some wm') \<and>
    map d_sensNum (r_sdrs (mc_mainSdrs (w_mc w))) = sensor_nums (word_of_int cardNum) \<and>
    map (\<lambda>e. (d_lun e, d_sensNum e)) (r_sdrs (mc_mainSdrs (w_mc wm'))) =
      map (\<lambda>e. (d_lun e, d_sensNum e)) (r_sdrs (mc_mainSdrs (w_mc wm))) @ map (\<lambda>n. (0, n)) (sensor_nums (word_of_int cardNum)) \<and>
    l_activeSessions (w_lan wm') = l_activeSessions (w_lan wm) + 1 \<and>
    sidToSession (c_sessionId (w_ctx w)) (w_lan wm') \<noteq> None"
proof -
  let ?w = "\<lparr>w_lan = init_lanserv, w_mc = zero_mc, w_card = word_of_int cardNum, w_ctx = init_clientCtx, w_sent = []\<rparr>"
  obtain ctx wm1 i where hs: "ipmiEstablishSession (server_net env addr) (w_ctx ?w) (Some wm) = Inr (ctx, Some wm1)"
    "sidToSession (c_sessionId ctx) (w_lan wm1) = Some i" "l_activeSessions (w_lan wm1) = l_activeSessions (w_lan wm) + 1"
    "w_mc wm1 = w_mc wm" "w_card wm1 = w_card wm" "lan_inv (w_lan wm1)" "s_authtype (l_sessions (w_lan wm1) ! i) = IPMI_AUTHTYPE_NONE"
    by (rule handshake [OF inv room, of env addr "w_ctx ?w"])
  have link: "linked (w_ctx (?w\<lparr>w_ctx := ctx\<rparr>)) wm1" using hs mm by (simp add: linked_def)
  have "\<forall>n \<in> set (sensor_nums (w_card (?w\<lparr>w_ctx := ctx\<rparr>))). (0, n) \<notin> set (sensor_keys wm1)"
    using new hs(4) by (simp add: find_sensor_keys [symmetric])
  from bmcInit_uploaded [OF _ _ link this, of env addr now] card
  have up: "uploaded wm1 (sensor_nums (word_of_int cardNum)) (bmcInit (server_net env addr) now (?w\<lparr>w_ctx := ctx\<rparr>, Some wm1))"
    by simp
  moreover have "Ipmigod (server_net env addr) (Some wm) now False cardNum =
      bmcInit (server_net env addr) now (?w\<lparr>w_ctx := ctx\<rparr>, Some wm1)"
    using hs(1) by (simp add: Ipmigod_def ipmiMMConnect_def)
  ultimately show ?thesis
    using hs(3,4) by (auto simp: uploaded_def bmc_state_def linked_def sensor_keys_def)
qed

theorem line_card_start_witness:
  "\<exists>w wm'. Ipmigod (server_net demo_env 7) (Some demo_server) 9 False 1 = Inr (w, Some wm') \<and>
     map d_sensNum (r_sdrs (mc_mainSdrs (w_mc wm'))) = [17, 18, 19, 20]"
proof -
  have h: "l_activeSessions (w_lan demo_server) < 16" "w_card demo_server = 0" "r_sdrs (mc_mainSdrs (w_mc demo_server)) = []"
    by (simp_all add: demo_server_def demo_world_def set_sel_def zero_mc_def zero_sdrs_def)
  have "\<forall>n \<in> set (sensor_nums (word_of_int 1)). find_sensor 0 n (r_sdrs (mc_mainSdrs (w_mc demo_server))) = None"
    by (simp add: h(3) find_sensor_simps)
  from line_card_start [OF demo_server_inv(1) h(1,2) _ this, of demo_env 7 9] obtain w wm' where
    w: "Ipmigod (server_net demo_env 7) (Some demo_server) 9 False 1 = Inr (w, Some wm')"
      "map (\<lambda>e. (d_lun e, d_sensNum e)) (r_sdrs (mc_mainSdrs (w_mc wm'))) = [(0, 17), (0, 18), (0, 19), (0, 20)]"
    by (auto simp: h(3) sensor_nums_def)
  from arg_cong [OF w(2), of "map snd"] have "map d_sensNum (r_sdrs (mc_mainSdrs (w_mc wm'))) = [17, 18, 19, 20]"
    by (simp add: comp_def)
  with w(1) show ?thesis by (intro exI [of _ w] exI [of _ wm'] conjI)
qed

text \<open>C13: An uploaded record arrives. Over an open session without authentication, sending a record of a
  sensor of logical unit 0 that the management module has no record for (length byte at most 57, byte
  46 zero) succeeds at the first try; the management module appends one record, for that sensor, under
  its own next id, whose data from the third byte on are the sent ones.\<close>

theorem upload_stores:
  assumes "lan_inv (w_lan w)" "w_card w = 0" "sidToSession (c_sessionId ctx) (w_lan w) = Some i"
    "s_authtype (l_sessions (w_lan w) ! i) = IPMI_AUTHTYPE_NONE"
    and "length (d_data e) = 64" "unat (arr (d_data e) 4) \<le> 57" "arr (d_data e) 6 = 0" "arr (d_data e) 46 = 0"
    and "find_sensor 0 (arr (d_data e) 7) (r_sdrs (mc_mainSdrs (w_mc w))) = None"
  shows "\<exists>w' s. try_exchange MAX_RETRIES (server_net env addr) (fst (addSdrBuildMsg e ctx)) addSdrParseRsp c (Some w) =
      Inr (True, c, Some w') \<and>
    r_sdrs (mc_mainSdrs (w_mc w')) = r_sdrs (mc_mainSdrs (w_mc w)) @ [s] \<and> d_sensNum s = arr (d_data e) 7 \<and>
    d_recordId s = r_nextFreeEntryId (mc_mainSdrs (w_mc w)) \<and>
    gslice (d_data s) 2 (unat (arr (d_data e) 4) + 7) = gslice (d_data e) 2 (unat (arr (d_data e) 4) + 7)"
proof -
  have "linked ctx w" "uploadable (arr (d_data e) 7) e" using assms by (simp_all add: linked_def uploadable_def)
  from upload [OF this assms(9) refl, of env addr c] show ?thesis by metis
qed

definition demo_mm :: world where
  "demo_mm = demo_world\<lparr>w_lan := fill_slot init_lanserv\<rparr>"

definition demo_upload :: sdrT where
  "demo_upload = zero_sdr\<lparr>d_data := [0, 0, 0x51, 1, 0x32, 0x20, 0, 17] @ replicate 56 0\<rparr>"

theorem upload_stores_witness:
  "\<exists>w' s. try_exchange MAX_RETRIES (server_net demo_env 7)
       (fst (addSdrBuildMsg demo_upload (init_clientCtx\<lparr>c_sessionId := 130\<rparr>))) addSdrParseRsp init_clientCtx (Some demo_mm) =
     Inr (True, init_clientCtx, Some w') \<and> r_sdrs (mc_mainSdrs (w_mc w')) = [s] \<and> d_sensNum s = 17"
proof -
  let ?ctx = "init_clientCtx\<lparr>c_sessionId := 130\<rparr>"
  have inv: "lan_inv (w_lan demo_mm)" using fill_slots [of 1] by (simp add: demo_mm_def)
  have mm: "w_card demo_mm = 0" "r_sdrs (mc_mainSdrs (w_mc demo_mm)) = []"
    by (simp_all add: demo_mm_def demo_world_def zero_mc_def zero_sdrs_def)
  have s: "sidToSession (c_sessionId ?ctx) (w_lan demo_mm) = Some 1"
    "s_authtype (l_sessions (w_lan demo_mm) ! 1) = IPMI_AUTHTYPE_NONE"
    by code_simp+
  have e: "length (d_data demo_upload) = 64" "unat (arr (d_data demo_upload) 4) \<le> 57" "arr (d_data demo_upload) 6 = 0"
    "arr (d_data demo_upload) 46 = 0" "arr (d_data demo_upload) 7 = 17"
    by code_simp+
  have "find_sensor 0 (arr (d_data demo_upload) 7) (r_sdrs (mc_mainSdrs (w_mc demo_mm))) = None"
    by (simp add: mm find_sensor_simps)
  from upload_stores [OF inv mm(1) s e(1-4) this, of demo_env 7 init_clientCtx] show ?thesis
    by (simp only: mm(2) e(5) append_Nil) blast
qed

end
