(* ===== verification/Sdr_Walk.thy ===== *)
theory Sdr_Walk
  imports Handshake
begin

text \<open>
  Reading the SDR repository over the wire, the way a management console does: a Get SDR request for
  the first record, then one for each next record id that the server's reply names.
\<close>

section \<open>The console's side\<close>



section \<open>The server's side\<close>




section \<open>Properties\<close>



end
