(* ===== verification/Session_Spec.thy ===== *)
theory Session_Spec
  imports Daemon Handshake
begin

text \<open>
  What the session management promises, stated without the code's table: a map from session ids to
  grants, and who may change it how. The specification is the step relation \<open>spec_step\<close> on such maps;
  the whole daemon (parser, dispatch, every handler, the poll) is shown to be a forward simulation
  of it, with \<open>grants\<close> as the abstraction function. The locale \<open>granting_table\<close> is the contract a
  command table keeps for this; every table of the code is an interpretation.
\<close>

section \<open>The specification\<close>

text \<open>
  A datagram that carries the session id \<open>me\<close> may open one new session, if \<open>me\<close> is the temporary id of a
  user; change the privilege of the session \<open>me\<close>, from USER level to the level it was granted; close
  the session \<open>me\<close>, or any other if \<open>me\<close> runs at ADMIN level; or change nothing.
\<close>

inductive spec_step :: "u32 \<Rightarrow> (u32 \<Rightarrow> grant option) \<Rightarrow> (u32 \<Rightarrow> grant option) \<Rightarrow> bool" for me where
  keep: "spec_step me S S"
| open_new: "me AND 1 = 1 \<Longrightarrow> card (dom S) < MAX_SESSIONS \<Longrightarrow> S sid = None \<Longrightarrow> sid AND 1 = 0 \<Longrightarrow>
    u = drop_bit 1 me AND USER_MASK \<Longrightarrow> u = 1 \<or> u = 2 \<Longrightarrow>
    p \<le> u_maxPriv (l_users init_lanserv ! unat u) \<Longrightarrow>
    spec_step me S (S(sid \<mapsto> \<lparr>gr_user = ucast u, gr_priv = IPMI_PRIVILEGE_USER, gr_maxPriv = p\<rparr>))"
| set_priv: "S me = Some g \<Longrightarrow> IPMI_PRIVILEGE_USER \<le> p \<Longrightarrow> p \<le> gr_maxPriv g \<Longrightarrow>
    spec_step me S (S(me \<mapsto> g\<lparr>gr_priv := p\<rparr>))"
| close: "S me = Some g \<Longrightarrow> sid \<in> dom S \<Longrightarrow> sid = me \<or> gr_priv g = IPMI_PRIVILEGE_ADMIN \<Longrightarrow>
    spec_step me S (S(sid := None))"

text \<open>The session id that the bytes of a datagram name (0 where they name none).\<close>

definition sid_of :: "u8 list \<Rightarrow> u32" where
  "sid_of pkt = (let m = received 0 pkt in
     if arr (m_data m) 3 = 7 \<and> arr (m_data m) 4 \<noteq> IPMI_AUTHTYPE_RMCP_PLUS
     then m_sid (ipmiParseRmcpMsg m) else 0)"

text \<open>A run of the specification: it starts without sessions, a poll changes nothing.\<close>

inductive spec_run :: "event list \<Rightarrow> (u32 \<Rightarrow> grant option) \<Rightarrow> bool" where
  start: "spec_run [] Map.empty"
| datagram: "spec_run evs S \<Longrightarrow> spec_step (sid_of pkt) S S' \<Longrightarrow> spec_run (evs @ [Datagram env addr pkt]) S'"
| tick: "spec_run evs S \<Longrightarrow> spec_run (evs @ [Tick rnd]) S"

section \<open>The handlers implement the specification\<close>

definition honours :: "handler \<Rightarrow> bool" where
  "honours h \<longleftrightarrow> (\<forall>env msg w w'. lan_inv (w_lan w) \<longrightarrow> m_sid msg = rs_sid (m_session msg) \<longrightarrow>
     h env msg w = Inr w' \<longrightarrow> spec_step (m_sid msg) (grants (w_lan w)) (grants (w_lan w')))"

lemma honoursI:
  assumes "\<And>env msg w w'. lan_inv (w_lan w) \<Longrightarrow> m_sid msg = rs_sid (m_session msg) \<Longrightarrow>
    h env msg w = Inr w' \<Longrightarrow> spec_step (m_sid msg) (grants (w_lan w)) (grants (w_lan w'))"
  shows "honours h"
  using assms by (simp add: honours_def)

lemma same_grants: "grants l' = grants l \<Longrightarrow> spec_step me (grants l) (grants l')"
  by (simp add: spec_step.keep)

lemma stub_honours: "(\<And>env msg w. h env msg w = Inr w) \<Longrightarrow> honours h"
  by (simp add: honours_def spec_step.keep)

lemma sel_frame_grants: "sel_frame a w w' \<Longrightarrow> grants (w_lan w') = grants (w_lan w)"
  by (auto simp: sel_frame_def rsp_step_def set_sel_def)

lemma sdr_frame_grants: "sdr_frame a w w' \<Longrightarrow> grants (w_lan w') = grants (w_lan w)"
  by (auto simp: sdr_frame_def rsp_step_def)

lemma storage_honours:
  "honours getSelInfo" "honours reserveSel" "honours getSelEntry" "honours addSelEntry" "honours clearSel"
  "honours getSdrRepositoryInfo" "honours reserveSdrRepository" "honours getSdr" "honours addSdr"
  "honours clearSdrRepository" "honours getSensorReading"
  unfolding honours_def
  by (meson same_grants sel_frame_grants sdr_frame_grants sel_command_frame sdr_command_frame addSdr_frame
      getSensorReading_step)+

lemma simple_app_honours:
  "honours getSystemGuid" "honours getChannelCipherSuites" "honours getChannelAuthCapabilties"
  by (rule honoursI; auto simp: app_defs Let_def split: if_splits dest!: reply_grants intro: same_grants)+

lemma getSessionChallenge_honours: "honours getSessionChallenge"
proof (rule honoursI)
  fix env :: goenv and msg :: msgT and w w' :: world
  assume run: "getSessionChallenge env msg w = Inr w'"
  have chall: "grants (l\<lparr>l_nextChallSeq := x\<rparr>) = grants l" for l x by (rule grants_cong) simp
  from run have "grants (w_lan w') = grants (w_lan w)"
    by (auto simp: getSessionChallenge_def Let_def chall split: if_splits option.splits dest!: reply_grants)
  then show "spec_step (m_sid msg) (grants (w_lan w)) (grants (w_lan w'))" by (rule same_grants)
qed

text \<open>Activation: on a temporary id it opens a session, on a session id it renumbers that session.\<close>

lemma opened_grants:
  assumes inv: "lan_inv l" and free: "findFreeSession l = Some i"
  shows "grants (open_session env auth xmitSeq maxPriv user i l) =
    (grants l)(s_sid (opened env auth xmitSeq maxPriv user i l) \<mapsto>
       \<lparr>gr_user = u_idx user, gr_priv = IPMI_PRIVILEGE_USER, gr_maxPriv = maxPriv\<rparr>)"
proof -
  let ?s = "opened env auth xmitSeq maxPriv user i l"
  have i: "valid_slot i" "\<not> s_active (l_sessions l ! i)"
    using findFreeSession_SomeD [OF free] by simp_all
  note wf = lan_invD(1) [OF inv]
  have "grants (put_session i ?s l) = (grants l)(s_sid ?s \<mapsto> grant_of ?s)"
    using i(2) by (intro grants_put [OF wf i(1) opened_fits [OF wf i(1)]]) (simp_all add: opened_active)
  moreover have "grants (open_session env auth xmitSeq maxPriv user i l) = grants (put_session i ?s l)"
    by (rule grants_cong) (simp add: open_session_eq)
  ultimately show ?thesis by (simp add: grant_of_def opened_def)
qed

lemma activation_user:
  assumes inv: "lan_inv l" and granted: "activation_granted msg l" and u: "u = drop_bit 1 (m_sid msg) AND USER_MASK"
  shows "u = 1 \<or> u = 2" "ucast u = u_idx (l_users l ! unat u)"
    "arr (m_data msg) (m_dataStart msg + 1) AND 0xf \<le> u_maxPriv (l_users init_lanserv ! unat u)"
proof -
  have "unat u = 1 \<or> unat u = 2"
    using granted user_index_small [of "m_sid msg"] lan_invD(3) [OF inv]
    by (intro valid_user_index) (auto simp: activation_granted_def Let_def u)
  then show uu: "u = 1 \<or> u = 2" by (auto simp: word_unat_eq_iff)
  then show "ucast u = u_idx (l_users l ! unat u)"
    using lan_invD(3) [OF inv] by auto
  show "arr (m_data msg) (m_dataStart msg + 1) AND 0xf \<le> u_maxPriv (l_users init_lanserv ! unat u)"
    using granted lan_invD(3) [OF inv] by (simp add: activation_granted_def Let_def u)
qed

lemma activation_opens:
  assumes inv: "lan_inv l" and granted: "activation_granted msg l" and free: "findFreeSession l = Some i"
    and sid: "m_sid msg = rs_sid (m_session msg)"
  shows "spec_step (m_sid msg) (grants l) (grants (opened_by env msg i l))"
proof -
  let ?u = "drop_bit 1 (m_sid msg) AND USER_MASK"
  note u = activation_user [OF inv granted refl]
  have room: "card (dom (grants l)) < MAX_SESSIONS"
    using grants_count [OF lan_invD(1) [OF inv]] lan_invD(2) [OF inv] granted
    by (simp add: activation_granted_def Let_def word_less_nat_alt MAX_SESSIONS_def)
  have odd: "m_sid msg AND 1 = 1" using granted sid by (simp add: activation_granted_def Let_def)
  note fits = opened_fits [OF lan_invD(1) [OF inv] findFreeSession_SomeD(1) [OF free]]
  show ?thesis
    unfolding opened_by_def opened_grants [OF inv free] u(2) [symmetric]
    by (rule spec_step.open_new [OF odd room _ _ refl u(1,3)])
      (use fits opened_active opened_unlisted [OF inv free] in \<open>simp_all add: grants_def session_fits_def\<close>)
qed

lemma renumber_grants:
  "grants (put_session i ((l_sessions l ! i)\<lparr>s_xmitSeq := x\<rparr>) l) = grants l"
proof -
  have "\<exists>y. l_sessions (put_session i ((l_sessions l ! i)\<lparr>s_xmitSeq := x\<rparr>) l) ! j = (l_sessions l ! j)\<lparr>s_xmitSeq := y\<rparr>" for j
    by (cases "i = j"; cases "i < length (l_sessions l)")
      (auto simp: list_update_beyond intro: exI [of _ "s_xmitSeq (l_sessions l ! j)"])
  note slot = this
  have keep: "f (l_sessions (put_session i ((l_sessions l ! i)\<lparr>s_xmitSeq := x\<rparr>) l) ! j) = f (l_sessions l ! j)"
    if "\<And>s y. f (s\<lparr>s_xmitSeq := y\<rparr>) = f s" for f :: "sessionT \<Rightarrow> 'a" and j
    using slot [of j] that by metis
  show ?thesis
    by (rule grants_sessions) (rule keep, simp add: grant_of_def)+
qed

lemma activateSession_honours: "honours activateSession"
proof (rule honoursI)
  fix env :: goenv and msg :: msgT and w w' :: world
  assume inv: "lan_inv (w_lan w)" and sid: "m_sid msg = rs_sid (m_session msg)"
    and run: "activateSession env msg w = Inr w'"
  show "spec_step (m_sid msg) (grants (w_lan w)) (grants (w_lan w'))"
  proof (cases "rs_sid (m_session msg) AND 1 = 1")
    case True
    from activateSession_temp_sid [OF True run] show ?thesis
      by (auto split: if_splits intro: spec_step.keep activation_opens [OF inv _ _ sid])
  next
    case False
    from False run have "grants (w_lan w') = grants (w_lan w)"
      by (auto simp: activateSession_def Let_def renumber_grants split: if_splits option.splits dest!: reply_grants)
    then show ?thesis by (rule same_grants)
  qed
qed

text \<open>A change of privilege touches the requesting session only, within its granted range.\<close>

lemma setSessionPrivilege_honours: "honours setSessionPrivilege"
proof (rule honoursI)
  fix env :: goenv and msg :: msgT and w w' :: world
  assume inv: "lan_inv (w_lan w)" and run: "setSessionPrivilege env msg w = Inr w'"
  let ?p = "arr (m_data msg) (m_dataStart msg) AND 0xf"
  consider (none) "grants (w_lan w') = grants (w_lan w)"
    | (set) i s p where "sidToSession (m_sid msg) (w_lan w) = Some i" "s = l_sessions (w_lan w) ! i"
      "p = (if ?p = 0 then s_priv s else ?p)" "p \<noteq> IPMI_PRIVILEGE_CALLBACK" "p \<le> s_maxPriv s"
      "grants (w_lan w') = grants (put_session i (s\<lparr>s_priv := p\<rparr>) (w_lan w))"
    using run by (auto simp: setSessionPrivilege_def Let_def not_less split: if_splits option.splits
        dest!: reply_grants)
  then show "spec_step (m_sid msg) (grants (w_lan w)) (grants (w_lan w'))"
  proof cases
    case none
    then show ?thesis by (rule same_grants)
  next
    case set
    note wf = lan_invD(1) [OF inv]
    have i: "valid_slot i" "s_active s" "s_sid s = m_sid msg"
      using set(1,2) by (simp_all add: sidToSession_iff [OF wf])
    have "session_fits i (s\<lparr>s_priv := p\<rparr>)"
      using table_wfD(3) [OF wf i(1)] set(2) by (simp add: session_fits_def)
    from grants_put [OF wf i(1) this] i set(2)
    have new: "grants (w_lan w') = (grants (w_lan w))(m_sid msg \<mapsto> (grant_of s)\<lparr>gr_priv := p\<rparr>)"
      by (simp add: set(6) grant_of_def)
    have nonzero: "IPMI_PRIVILEGE_USER \<noteq> 0" by (simp add: protodefs)
    have "session_ok (w_lan w) s" using lan_invD(7) [OF inv i(1)] i(2) set(2) by simp
    then have "IPMI_PRIVILEGE_USER \<le> p"
      using set(3,4) nonzero by (auto simp: session_ok_def user_level_le split: if_splits)
    then show ?thesis
      unfolding new
      by (intro spec_step.set_priv) (use set in \<open>simp_all add: grants_def grant_of_def\<close>)
  qed
qed

lemma close_target_grants:
  assumes run: "close_target msg i t w = Inr w'" and inv: "lan_inv (w_lan w)"
    and i: "sidToSession (m_sid msg) (w_lan w) = Some i" and t: "sidToSession sid (w_lan w) = Some t"
  shows "grants (w_lan w') = (grants (w_lan w))(sid := None)"
proof -
  obtain v where v: "returnErr msg (Some (Slot i)) 0 w = Inr v" "w' = v\<lparr>w_lan := free_session t (w_lan v)\<rparr>"
    using run by (auto simp: close_target_def)
  let ?s = "(l_sessions (w_lan v) ! t)\<lparr>s_active := False\<rparr>"
  have vwf: "table_wf (w_lan v)"
    using returnErr_lan_inv [OF v(1) inv ref_ok_lookup [OF inv i]] by (rule lan_invD)
  have vt: "sidToSession sid (w_lan v) = Some t"
    using t returnErr_sessions(5) [OF v(1)] by simp
  then have "session_fits t ?s"
    using table_wfD(3) [OF vwf] by (simp add: sidToSession_iff [OF vwf] session_fits_def)
  moreover have "grants (free_session t (w_lan v)) = grants (put_session t ?s (w_lan v))"
    by (rule grants_cong) (simp add: free_session_def)
  ultimately show ?thesis
    using grants_close [OF vwf vt] v(2) reply_grants(1) [OF v(1)] by simp
qed

lemma closeSession_honours: "honours closeSession"
proof (rule honoursI)
  fix env :: goenv and msg :: msgT and w w' :: world
  assume inv: "lan_inv (w_lan w)" and run: "closeSession env msg w = Inr w'"
  show "spec_step (m_sid msg) (grants (w_lan w)) (grants (w_lan w'))"
    using run inv
  proof (cases rule: closeSession_cases)
    case (refused session e)
    then show ?thesis by (intro same_grants reply_grants)
  next
    case (closed i t)
    let ?sid = "getUint32 (m_data msg) (m_dataStart msg)"
    have new: "grants (w_lan w') = (grants (w_lan w))(?sid := None)"
      by (rule close_target_grants [OF closed(4) inv closed(1,2)])
    have "?sid = m_sid msg" if "t = i"
      using closed(1,2) that by (simp add: sidToSession_iff [OF lan_invD(1) [OF inv]])
    with closed(3) show ?thesis
      unfolding new
      by (intro spec_step.close) (use closed in \<open>auto simp: grants_def grant_of_def\<close>)
  qed
qed

section \<open>The tables and the dispatcher\<close>

locale granting_table =
  fixes table :: "u8 \<Rightarrow> handler option"
  assumes honoured: "table c = Some h \<Longrightarrow> honours h"
begin

lemma call_honours:
  "call (table c) env msg w = Inr w' \<Longrightarrow> lan_inv (w_lan w) \<Longrightarrow> m_sid msg = rs_sid (m_session msg) \<Longrightarrow>
    spec_step (m_sid msg) (grants (w_lan w)) (grants (w_lan w'))"
  using honoured [of c] by (cases "table c") (simp_all add: honours_def)

lemma processor_honours: "(\<And>env msg w. h env msg w = call (table (rm_cmd (m_message msg))) env msg w) \<Longrightarrow> honours h"
  using call_honours by (simp add: honours_def)

end

lemmas honoured_handlers = storage_honours simple_app_honours getSessionChallenge_honours activateSession_honours
  setSessionPrivilege_honours closeSession_honours

interpretation chassis_grants: granting_table chassisProcessors
proof
  show "honours h" if "chassisProcessors c = Some h" for c h
    using that unfolding chassisProcessors_def by (elim table_ok [rotated]) (simp add: stub_honours stubs)
qed

interpretation sensor_grants: granting_table sensorProcessors
proof
  show "honours h" if "sensorProcessors c = Some h" for c h
    using that unfolding sensorProcessors_def
    by (elim table_ok [rotated]) (simp add: stub_honours stubs honoured_handlers)
qed

interpretation app_grants: granting_table appProcessors
proof
  show "honours h" if "appProcessors c = Some h" for c h
    using that unfolding appProcessors_def
    by (elim table_ok [rotated]) (simp add: stub_honours stubs honoured_handlers)
qed

interpretation storage_grants: granting_table storageProcessors
proof
  show "honours h" if "storageProcessors c = Some h" for c h
    using that unfolding storageProcessors_def
    by (elim table_ok [rotated]) (simp add: stub_honours stubs honoured_handlers)
qed

interpretation netfn_grants: granting_table netfuncProcessors
proof
  show "honours h" if "netfuncProcessors c = Some h" for c h
    using that unfolding netfuncProcessors_def
    by (elim table_ok [rotated])
      (simp add: stub_honours stubs chassis_grants.processor_honours [OF chassisNetfn_def]
        sensor_grants.processor_honours [OF sensorEventNetfn_def]
        app_grants.processor_honours [OF appNetfn_def] storage_grants.processor_honours [OF storageNetfn_def])
qed

lemma parsed_sid:
  assumes "parsed addr pkt w = (m, v)"
  shows "m_sid m = sid_of pkt" "rs_sid (m_session m) = m_sid m"
proof -
  have zero: "m_dataStart (received a pkt) = 0" for a by (simp add: received_def)
  have "m_sid (ipmiParseRmcpMsg ((received addr pkt)\<lparr>m_channel := c\<rparr>)) = m_sid (ipmiParseRmcpMsg (received 0 pkt)) \<and>
      rs_sid (m_session (ipmiParseRmcpMsg ((received addr pkt)\<lparr>m_channel := c\<rparr>))) =
      m_sid (ipmiParseRmcpMsg ((received addr pkt)\<lparr>m_channel := c\<rparr>))" for c
    by (simp add: ipmiParseRmcpMsg_def received_def zero_rmcp_session_def Let_def)
  then have "m_sid m = sid_of pkt \<and> rs_sid (m_session m) = m_sid m"
    using assms by (auto simp: parsed_def sid_of_def ipmiParseMsg_def Let_def zero split: if_splits)
      (simp_all add: received_def zero_rmcp_session_def)
  then show "m_sid m = sid_of pkt" "rs_sid (m_session m) = m_sid m" by simp_all
qed

lemma handle_honours:
  assumes run: "ipmiHandleMsg env (received addr pkt) w = Inr w'" and inv: "lan_inv (w_lan w)"
  shows "spec_step (sid_of pkt) (grants (w_lan w)) (grants (w_lan w'))"
proof (cases "length pkt < 5")
  case True
  with run show ?thesis by (simp add: handle_short spec_step.keep)
next
  case False
  then have len: "5 \<le> length pkt" by simp
  show ?thesis
  proof (cases rule: parsed_cases [of addr pkt w])
    case ping
    have "w_lan (asfPing m w) = w_lan w" for m by (simp add: asfPing_def Let_def)
    with handle_ping [OF len ping, of env] run show ?thesis by (auto intro: same_grants)
  next
    case (request m)
    note sid = parsed_sid [OF request(1)]
    from handle_request [OF len request(1,3), of env] run
    have "call (netfuncProcessors (rm_netfn (m_message m))) env m w = Inr w'" by simp
    from netfn_grants.call_honours [OF this inv] sid show ?thesis by simp
  qed
qed

section \<open>Runs\<close>

lemma init_grants: "grants init_lanserv = Map.empty"
proof
  fix sid
  have "sidToSession sid init_lanserv = None"
  proof (cases "sidToSession sid init_lanserv")
    case (Some i)
    note i = sidToSession_SomeD(2,3) [OF Some]
    then show ?thesis
      by (cases i) (simp_all add: sessions_init zero_session_def nth_upt del: upt_Suc)
  qed
  then show "grants init_lanserv sid = None" by (simp add: grants_def)
qed

lemma run_refines:
  assumes "daemon_run net evs (w, conn)"
  shows "spec_run evs (grants (w_lan w))"
  using assms
proof (induction evs "(w, conn)" arbitrary: w conn rule: daemon_run.induct)
  case (boot dialled now mmCardMode cardNum)
  have "grants init_lanserv = Map.empty" by (rule init_grants)
  with start_state_inv [OF boot] show ?case by (simp add: spec_run.start)
next
  case (more evs st ev w' conn')
  obtain w conn where st: "st = (w, conn)" by fastforce
  from run_state_inv [OF more.hyps(1) [unfolded st]] have inv: "state_inv (w, conn)" by simp
  note run = more.hyps(2) [OF st]
  from more.hyps(3) [unfolded st] show ?case
  proof (cases rule: daemon_step.cases)
    case (serve env addr pkt)
    then have "spec_step (sid_of pkt) (grants (w_lan w)) (grants (w_lan w'))"
      using inv by (intro handle_honours) (simp_all add: state_inv_def world_inv_def)
    with spec_run.datagram [OF run this] serve show ?thesis by simp
  next
    case (poll rnd)
    then have "w_lan w' = w_lan w" using poll_state_inv [OF inv] by simp
    with spec_run.tick [OF run] poll show ?thesis by simp
  qed
qed

text \<open>In the specification a session leaves USER level only by a datagram that names it.\<close>

lemma step_escalation:
  assumes "spec_step me S S'" "S' sid = Some g" "gr_priv g \<noteq> IPMI_PRIVILEGE_USER"
  shows "S sid = Some g \<or> sid = me"
  using assms(1)
proof (cases rule: spec_step.cases)
  case (open_new sid' u p)
  with assms(2,3) show ?thesis by (cases "sid = sid'") auto
next
  case (set_priv g' p)
  with assms(2) show ?thesis by (cases "sid = me") simp_all
next
  case (close g' sid')
  with assms(2) show ?thesis by (cases "sid = sid'") simp_all
qed (use assms(2) in simp)

lemma spec_escalation:
  assumes "spec_run evs S" "S sid = Some g" "gr_priv g \<noteq> IPMI_PRIVILEGE_USER"
  shows "\<exists>env addr pkt. Datagram env addr pkt \<in> set evs \<and> sid_of pkt = sid"
  using assms
proof (induction arbitrary: g rule: spec_run.induct)
  case (datagram evs S pkt S' env addr)
  from step_escalation [OF datagram.hyps(2) datagram.prems] show ?case
  proof
    assume "S sid = Some g"
    then obtain env addr pkt where "Datagram env addr pkt \<in> set evs \<and> sid_of pkt = sid"
      using datagram.IH datagram.prems(2) by blast
    then show ?thesis by auto
  qed auto
qed auto

text \<open>
  A run in which a client opens a session and raises it to OPERATOR, in two datagrams: the
  activation needs no challenge before it.
\<close>

lemma demo_escalation:
  obtains pkt1 pkt2 w conn sid i where
    "daemon_run demo_net [Datagram demo_env 7 pkt1, Datagram demo_env 7 pkt2] (w, conn)"
    "sidToSession sid (w_lan w) = Some i" "s_priv (l_sessions (w_lan w) ! i) = IPMI_PRIVILEGE_OPERATOR"
proof -
  obtain w conn where boot: "Ipmigod demo_net None 9 True 0 = Inr (w, conn)" using demo_boot by blast
  have lan: "w_lan w = init_lanserv" using start_state_inv [OF boot] by simp
  have inv: "lan_inv (w_lan w)" unfolding lan by (rule lan_inv_init)
  have room: "l_activeSessions (w_lan w) < 16" by (simp add: lan)
  then obtain i where i: "findFreeSession (w_lan w) = Some i"
    using free_slot_exists [OF inv] by (auto simp: word_less_nat_alt)
  let ?ctx = "init_clientCtx\<lparr>c_tempSessionId := mk_temp_sid 0 2\<rparr>"
  let ?s = "opened demo_env 0 INITIAL_OUTBOUND_SEQ 3 user2 i (w_lan w)"
  let ?l = "open_session demo_env 0 INITIAL_OUTBOUND_SEQ 3 user2 i (w_lan w)"
  obtain r1 where r1: "ipmiHandleMsg demo_env (received 7 (fst (asBuildMsg 0x1D ?ctx))) w = Inr (send_to 7 r1 (w\<lparr>w_lan := ?l\<rparr>))"
    by (rule activate_served [OF inv room _ i refl, of ?ctx 0]) simp_all
  let ?w1 = "send_to 7 r1 (w\<lparr>w_lan := ?l\<rparr>)"
  have run1: "daemon_run demo_net ([] @ [Datagram demo_env 7 (fst (asBuildMsg 0x1D ?ctx))]) (?w1, conn)"
    by (rule daemon_run.more [OF daemon_run.boot [OF boot]]) (rule daemon_step.serve [OF r1])
  have inv1: "lan_inv (w_lan ?w1)"
    using run_state_inv [OF run1] by (simp add: state_inv_def world_inv_def)
  let ?ctx2 = "init_clientCtx\<lparr>c_sessionId := s_sid ?s, c_maxPrivLevel := 3\<rparr>"
  have look: "sidToSession (c_sessionId ?ctx2) (w_lan ?w1) = Some i"
    using open_session_lookup(1) [OF inv i] by simp
  have slot: "i < length (l_sessions (w_lan w))"
    using findFreeSession_SomeD(1) [OF i] table_wfD(1) [OF lan_invD(1) [OF inv]] by (simp add: valid_slot_def protodefs)
  then have s1: "l_sessions (w_lan ?w1) ! i = ?s" by (simp add: open_session_eq)
  obtain r2 x where r2: "ipmiHandleMsg demo_env (received 7 (fst (sspBuildMsg 8 ?ctx2))) ?w1 =
      Inr (send_to 7 r2 (?w1\<lparr>w_lan := put_session i ((l_sessions (w_lan ?w1) ! i)\<lparr>s_priv := 3, s_xmitSeq := x\<rparr>) (w_lan ?w1)\<rparr>))"
    (is "_ = Inr ?w2")
    by (rule privilege_served [OF inv1 look _ _ _ refl]) (use s1 in \<open>simp_all add: opened_def protodefs\<close>)
  have run2: "daemon_run demo_net ([Datagram demo_env 7 (fst (asBuildMsg 0x1D ?ctx))] @
      [Datagram demo_env 7 (fst (sspBuildMsg 8 ?ctx2))]) (?w2, conn)"
    using daemon_run.more [OF run1 daemon_step.serve [OF r2]] by simp
  have inv2: "lan_inv (w_lan ?w2)"
    using run_state_inv [OF run2] by (simp add: state_inv_def world_inv_def)
  have slot1: "i < length (l_sessions (w_lan ?w1))" using slot by (simp add: open_session_eq)
  have "s_active (l_sessions (w_lan ?w1) ! i)" "s_sid (l_sessions (w_lan ?w1) ! i) = s_sid ?s"
    unfolding s1 by (simp_all add: opened_def)
  then have "sidToSession (s_sid ?s) (w_lan ?w2) = Some i"
    using slot1 findFreeSession_SomeD(1) [OF i]
    by (subst sidToSession_iff [OF lan_invD(1) [OF inv2]]) simp
  moreover have "s_priv (l_sessions (w_lan ?w2) ! i) = IPMI_PRIVILEGE_OPERATOR"
    using slot1 by (simp add: protodefs)
  ultimately show ?thesis using that run2 by simp
qed

section \<open>Properties\<close>

text \<open>C1: The daemon implements the session specification. In every run, the map from session ids to users and
  privileges that the session table stands for is one the specification allows after the same events:
  a session appears only by a datagram with a temporary id of user 1 or 2, at USER level and within
  that user's maximum; its privilege changes only by a datagram that names it; it disappears only by a
  datagram that names it or an ADMIN session; and no other command, poll or malformed
  datagram changes the map.\<close>

theorem daemon_refines_sessions:
  assumes "daemon_run net evs (w, conn)"
  shows "spec_run evs (grants (w_lan w))"
  using assms by (rule run_refines)

theorem daemon_refines_sessions_witness:
  "\<exists>pkt1 pkt2 w conn sid. daemon_run demo_net [Datagram demo_env 7 pkt1, Datagram demo_env 7 pkt2] (w, conn) \<and>
     grants (w_lan w) sid \<noteq> None \<and> spec_run [Datagram demo_env 7 pkt1, Datagram demo_env 7 pkt2] (grants (w_lan w))"
proof -
  obtain pkt1 pkt2 w conn sid i where
    run: "daemon_run demo_net [Datagram demo_env 7 pkt1, Datagram demo_env 7 pkt2] (w, conn)"
    and s: "sidToSession sid (w_lan w) = Some i"
    by (rule demo_escalation)
  from s have "grants (w_lan w) sid \<noteq> None" by (simp add: grants_def)
  with run daemon_refines_sessions [OF run] show ?thesis by blast
qed

text \<open>C16: Nobody gains privileges by another session's requests. Whenever an open session runs at another level
  than USER, some datagram of the run named that session's id.\<close>

theorem escalation_needs_sid:
  assumes "daemon_run net evs (w, conn)" "sidToSession sid (w_lan w) = Some i"
    "s_priv (l_sessions (w_lan w) ! i) \<noteq> IPMI_PRIVILEGE_USER"
  shows "\<exists>env addr pkt. Datagram env addr pkt \<in> set evs \<and> sid_of pkt = sid"
  by (rule spec_escalation [OF run_refines [OF assms(1)], of sid "grant_of (l_sessions (w_lan w) ! i)"])
    (use assms in \<open>simp_all add: grants_def grant_of_def\<close>)

theorem escalation_needs_sid_witness:
  "\<exists>pkt1 pkt2 w conn sid i. daemon_run demo_net [Datagram demo_env 7 pkt1, Datagram demo_env 7 pkt2] (w, conn) \<and>
     sidToSession sid (w_lan w) = Some i \<and> s_priv (l_sessions (w_lan w) ! i) = IPMI_PRIVILEGE_OPERATOR \<and>
     (sid_of pkt1 = sid \<or> sid_of pkt2 = sid)"
proof -
  obtain pkt1 pkt2 w conn sid i where
    run: "daemon_run demo_net [Datagram demo_env 7 pkt1, Datagram demo_env 7 pkt2] (w, conn)"
    and s: "sidToSession sid (w_lan w) = Some i" "s_priv (l_sessions (w_lan w) ! i) = IPMI_PRIVILEGE_OPERATOR"
    by (rule demo_escalation)
  have "IPMI_PRIVILEGE_OPERATOR \<noteq> IPMI_PRIVILEGE_USER" by (simp add: protodefs)
  with s have "s_priv (l_sessions (w_lan w) ! i) \<noteq> IPMI_PRIVILEGE_USER" by simp
  from escalation_needs_sid [OF run s(1) this] have "sid_of pkt1 = sid \<or> sid_of pkt2 = sid" by auto
  with run s show ?thesis by blast
qed

text \<open>C9: Closing a session does exactly what it may. A Close Session request on an open session that names an
  open session is answered; if it is its own, or the requester runs at ADMIN level, exactly the named
  session is closed, and the server's session counter and the number of active slots fall by one;
  otherwise every session stays open as it was and the counter keeps its value.\<close>

theorem closeSession_exact:
  assumes inv: "lan_inv (w_lan w)" and i: "sidToSession (m_sid msg) (w_lan w) = Some i"
    and len: "4 \<le> m_dataLen msg" and sid: "sid = getUint32 (m_data msg) (m_dataStart msg)"
    and t: "sidToSession sid (w_lan w) = Some t"
  shows "\<exists>w'. closeSession env msg w = Inr w' \<and>
    (if sid = m_sid msg \<or> s_priv (l_sessions (w_lan w) ! i) = IPMI_PRIVILEGE_ADMIN
     then grants (w_lan w') = (grants (w_lan w))(sid := None) \<and>
       0 < l_activeSessions (w_lan w) \<and> l_activeSessions (w_lan w') = l_activeSessions (w_lan w) - 1 \<and>
       active_count (w_lan w') = active_count (w_lan w) - 1
     else grants (w_lan w') = grants (w_lan w) \<and> l_activeSessions (w_lan w') = l_activeSessions (w_lan w) \<and>
       active_count (w_lan w') = active_count (w_lan w))"
proof -
  let ?si = "l_sessions (w_lan w) ! i"
  have own: "s_sid ?si = m_sid msg" using i by (rule sidToSession_SomeD)
  have run: "closeSession env msg w =
    (if sid = m_sid msg then close_target msg i i w
     else if s_priv ?si = IPMI_PRIVILEGE_ADMIN then close_target msg i t w
     else returnErr msg (Some (Slot i)) IPMI_INSUFFICIENT_PRIVILEGE_CC w)"
    using i len t own by (simp add: closeSession_def Let_def sid)
  show ?thesis
  proof (cases "sid = m_sid msg \<or> s_priv ?si = IPMI_PRIVILEGE_ADMIN")
    case True
    moreover have "t = i" if "sid = m_sid msg" using i t that by simp
    ultimately have close: "closeSession env msg w = close_target msg i t w" by (auto simp: run)
    obtain v where "returnErr msg (Some (Slot i)) 0 w = Inr v"
      using returnErr_total [of msg "Some (Slot i)" 0 w] by blast
    then have c: "close_target msg i t w = Inr (v\<lparr>w_lan := free_session t (w_lan v)\<rparr>)" (is "_ = Inr ?w'")
      by (simp add: close_target_def)
    note effect = close_target_effect [OF c inv i t]
    have "valid_slot t" "s_active (l_sessions (w_lan w) ! t)"
      using t by (simp_all add: sidToSession_iff [OF lan_invD(1) [OF inv]])
    then have "0 < unat (l_activeSessions (w_lan w))"
      using active_count_pos [OF lan_invD(1) [OF inv]] lan_invD(2) [OF inv] by simp
    then have pos: "0 < l_activeSessions (w_lan w)" by (simp add: word_less_nat_alt)
    then have "unat (l_activeSessions (w_lan w) - 1) = unat (l_activeSessions (w_lan w)) - 1"
      by (simp add: unat_minus_one)
    then have "active_count (w_lan ?w') = active_count (w_lan w) - 1"
      using lan_invD(2) [OF inv] lan_invD(2) [OF effect(1)] effect(5) by simp
    with True close c close_target_grants [OF c inv i t] pos effect(5) show ?thesis by auto
  next
    case False
    obtain v where v: "returnErr msg (Some (Slot i)) IPMI_INSUFFICIENT_PRIVILEGE_CC w = Inr v"
      using returnErr_total [of msg "Some (Slot i)"] by blast
    have "lan_inv (w_lan v)" by (rule returnErr_lan_inv [OF v inv ref_ok_lookup [OF inv i]])
    then have "active_count (w_lan v) = active_count (w_lan w)"
      using lan_invD(2) [OF inv] lan_invD(2) returnErr_sessions(4) [OF v] by metis
    with False run v reply_grants(1) [OF v] returnErr_sessions(4) [OF v] show ?thesis by auto
  qed
qed

theorem closeSession_exact_witness:
  "\<exists>w w' sid. grants (w_lan w) sid \<noteq> None \<and> closeSession demo_env (demo_msg sid (putUint32 sid)) w = Inr w' \<and>
     grants (w_lan w') sid = None"
proof -
  obtain pkt1 pkt2 w1 conn s i where
    run: "daemon_run demo_net [Datagram demo_env 7 pkt1, Datagram demo_env 7 pkt2] (w1, conn)"
    and s1: "sidToSession s (w_lan w1) = Some i"
    by (rule demo_escalation)
  have inv: "lan_inv (w_lan w1)" using run_state_inv [OF run] by (simp add: state_inv_def world_inv_def)
  let ?m = "demo_msg s (putUint32 s)"
  have m: "m_sid ?m = s" "4 \<le> m_dataLen ?m" "s = getUint32 (m_data ?m) (m_dataStart ?m)"
    using getUint32_put [of "[]" s "[]"] by (simp_all add: demo_msg_def)
  from closeSession_exact [OF inv _ m(2,3) s1, of i demo_env] s1 m(1)
  obtain w2 where "closeSession demo_env ?m w1 = Inr w2" "grants (w_lan w2) = (grants (w_lan w1))(s := None)" by auto
  moreover have "grants (w_lan w1) s \<noteq> None" using s1 by (simp add: grants_def)
  ultimately show ?thesis by fastforce
qed

end
