(* ===== verification/Bridge_Transport.thy ===== *)
theory Bridge_Transport
  imports Dispatch
begin

text \<open>
  The bridge and transport command tables of \<open>ipmi_proto.go\<close> with their handlers
  (\<open>ipmi_internal_bridge.go\<close>, \<open>ipmi_internal_transport.go\<close>, all with empty bodies). The program
  builds both tables and looks nothing up in them: \<open>bridgeNetfn\<close> and \<open>transportNetfn\<close> only print
  that the network function is not supported.
\<close>

section \<open>Bridge commands\<close>

definition GET_BRIDGE_STATE_CMD :: u8 where [protodefs]: "GET_BRIDGE_STATE_CMD = 0x00"
definition SET_BRIDGE_STATE_CMD :: u8 where [protodefs]: "SET_BRIDGE_STATE_CMD = 0x01"
definition GET_ICMB_ADDRESS_CMD :: u8 where [protodefs]: "GET_ICMB_ADDRESS_CMD = 0x02"
definition SET_ICMB_ADDRESS_CMD :: u8 where [protodefs]: "SET_ICMB_ADDRESS_CMD = 0x03"
definition SET_BRIDGE_PROXY_ADDRESS_CMD :: u8 where [protodefs]: "SET_BRIDGE_PROXY_ADDRESS_CMD = 0x04"
definition GET_BRIDGE_STATISTICS_CMD :: u8 where [protodefs]: "GET_BRIDGE_STATISTICS_CMD = 0x05"
definition GET_ICMB_CAPABILITIES_CMD :: u8 where [protodefs]: "GET_ICMB_CAPABILITIES_CMD = 0x06"
definition CLEAR_BRIDGE_STATISTICS_CMD :: u8 where [protodefs]: "CLEAR_BRIDGE_STATISTICS_CMD = 0x08"
definition GET_BRIDGE_PROXY_ADDRESS_CMD :: u8 where [protodefs]: "GET_BRIDGE_PROXY_ADDRESS_CMD = 0x09"
definition GET_ICMB_CONNECTOR_INFO_CMD :: u8 where [protodefs]: "GET_ICMB_CONNECTOR_INFO_CMD = 0x0a"
definition SET_ICMB_CONNECTOR_INFO_CMD :: u8 where [protodefs]: "SET_ICMB_CONNECTOR_INFO_CMD = 0x0b"
definition SEND_ICMB_CONNECTION_ID_CMD :: u8 where [protodefs]: "SEND_ICMB_CONNECTION_ID_CMD = 0x0c"
definition PREPARE_FOR_DISCOVERY_CMD :: u8 where [protodefs]: "PREPARE_FOR_DISCOVERY_CMD = 0x10"
definition GET_ADDRESSES_CMD :: u8 where [protodefs]: "GET_ADDRESSES_CMD = 0x11"
definition SET_DISCOVERED_CMD :: u8 where [protodefs]: "SET_DISCOVERED_CMD = 0x12"
definition GET_CHASSIS_DEVICE_ID_CMD :: u8 where [protodefs]: "GET_CHASSIS_DEVICE_ID_CMD = 0x13"
definition SET_CHASSIS_DEVICE_ID_CMD :: u8 where [protodefs]: "SET_CHASSIS_DEVICE_ID_CMD = 0x14"
definition BRIDGE_REQUEST_CMD :: u8 where [protodefs]: "BRIDGE_REQUEST_CMD = 0x20"
definition BRIDGE_MESSAGE_CMD :: u8 where [protodefs]: "BRIDGE_MESSAGE_CMD = 0x21"
definition GET_EVENT_COUNT_CMD :: u8 where [protodefs]: "GET_EVENT_COUNT_CMD = 0x30"
definition SET_EVENT_DESTINATION_CMD :: u8 where [protodefs]: "SET_EVENT_DESTINATION_CMD = 0x31"
definition SET_EVENT_RECEPTION_STATE_CMD :: u8 where [protodefs]: "SET_EVENT_RECEPTION_STATE_CMD = 0x32"
definition SEND_ICMB_EVENT_MESSAGE_CMD :: u8 where [protodefs]: "SEND_ICMB_EVENT_MESSAGE_CMD = 0x33"
definition GET_EVENT_DESTIATION_CMD :: u8 where [protodefs]: "GET_EVENT_DESTIATION_CMD = 0x34"
definition GET_EVENT_RECEPTION_STATE_CMD :: u8 where [protodefs]: "GET_EVENT_RECEPTION_STATE_CMD = 0x35"
definition ERROR_REPORT_CMD :: u8 where [protodefs]: "ERROR_REPORT_CMD = 0xff"

definition getBridgeState :: handler where
  [stubs]: "getBridgeState env msg w = Inr w"
definition setBridgeState :: handler where
  [stubs]: "setBridgeState env msg w = Inr w"
definition getIcmbAddress :: handler where
  [stubs]: "getIcmbAddress env msg w = Inr w"
definition setIcmbAddress :: handler where
  [stubs]: "setIcmbAddress env msg w = Inr w"
definition setBridgeProxyAddress :: handler where
  [stubs]: "setBridgeProxyAddress env msg w = Inr w"
definition getBridgeStatistics :: handler where
  [stubs]: "getBridgeStatistics env msg w = Inr w"
definition getIcmbCapabilities :: handler where
  [stubs]: "getIcmbCapabilities env msg w = Inr w"
definition clearBridgeStatistics :: handler where
  [stubs]: "clearBridgeStatistics env msg w = Inr w"
definition getBridgeProxyAddress :: handler where
  [stubs]: "getBridgeProxyAddress env msg w = Inr w"
definition getIcmbConnectorInfo :: handler where
  [stubs]: "getIcmbConnectorInfo env msg w = Inr w"
definition setIcmbConnectorInfo :: handler where
  [stubs]: "setIcmbConnectorInfo env msg w = Inr w"
definition sendIcmbConnectionId :: handler where
  [stubs]: "sendIcmbConnectionId env msg w = Inr w"
definition prepareForDiscovery :: handler where
  [stubs]: "prepareForDiscovery env msg w = Inr w"
definition getAddresses :: handler where
  [stubs]: "getAddresses env msg w = Inr w"
definition setDiscovered :: handler where
  [stubs]: "setDiscovered env msg w = Inr w"
definition getChassisDeviceId :: handler where
  [stubs]: "getChassisDeviceId env msg w = Inr w"
definition setChassisDeviceId :: handler where
  [stubs]: "setChassisDeviceId env msg w = Inr w"
definition bridgeRequest :: handler where
  [stubs]: "bridgeRequest env msg w = Inr w"
definition bridgeMessage :: handler where
  [stubs]: "bridgeMessage env msg w = Inr w"
definition getEventCount :: handler where
  [stubs]: "getEventCount env msg w = Inr w"
definition setEventDestination :: handler where
  [stubs]: "setEventDestination env msg w = Inr w"
definition setEventReceptionState :: handler where
  [stubs]: "setEventReceptionState env msg w = Inr w"
definition sendIcmbEventMessage :: handler where
  [stubs]: "sendIcmbEventMessage env msg w = Inr w"
definition getEventDestination :: handler where
  [stubs]: "getEventDestination env msg w = Inr w"
definition getEventReceptionState :: handler where
  [stubs]: "getEventReceptionState env msg w = Inr w"
definition errorReport :: handler where
  [stubs]: "errorReport env msg w = Inr w"

definition bridgeProcessors :: "u8 \<Rightarrow> handler option" where
  "bridgeProcessors = map_of
     [(GET_BRIDGE_STATE_CMD, getBridgeState),
      (SET_BRIDGE_STATE_CMD, setBridgeState),
      (GET_ICMB_ADDRESS_CMD, getIcmbAddress),
      (SET_ICMB_ADDRESS_CMD, setIcmbAddress),
      (SET_BRIDGE_PROXY_ADDRESS_CMD, setBridgeProxyAddress),
      (GET_BRIDGE_STATISTICS_CMD, getBridgeStatistics),
      (GET_ICMB_CAPABILITIES_CMD, getIcmbCapabilities),
      (CLEAR_BRIDGE_STATISTICS_CMD, clearBridgeStatistics),
      (GET_BRIDGE_PROXY_ADDRESS_CMD, getBridgeProxyAddress),
      (GET_ICMB_CONNECTOR_INFO_CMD, getIcmbConnectorInfo),
      (SET_ICMB_CONNECTOR_INFO_CMD, setIcmbConnectorInfo),
      (SEND_ICMB_CONNECTION_ID_CMD, sendIcmbConnectionId),
      (PREPARE_FOR_DISCOVERY_CMD, prepareForDiscovery),
      (GET_ADDRESSES_CMD, getAddresses),
      (SET_DISCOVERED_CMD, setDiscovered),
      (GET_CHASSIS_DEVICE_ID_CMD, getChassisDeviceId),
      (SET_CHASSIS_DEVICE_ID_CMD, setChassisDeviceId),
      (BRIDGE_REQUEST_CMD, bridgeRequest),
      (BRIDGE_MESSAGE_CMD, bridgeMessage),
      (GET_EVENT_COUNT_CMD, getEventCount),
      (SET_EVENT_DESTINATION_CMD, setEventDestination),
      (SET_EVENT_RECEPTION_STATE_CMD, setEventReceptionState),
      (SEND_ICMB_EVENT_MESSAGE_CMD, sendIcmbEventMessage),
      (GET_EVENT_DESTIATION_CMD, getEventDestination),
      (GET_EVENT_RECEPTION_STATE_CMD, getEventReceptionState),
      (ERROR_REPORT_CMD, errorReport)]"

section \<open>Transport commands\<close>

definition SET_LAN_CONFIG_PARMS_CMD :: u8 where [protodefs]: "SET_LAN_CONFIG_PARMS_CMD = 0x01"
definition GET_LAN_CONFIG_PARMS_CMD :: u8 where [protodefs]: "GET_LAN_CONFIG_PARMS_CMD = 0x02"
definition SUSPEND_BMC_ARPS_CMD :: u8 where [protodefs]: "SUSPEND_BMC_ARPS_CMD = 0x03"
definition GET_IP_UDP_RMCP_STATS_CMD :: u8 where [protodefs]: "GET_IP_UDP_RMCP_STATS_CMD = 0x04"
definition SET_SERIAL_MODEM_CONFIG_CMD :: u8 where [protodefs]: "SET_SERIAL_MODEM_CONFIG_CMD = 0x10"
definition GET_SERIAL_MODEM_CONFIG_CMD :: u8 where [protodefs]: "GET_SERIAL_MODEM_CONFIG_CMD = 0x11"
definition SET_SERIAL_MODEM_MUX_CMD :: u8 where [protodefs]: "SET_SERIAL_MODEM_MUX_CMD = 0x12"
definition GET_TAP_RESPONSE_CODES_CMD :: u8 where [protodefs]: "GET_TAP_RESPONSE_CODES_CMD = 0x13"
definition SET_PPP_UDP_PROXY_XMIT_DATA_CMD :: u8 where [protodefs]: "SET_PPP_UDP_PROXY_XMIT_DATA_CMD = 0x14"
definition GET_PPP_UDP_PROXY_XMIT_DATA_CMD :: u8 where [protodefs]: "GET_PPP_UDP_PROXY_XMIT_DATA_CMD = 0x15"
definition SEND_PPP_UDP_PROXY_PACKET_CMD :: u8 where [protodefs]: "SEND_PPP_UDP_PROXY_PACKET_CMD = 0x16"
definition GET_PPP_UDP_PROXY_RECV_DATA_CMD :: u8 where [protodefs]: "GET_PPP_UDP_PROXY_RECV_DATA_CMD = 0x17"
definition SERIAL_MODEM_CONN_ACTIVE_CMD :: u8 where [protodefs]: "SERIAL_MODEM_CONN_ACTIVE_CMD = 0x18"
definition CALLBACK_CMD :: u8 where [protodefs]: "CALLBACK_CMD = 0x19"
definition SET_USER_CALLBACK_OPTIONS_CMD :: u8 where [protodefs]: "SET_USER_CALLBACK_OPTIONS_CMD = 0x1a"
definition GET_USER_CALLBACK_OPTIONS_CMD :: u8 where [protodefs]: "GET_USER_CALLBACK_OPTIONS_CMD = 0x1b"
definition SOL_ACTIVATING_CMD :: u8 where [protodefs]: "SOL_ACTIVATING_CMD = 0x20"
definition SET_SOL_CONFIGURATION_PARAMETERS :: u8 where [protodefs]: "SET_SOL_CONFIGURATION_PARAMETERS = 0x21"
definition GET_SOL_CONFIGURATION_PARAMETERS :: u8 where [protodefs]: "GET_SOL_CONFIGURATION_PARAMETERS = 0x22"

definition setLanConfigParms :: handler where
  [stubs]: "setLanConfigParms env msg w = Inr w"
definition getLanConfigParms :: handler where
  [stubs]: "getLanConfigParms env msg w = Inr w"
definition suspendBmcArps :: handler where
  [stubs]: "suspendBmcArps env msg w = Inr w"
definition getIpUdpRmcpStats :: handler where
  [stubs]: "getIpUdpRmcpStats env msg w = Inr w"
definition setSerialModemConfig :: handler where
  [stubs]: "setSerialModemConfig env msg w = Inr w"
definition getSerialModemConfig :: handler where
  [stubs]: "getSerialModemConfig env msg w = Inr w"
definition setSerialModemMux :: handler where
  [stubs]: "setSerialModemMux env msg w = Inr w"
definition getTapResponseCodes :: handler where
  [stubs]: "getTapResponseCodes env msg w = Inr w"
definition setPppUdpProxyXmitData :: handler where
  [stubs]: "setPppUdpProxyXmitData env msg w = Inr w"
definition getPppUdpProxyXmitData :: handler where
  [stubs]: "getPppUdpProxyXmitData env msg w = Inr w"
definition sendPppUdpProxyPacket :: handler where
  [stubs]: "sendPppUdpProxyPacket env msg w = Inr w"
definition getPppUdpProxyRecvData :: handler where
  [stubs]: "getPppUdpProxyRecvData env msg w = Inr w"
definition serialModemConnActive :: handler where
  [stubs]: "serialModemConnActive env msg w = Inr w"
definition callbackCmd :: handler where
  [stubs]: "callbackCmd env msg w = Inr w"
definition setUserCallbackOptions :: handler where
  [stubs]: "setUserCallbackOptions env msg w = Inr w"
definition getUserCallbackOptions :: handler where
  [stubs]: "getUserCallbackOptions env msg w = Inr w"
definition solActivating :: handler where
  [stubs]: "solActivating env msg w = Inr w"
definition setSolConfigurationParameters :: handler where
  [stubs]: "setSolConfigurationParameters env msg w = Inr w"
definition getSolConfigurationParameters :: handler where
  [stubs]: "getSolConfigurationParameters env msg w = Inr w"

definition transportProcessors :: "u8 \<Rightarrow> handler option" where
  "transportProcessors = map_of
     [(SET_LAN_CONFIG_PARMS_CMD, setLanConfigParms),
      (GET_LAN_CONFIG_PARMS_CMD, getLanConfigParms),
      (SUSPEND_BMC_ARPS_CMD, suspendBmcArps),
      (GET_IP_UDP_RMCP_STATS_CMD, getIpUdpRmcpStats),
      (SET_SERIAL_MODEM_CONFIG_CMD, setSerialModemConfig),
      (GET_SERIAL_MODEM_CONFIG_CMD, getSerialModemConfig),
      (SET_SERIAL_MODEM_MUX_CMD, setSerialModemMux),
      (GET_TAP_RESPONSE_CODES_CMD, getTapResponseCodes),
      (SET_PPP_UDP_PROXY_XMIT_DATA_CMD, setPppUdpProxyXmitData),
      (GET_PPP_UDP_PROXY_XMIT_DATA_CMD, getPppUdpProxyXmitData),
      (SEND_PPP_UDP_PROXY_PACKET_CMD, sendPppUdpProxyPacket),
      (GET_PPP_UDP_PROXY_RECV_DATA_CMD, getPppUdpProxyRecvData),
      (SERIAL_MODEM_CONN_ACTIVE_CMD, serialModemConnActive),
      (CALLBACK_CMD, callbackCmd),
      (SET_USER_CALLBACK_OPTIONS_CMD, setUserCallbackOptions),
      (GET_USER_CALLBACK_OPTIONS_CMD, getUserCallbackOptions),
      (SOL_ACTIVATING_CMD, solActivating),
      (SET_SOL_CONFIGURATION_PARAMETERS, setSolConfigurationParameters),
      (GET_SOL_CONFIGURATION_PARAMETERS, getSolConfigurationParameters)]"

section \<open>The dead tables\<close>

text \<open>Both tables satisfy the contracts of the tables in use, with no risky and no clearing command.\<close>

interpretation bridge: listed_table bridgeProcessors "{}" "{}"
proof
  show "handler_ok h" "handler_total h" "handler_keeps h" if "bridgeProcessors c = Some h" for c h
    using that unfolding bridgeProcessors_def
    by (elim table_ok [rotated]; simp add: stub_ok stub_total stub_keeps stubs)+
qed

interpretation transport: listed_table transportProcessors "{}" "{}"
proof
  show "handler_ok h" "handler_total h" "handler_keeps h" if "transportProcessors c = Some h" for c h
    using that unfolding transportProcessors_def
    by (elim table_ok [rotated]; simp add: stub_ok stub_total stub_keeps stubs)+
qed

text \<open>The network functions whose processor only prints.\<close>

lemma silent_entries:
  "netfuncProcessors BRIDGE_NETFN = Some bridgeNetfn" "netfuncProcessors FIRMWARE_NETFN = Some firmwareNetfn"
  "netfuncProcessors TRANSPORT_NETFN = Some transportNetfn"
  "netfuncProcessors GROUP_EXTENSION_NETFN = Some groupExtensionNetfn"
  "netfuncProcessors OEM_GROUP_NETFN = Some oemGroupNetfn"
  by (simp_all add: netfuncProcessors_def protodefs)

text \<open>C33: Five network functions are black holes. A request for the bridge, firmware, transport, group
  extension or OEM function changes nothing and gets no answer, not even a completion code for an
  invalid command, whatever its command: also one for which the bridge or transport table has a
  handler, which is never consulted.\<close>

theorem silent_netfns:
  assumes "5 \<le> length pkt" "parsed addr pkt w = (m, w)" "m_authtype m \<noteq> IPMI_AUTHTYPE_RMCP_PLUS"
    and "rm_netfn (m_message m) \<in> {BRIDGE_NETFN, FIRMWARE_NETFN, TRANSPORT_NETFN, GROUP_EXTENSION_NETFN, OEM_GROUP_NETFN}"
  shows "ipmiHandleMsg env (received addr pkt) w = Inr w"
  using handle_request [OF assms(1-3), of env] assms(4) by (auto simp: silent_entries stubs)

theorem silent_netfns_witness:
  "ipmiHandleMsg demo_env (received 7 (demo_request 0 TRANSPORT_NETFN GET_LAN_CONFIG_PARMS_CMD [1, 3, 0, 0])) demo_server
     = Inr demo_server \<and> GET_LAN_CONFIG_PARMS_CMD \<in> dom transportProcessors"
proof -
  have h: "length [1, 3, 0, 0 :: u8] < 200" "TRANSPORT_NETFN < 64" by (simp_all add: protodefs)
  note p = handle_demo(1) [OF h refl refl, where w = demo_server] and len = handle_demo(2) [OF h refl refl]
  have "GET_LAN_CONFIG_PARMS_CMD \<in> dom transportProcessors" by (simp add: transportProcessors_def protodefs)
  moreover have "ipmiHandleMsg demo_env (received 7 (demo_request 0 TRANSPORT_NETFN GET_LAN_CONFIG_PARMS_CMD [1, 3, 0, 0])) demo_server
      = Inr demo_server"
    by (rule silent_netfns [OF len p]) (simp_all add: parsed_client_def protodefs)
  ultimately show ?thesis by blast
qed

end
