(* ===== verification/Sdr_Chain.thy ===== *)
theory Sdr_Chain
  imports Sdr_Repo
begin

text \<open>
  The linked list of SDR records as the program has it: nodes on a heap, each with a \<open>next\<close>
  pointer, and the pointers \<open>sdrs\<close> and \<open>tailSdr\<close> of the repository. The loops over the list are
  partial functions on the heap. The other theories work on the list of the records in \<open>next\<close>
  order; the refinement here justifies that: on every heap the program builds, the pointer code
  terminates and does to the chain what the list operations do to the list. The locale
  \<open>sdr_store\<close> states the contract, the chain and the list both interpret it.
\<close>

section \<open>The pointer program\<close>

record sdr_node =
  k_rec :: sdrT
  k_next :: "nat option"

text \<open>\<open>k_fresh\<close> is the address that the next \<open>new(sdrT)\<close> returns; smaller ones are in use.\<close>

record sdr_chain =
  k_heap :: "nat \<Rightarrow> sdr_node"
  k_fresh :: nat
  k_sdrs :: "nat option"
  k_tailSdr :: "nat option"

definition empty_chain :: sdr_chain where
  "empty_chain = \<lparr>k_heap = (\<lambda>p. \<lparr>k_rec = zero_sdr, k_next = None\<rparr>), k_fresh = 0,
     k_sdrs = None, k_tailSdr = None\<rparr>"

text \<open>\<open>for entry != nil { if test { break }; entry = entry.next }\<close>\<close>

partial_function (option) chain_find ::
  "(sdrT \<Rightarrow> bool) \<Rightarrow> (nat \<Rightarrow> sdr_node) \<Rightarrow> nat option \<Rightarrow> nat option option" where
  "chain_find P h entry =
     (case entry of
        None \<Rightarrow> Some None
      | Some p \<Rightarrow> if P (k_rec (h p)) then Some entry else chain_find P h (k_next (h p)))"

text \<open>
  Linking a new node at the tail: \<open>sdrs\<close> nil makes it the first, otherwise \<open>tailSdr.next\<close> is
  written, which panics on a nil \<open>tailSdr\<close>.
\<close>

definition chain_append :: "sdrT \<Rightarrow> sdr_chain \<Rightarrow> sdr_chain go" where
  "chain_append e c =
     (let p = k_fresh c;
          h = (k_heap c)(p := \<lparr>k_rec = e, k_next = None\<rparr>);
          c = c\<lparr>k_fresh := p + 1\<rparr>
      in if k_sdrs c = None then Inr (c\<lparr>k_heap := h, k_sdrs := Some p, k_tailSdr := Some p\<rparr>)
         else case k_tailSdr c of
           None \<Rightarrow> Inl NilDereference
         | Some t \<Rightarrow> Inr (c\<lparr>k_heap := h(t := (h t)\<lparr>k_next := Some p\<rparr>), k_tailSdr := Some p\<rparr>))"

definition chain_write :: "nat \<Rightarrow> (sdrT \<Rightarrow> sdrT) \<Rightarrow> sdr_chain \<Rightarrow> sdr_chain" where
  "chain_write p f c = c\<lparr>k_heap := (k_heap c)(p := (k_heap c p)\<lparr>k_rec := f (k_rec (k_heap c p))\<rparr>)\<rparr>"

text \<open>The clear command walks the list once and then drops both pointers.\<close>

partial_function (option) chain_walk :: "(nat \<Rightarrow> sdr_node) \<Rightarrow> nat option \<Rightarrow> unit option" where
  "chain_walk h entry =
     (case entry of None \<Rightarrow> Some () | Some p \<Rightarrow> chain_walk h (k_next (h p)))"

definition chain_clear :: "sdr_chain \<Rightarrow> sdr_chain option" where
  "chain_clear c = map_option (\<lambda>_. c\<lparr>k_sdrs := None, k_tailSdr := None\<rparr>)
     (chain_walk (k_heap c) (k_sdrs c))"

section \<open>Chains and the lists they hold\<close>

fun segment :: "(nat \<Rightarrow> sdr_node) \<Rightarrow> nat option \<Rightarrow> nat list \<Rightarrow> nat option \<Rightarrow> bool" where
  "segment h p [] q \<longleftrightarrow> p = q"
| "segment h p (a # as) q \<longleftrightarrow> p = Some a \<and> segment h (k_next (h a)) as q"

lemma segment_append:
  "segment h p (as @ bs) q \<longleftrightarrow> (\<exists>r. segment h p as r \<and> segment h r bs q)"
  by (induction as arbitrary: p) auto

lemma segment_cong:
  "(\<And>a. a \<in> set as \<Longrightarrow> k_next (h' a) = k_next (h a)) \<Longrightarrow> segment h' p as q = segment h p as q"
  by (induction as arbitrary: p) auto

definition chain_holds :: "sdr_chain \<Rightarrow> nat list \<Rightarrow> sdrT list \<Rightarrow> bool" where
  "chain_holds c ps xs \<longleftrightarrow>
     segment (k_heap c) (k_sdrs c) ps None \<and> distinct ps \<and> (\<forall>p \<in> set ps. p < k_fresh c) \<and>
     k_tailSdr c = (if ps = [] then None else Some (last ps)) \<and>
     xs = map (\<lambda>p. k_rec (k_heap c p)) ps"

lemma chain_holds_empty: "chain_holds empty_chain [] []"
  by (simp add: chain_holds_def empty_chain_def)

lemma chain_find_segment:
  "segment h p ps None \<Longrightarrow>
   chain_find P h p = Some (map_option ((!) ps) (find_from P 0 (map (\<lambda>p. k_rec (h p)) ps)))"
proof (induction ps arbitrary: p)
  case Nil
  then show ?case by (subst chain_find.simps) simp
next
  case (Cons a as)
  have "map_option ((!) (a # as)) (find_from P (Suc 0) xs) = map_option ((!) as) (find_from P 0 xs)" for xs
    by (simp add: find_from_shift [of P "Suc 0"] option.map_comp comp_def)
  with Cons show ?case by (subst chain_find.simps) simp
qed

lemma chain_walk_segment: "segment h p ps None \<Longrightarrow> chain_walk h p = Some ()"
proof (induction ps arbitrary: p)
  case Nil
  then show ?case by (subst chain_walk.simps) simp
next
  case (Cons a as)
  then show ?case by (subst chain_walk.simps) simp
qed

lemma chain_append_holds:
  assumes "chain_holds c ps xs"
  shows "\<exists>c'. chain_append e c = Inr c' \<and> chain_holds c' (ps @ [k_fresh c]) (xs @ [e])"
proof (cases "ps = []")
  case True
  then show ?thesis using assms by (simp add: chain_append_def chain_holds_def Let_def)
next
  case False
  let ?n = "k_fresh c" and ?t = "last ps"
  let ?h = "(k_heap c)(?n := \<lparr>k_rec = e, k_next = None\<rparr>)"
  let ?h' = "?h(?t := (?h ?t)\<lparr>k_next := Some ?n\<rparr>)"
  have ps: "ps = butlast ps @ [?t]" "?t \<in> set ps" using False by simp_all
  have c: "segment (k_heap c) (k_sdrs c) ps None" "distinct ps" "\<forall>p \<in> set ps. p < ?n"
    "k_tailSdr c = Some ?t" "xs = map (\<lambda>p. k_rec (k_heap c p)) ps"
    using assms False by (simp_all add: chain_holds_def)
  have fresh: "?n \<notin> set ps" using c(3) by blast
  have t: "?t \<notin> set (butlast ps)" using c(2) ps(1) by (metis distinct_append distinct.simps(2) disjoint_insert(1) list.simps(15))
  have "segment (k_heap c) (k_sdrs c) (butlast ps) (Some ?t)"
    using c(1) by (subst (asm) ps(1)) (auto simp: segment_append)
  moreover have "segment ?h' (k_sdrs c) (butlast ps) (Some ?t) = segment (k_heap c) (k_sdrs c) (butlast ps) (Some ?t)"
    using t fresh by (intro segment_cong) (auto dest: in_set_butlastD)
  ultimately have "segment ?h' (k_sdrs c) (butlast ps @ [?t, ?n]) None"
    using fresh ps(2) by (auto simp: segment_append)
  then have seg: "segment ?h' (k_sdrs c) (ps @ [?n]) None" using ps(1) by (metis append.assoc append_Cons append_Nil)
  let ?c' = "c\<lparr>k_fresh := ?n + 1, k_heap := ?h', k_tailSdr := Some ?n\<rparr>"
  obtain y where "k_sdrs c = Some y" using c(1) False by (cases ps) auto
  then have "chain_append e c = Inr ?c'"
    using c(4) by (simp add: chain_append_def Let_def)
  moreover have "xs @ [e] = map (\<lambda>p. k_rec (k_heap ?c' p)) (ps @ [?n])"
    using fresh ps(2) c(5) by auto
  moreover have "\<forall>p \<in> set (ps @ [?n]). p < k_fresh ?c'" using c(3) by auto
  moreover have "segment (k_heap ?c') (k_sdrs ?c') (ps @ [?n]) None" using seg by simp
  moreover have "distinct (ps @ [?n])" using c(2) fresh by simp
  ultimately show ?thesis
    unfolding chain_holds_def by (intro exI [of _ ?c']) auto
qed

lemma chain_write_holds:
  assumes "chain_holds c ps xs" "i < length xs"
  shows "chain_holds (chain_write (ps ! i) f c) ps (xs[i := f (xs ! i)])"
proof -
  have seg: "segment (k_heap (chain_write (ps ! i) f c)) (k_sdrs c) ps None"
    using assms(1) by (subst segment_cong [of _ _ "k_heap c"]) (auto simp: chain_holds_def chain_write_def)
  have "xs[i := f (xs ! i)] = map (\<lambda>p. k_rec (k_heap (chain_write (ps ! i) f c) p)) ps"
    using assms by (intro nth_equalityI)
      (auto simp: chain_holds_def chain_write_def nth_list_update nth_eq_iff_index_eq)
  with seg assms(1) show ?thesis
    by (simp add: chain_holds_def chain_write_def)
qed

lemma chain_clear_holds:
  "chain_holds c ps xs \<Longrightarrow> \<exists>c'. chain_clear c = Some c' \<and> chain_holds c' [] []"
  using chain_walk_segment [of "k_heap c" "k_sdrs c" ps]
  by (simp add: chain_holds_def chain_clear_def)

lemma segment_next:
  "segment h p ps q \<Longrightarrow> i < length ps \<Longrightarrow>
   k_next (h (ps ! i)) = (if Suc i < length ps then Some (ps ! Suc i) else q)"
proof (induction ps arbitrary: p i)
  case (Cons a as)
  show ?case
  proof (cases i)
    case 0
    with Cons.prems show ?thesis by (cases as) auto
  next
    case (Suc j)
    with Cons.prems Cons.IH [of "k_next (h a)" j] show ?thesis by simp
  qed
qed simp

section \<open>The contract\<close>

text \<open>
  What the commands rely on. \<open>holds s ps xs\<close>: the store \<open>s\<close> has the records \<open>xs\<close> at the
  references \<open>ps\<close>. The outer option of a search is divergence.
\<close>

locale sdr_store =
  fixes holds :: "'s \<Rightarrow> 'p list \<Rightarrow> sdrT list \<Rightarrow> bool"
    and search :: "(sdrT \<Rightarrow> bool) \<Rightarrow> 's \<Rightarrow> 'p option option"
    and fetch :: "'p \<Rightarrow> 's \<Rightarrow> sdrT"
    and succ :: "'p \<Rightarrow> 's \<Rightarrow> 'p option"
    and tail :: "'s \<Rightarrow> 'p option"
    and link :: "sdrT \<Rightarrow> 's \<Rightarrow> 's go"
    and store :: "'p \<Rightarrow> (sdrT \<Rightarrow> sdrT) \<Rightarrow> 's \<Rightarrow> 's"
    and wipe :: "'s \<Rightarrow> 's option"
  assumes holds_length: "holds s ps xs \<Longrightarrow> length ps = length xs"
    and search_holds: "holds s ps xs \<Longrightarrow> search P s = Some (map_option ((!) ps) (find_from P 0 xs))"
    and fetch_holds: "holds s ps xs \<Longrightarrow> i < length xs \<Longrightarrow> fetch (ps ! i) s = xs ! i"
    and succ_holds: "holds s ps xs \<Longrightarrow> i < length xs \<Longrightarrow>
      succ (ps ! i) s = (if Suc i < length xs then Some (ps ! Suc i) else None)"
    and tail_holds: "holds s ps xs \<Longrightarrow> tail s = (if xs = [] then None else Some (ps ! (length xs - 1)))"
    and link_holds: "holds s ps xs \<Longrightarrow> \<exists>s' p. link e s = Inr s' \<and> holds s' (ps @ [p]) (xs @ [e])"
    and store_holds: "holds s ps xs \<Longrightarrow> i < length xs \<Longrightarrow> holds (store (ps ! i) f s) ps (xs[i := f (xs ! i)])"
    and wipe_holds: "holds s ps xs \<Longrightarrow> \<exists>s'. wipe s = Some s' \<and> holds s' [] []"
begin

lemma search_total: "holds s ps xs \<Longrightarrow> search P s \<noteq> None"
  by (simp add: search_holds)

lemma search_finds:
  assumes "holds s ps xs" "search P s = Some (Some p)"
  obtains i where "i < length xs" "p = ps ! i" "find_from P 0 xs = Some i" "fetch p s = xs ! i" "P (xs ! i)"
  using assms search_holds [OF assms(1), of P] fetch_holds [OF assms(1)]
  by (auto simp: find_from_Some_iff)

lemma search_misses: "holds s ps xs \<Longrightarrow> search P s = Some None \<longleftrightarrow> (\<forall>e \<in> set xs. \<not> P e)"
  by (simp add: search_holds find_from_None_iff)

lemma link_then_search:
  assumes "holds s ps xs" "search P s = Some None" "P e" "link e s = Inr s'"
  shows "\<exists>p. search P s' = Some (Some p) \<and> fetch p s' = e"
proof -
  obtain p where p: "holds s' (ps @ [p]) (xs @ [e])" using link_holds [OF assms(1), of e] assms(4) by auto
  have "find_from P 0 xs = None" using assms(1,2) by (simp add: search_holds)
  then show ?thesis
    using search_holds [OF p, of P] fetch_holds [OF p, of "length xs"] holds_length [OF assms(1)] assms(3)
    by (simp add: find_from_append)
qed

lemma store_then_fetch:
  assumes "holds s ps xs" "search P s = Some (Some p)"
  shows "fetch p (store p f s) = f (fetch p s)"
  using assms
proof (cases rule: search_finds)
  case (1 i)
  with assms(1) show ?thesis using fetch_holds [OF store_holds [OF assms(1) 1(1)] , of i f] by simp
qed

text \<open>The next-record id of a Get SDR reply.\<close>

lemma succ_next_id:
  assumes "holds s ps xs" "i < length xs"
  shows "next_id i xs = (case succ (ps ! i) s of None \<Rightarrow> 0xffff | Some q \<Rightarrow> d_recordId (fetch q s))"
  using assms fetch_holds [OF assms(1), of "Suc i"] by (simp add: succ_holds next_id_def)

end

interpretation chain: sdr_store chain_holds "\<lambda>P c. chain_find P (k_heap c) (k_sdrs c)"
  "\<lambda>p c. k_rec (k_heap c p)" "\<lambda>p c. k_next (k_heap c p)" k_tailSdr chain_append chain_write chain_clear
proof (unfold_locales, goal_cases)
  case 1
  then show ?case by (simp add: chain_holds_def)
next
  case (2 c ps xs P)
  then show ?case using chain_find_segment [of "k_heap c" "k_sdrs c" ps P] by (simp add: chain_holds_def)
next
  case (3 c ps xs i)
  then show ?case by (simp add: chain_holds_def)
next
  case (4 c ps xs i)
  then show ?case using segment_next [of "k_heap c" "k_sdrs c" ps None i] by (simp add: chain_holds_def)
next
  case (5 c ps xs)
  then show ?case by (simp add: chain_holds_def last_conv_nth)
next
  case (6 c ps xs e)
  then show ?case using chain_append_holds by blast
next
  case (7 c ps xs i f)
  then show ?case by (rule chain_write_holds)
next
  case (8 c ps xs)
  then show ?case by (rule chain_clear_holds)
qed

text \<open>The list of records, with positions for references: the operations of \<open>Sdr_Repo\<close>.\<close>

interpretation listed: sdr_store "\<lambda>s ps xs. s = xs \<and> ps = [0..<length xs]" "\<lambda>P s. Some (find_from P 0 s)"
  "\<lambda>i s. s ! i" "\<lambda>i s. if i + 1 < length s then Some (i + 1) else None"
  "\<lambda>s. if s = [] then None else Some (length s - 1)" "\<lambda>e s. Inr (s @ [e])" "\<lambda>i f s. s[i := f (s ! i)]" "\<lambda>s. Some []"
proof (unfold_locales, goal_cases)
  case (2 s ps xs P)
  show ?case
  proof (cases "find_from P 0 xs")
    case (Some a)
    then have "a < length xs" by (simp add: find_from_Some_iff)
    with Some 2 show ?thesis by simp
  qed (use 2 in simp)
qed auto

section \<open>Properties\<close>

text \<open>What the commands do to the repository, on the heap and on the list.\<close>

datatype sdr_op =
    AddNew sdrT
  | NewValue u8 u8 u8
  | ClearAll

fun chain_step :: "sdr_op \<Rightarrow> sdr_chain \<Rightarrow> sdr_chain go option" where
  "chain_step (AddNew e) c = Some (chain_append e c)"
| "chain_step (NewValue lun sensNum v) c =
     map_option (\<lambda>found. case found of
         None \<Rightarrow> Inr c
       | Some p \<Rightarrow> Inr (chain_write p (\<lambda>e. e\<lparr>d_value := v\<rparr>) c))
       (chain_find (\<lambda>e. d_lun e = lun \<and> d_sensNum e = sensNum) (k_heap c) (k_sdrs c))"
| "chain_step ClearAll c = map_option Inr (chain_clear c)"

fun list_step :: "sdr_op \<Rightarrow> sdrT list \<Rightarrow> sdrT list" where
  "list_step (AddNew e) xs = xs @ [e]"
| "list_step (NewValue lun sensNum v) xs =
     (case find_sensor lun sensNum xs of None \<Rightarrow> xs | Some i \<Rightarrow> set_value v i xs)"
| "list_step ClearAll xs = []"

fun chain_run :: "sdr_op list \<Rightarrow> sdr_chain \<Rightarrow> sdr_chain go option" where
  "chain_run [] c = Some (Inr c)"
| "chain_run (x # xs) c =
     (case chain_step x c of Some (Inr c') \<Rightarrow> chain_run xs c' | r \<Rightarrow> r)"

lemma chain_step_simulates:
  assumes "chain_holds c ps xs"
  shows "\<exists>c' ps'. chain_step x c = Some (Inr c') \<and> chain_holds c' ps' (list_step x xs)"
proof (cases x)
  case (AddNew e)
  then show ?thesis using chain.link_holds [OF assms] by fastforce
next
  case (NewValue lun sensNum v)
  note s = chain.search_holds [OF assms, of "\<lambda>e. d_lun e = lun \<and> d_sensNum e = sensNum"]
  show ?thesis
  proof (cases "find_sensor lun sensNum xs")
    case None
    with NewValue assms s show ?thesis by (auto simp: find_sensor_def)
  next
    case (Some i)
    then have "i < length xs" by (simp add: find_sensor_simps)
    from chain.store_holds [OF assms this, of "\<lambda>e. e\<lparr>d_value := v\<rparr>"] Some NewValue s
    show ?thesis by (auto simp: find_sensor_def set_value_def)
  qed
next
  case ClearAll
  then show ?thesis using chain.wipe_holds [OF assms] by fastforce
qed

lemma chain_run_simulates:
  "chain_holds c ps xs \<Longrightarrow>
   \<exists>c' ps'. chain_run ops c = Some (Inr c') \<and> chain_holds c' ps' (fold list_step ops xs)"
proof (induction ops arbitrary: c ps xs)
  case (Cons x ops)
  obtain c' ps' where "chain_step x c = Some (Inr c')" "chain_holds c' ps' (list_step x xs)"
    using chain_step_simulates [OF Cons.prems] by blast
  with Cons.IH [of c' ps' "list_step x xs"] show ?case by simp
qed auto

text \<open>C7: The linked list implements the list. Any sequence of additions, value updates and clears,
  run on the pointers from an empty repository, ends without a nil dereference and without a loop
  that runs forever, in a chain whose records, in \<open>next\<close> order, are those that the list operations
  give.\<close>

theorem chain_refines_list:
  "\<exists>c ps. chain_run ops empty_chain = Some (Inr c) \<and> chain_holds c ps (fold list_step ops [])"
  by (rule chain_run_simulates [OF chain_holds_empty])

text \<open>C26: The search loop of Get SDR, Add SDR, Get Sensor Reading and the sensor poll is the search
  through the list. On every heap that the program builds, the nodes in \<open>next\<close> order are some
  \<open>ps\<close>, which hold the records of the list, and the loop ends: at the node whose position is the one
  that the list search finds, the first that passes the test, or at nil if the list search finds
  nothing.\<close>

theorem chain_find_correct:
  assumes "chain_run ops empty_chain = Some (Inr c)"
  shows "\<exists>ps. segment (k_heap c) (k_sdrs c) ps None \<and> map (\<lambda>p. k_rec (k_heap c p)) ps = fold list_step ops [] \<and>
    chain_find P (k_heap c) (k_sdrs c) =
      Some (case find_from P 0 (fold list_step ops []) of None \<Rightarrow> None | Some i \<Rightarrow> Some (ps ! i))"
proof -
  obtain ps where c: "chain_holds c ps (fold list_step ops [])"
    using chain_run_simulates [OF chain_holds_empty, of ops] assms by auto
  from chain.search_holds [OF c, of P] c show ?thesis
    by (intro exI [of _ ps]) (simp add: chain_holds_def option.case_eq_if map_option_case split: option.split)
qed

theorem chain_find_correct_witness:
  "\<exists>c found. chain_run [AddNew zero_sdr] empty_chain = Some (Inr c) \<and>
     chain_find (\<lambda>e. d_lun e = 0) (k_heap c) (k_sdrs c) = Some (Some found)"
proof -
  obtain c where c: "chain_run [AddNew zero_sdr] empty_chain = Some (Inr c)"
    by (simp add: chain_append_def empty_chain_def Let_def)
  from chain_find_correct [OF c, of "\<lambda>e. d_lun e = 0"] c show ?thesis
    by (auto simp: zero_sdr_def)
qed

end
