(* ===== verification/Spec2Isabelle.thy ===== *)
theory Spec2Isabelle
  imports Line_Card Sdr_Walk Session_Spec Bridge_Transport Sdr_Chain
begin

text \<open>
  \<^bold>\<open>The program.\<close> ipmigod (package \<open>ipmigod\<close>, Go, under \<open>src/\<close>) is an IPMI management controller in
  software. One process runs on the management module of a chassis (card 0), one on every line card.
  Each serves IPMI requests over RMCP on UDP; a line card is also a client: at start it connects to the
  management module, opens a session, uploads the records (SDRs) of its four sensors and then
  forwards every sensor reading with a special Add SDR. A process has two loops: it answers
  datagrams (\<open>ipmiHandleMsg\<close> for each), and a ticker polls the sensors (\<open>pollSensors\<close>). The state is
  the LAN server \<open>lanserv\<close> (users, session table, counters), the management controller \<open>mc\<close> (event log,
  SDR repository, sensors) and the client's context \<open>clientCtx\<close>.

  \<^bold>\<open>Theories and code.\<close>
  \<^item> \<open>Go_Prelude\<close>: bytes and words, panics as values (\<open>go\<close> is a sum), zero-filled arrays, little-endian
    codec; the collection \<open>protodefs\<close> of the constants' equations.
  \<^item> \<open>Ipmi_Protodefs\<close>, \<open>Ipmi_State\<close>: the constants of \<open>ipmi_protodefs.go\<close>; the structs as records, the
    start values, \<open>ipmiLanInit\<close>; \<open>world\<close> gathers the package variables and the sent datagrams.
  \<^item> \<open>Session_Table\<close>: \<open>findUser\<close>, \<open>sidToSession\<close>, \<open>findFreeSession\<close>, the session ids, the invariant
    \<open>lan_inv\<close> and the map \<open>grants\<close> that the table stands for. \<open>App_Cmds\<close>: the handlers of
    \<open>ipmi_internal_app.go\<close>. \<open>Session_Spec\<close>: the abstract session specification and the proof that the
    daemon implements it.
  \<^item> \<open>Ipmi_Wire\<close>: \<open>ipmiChecksum\<close>, the parser and the response builder (\<open>ipmi_proto.go\<close>,
    \<open>ipmi_internal_proto.go\<close>).
  \<^item> \<open>Repo_Common\<close>, \<open>Sel_Log\<close>, \<open>Sdr_Repo\<close>: reservations and read-out common to both repositories, the
    event log, the SDR repository (\<open>ipmi_internal_storage.go\<close>, \<open>bmc.go\<close>) on lists of records.
    \<open>Sdr_Chain\<close>: the same repository as the program has it, linked nodes on a heap, and its refinement to lists.
  \<^item> \<open>Ipmi_Client\<close>: the client of \<open>ipmi_client.go\<close>. \<open>Sensor_Cmds\<close>: Get Sensor Reading and the poll
    (\<open>ipmi_internal_sensor.go\<close>). \<open>Bmc\<close>: \<open>bmcInit\<close> and what it calls (\<open>bmc.go\<close>).
  \<^item> \<open>Stub_Cmds\<close>, \<open>Bridge_Transport\<close>: the unimplemented handlers and the two tables nothing looks up.
  \<^item> \<open>Dispatch\<close>: the tables and \<open>ipmiHandleMsg\<close>. \<open>Daemon\<close>: \<open>ipmiMMConnect\<close>, \<open>Ipmigod\<close> and the two loops as
    the step relation \<open>daemon_step\<close> with its runs. \<open>Handshake\<close>, \<open>Line_Card\<close>: client and server together,
    the daemon of the management module serving as the client's network. \<open>Sdr_Walk\<close>: a console that reads the
    whole SDR repository from the daemon by Get SDR datagrams.
\<close>

text \<open>
  \<^bold>\<open>How code becomes definitions.\<close> A Go function is a HOL function of the same name; its early returns are
  the branches. A handler takes the environment (clock, the one random number it draws), the message
  and the world, and returns the new world or the panic that kills the process (nothing recovers).
  Integers keep their width as words. A pointer to a session is an index into the table or a local
  copy (\<open>session_ref\<close>). Sending on
  the server's socket appends to \<open>w_sent\<close>; what a line card writes on its connection to the management
  module goes to the network. The network is a function parameter \<open>net\<close> from its state and a written
  datagram to a reply or a read error; its state is \<open>None\<close> for a nil connection.

  \<^bold>\<open>What the lemmas show.\<close> For every handler: a frame (\<open>rsp_frame\<close>, \<open>rsp_step\<close>, \<open>sel_frame\<close>, \<open>sdr_frame\<close>:
  what it may change and that it answers at most once, with a valid frame), the invariant it keeps, on which
  inputs it panics, and its effect on the grants. \<open>Dispatch\<close> lifts these over the tables through the
  locales \<open>command_table\<close>, \<open>listed_table\<close> and \<open>Session_Spec\<close> through \<open>granting_table\<close>, interpreted on
  each of the program's tables; \<open>Daemon\<close> lifts them over steps and runs by rule induction. The other
  locales are \<open>session_registry\<close> (the table as a map from ids to slots), \<open>reservable\<close> (both repositories)
  and \<open>sdr_store\<close> (the chain and the list). \<open>Handshake\<close> and \<open>Line_Card\<close> compose the client's requests with
  the server's handlers up to the start of a line card against its management module.

  \<^bold>\<open>Bounds.\<close> The parser's buffer holds 4000 bytes, a response at most 1000 (\<open>MAX_MSG_RETURN_DATA\<close>); the
  response builder's panic on longer ones is modelled and shown not to occur. A request is tried \<open>MAX_RETRIES = 3\<close> times, the set-up
  has four states, so it makes at most twelve tries (\<open>establish_bounded\<close>). The search for a free record id
  (\<open>sel_pick\<close>) ends by a measure, the distance of the counter to its start modulo 2 to the 16. The loops
  over the record chain are \<open>partial_function (option)\<close>; \<open>chain_refines_list\<close> includes that they return.

  \<^bold>\<open>Not modelled.\<close> Console and debug output, the pauses between tries, resolving and opening sockets, the
  kill signal. Reads that never return: the client's \<open>conn.Read\<close> has no deadline and blocks for ever if no
  answer comes; the model is of exchanges whose write or read returns, with a reply or an error, and where the server of
  \<open>server_net\<close> stays silent or panics it takes the read to return an error. Data races: the program runs its two loops in goroutines without locks; here a datagram and
  a poll are one step each, in any order. Fields no operation uses (LAN parameters, RMCP+ keys) and
  unused constants. Responses longer than the datagram limits of UDP do not occur. The RMCP+ branch of
  \<open>ipmiHandleMsg\<close> is modelled as what it does, nothing; the parser never takes a message to it.
\<close>

end
